(* ===== verification/CRAS_Prelude.thy ===== *)
theory CRAS_Prelude
  imports Complex_Main "HOL-Library.Word"
begin

text \<open>
  Shared vocabulary of the development: the C integer types as words of their width, the error
  numbers the sources return, and the lemmas on words, lists and options that the component
  theories use.

  Conventions.  An \<^verbatim>\<open>unsigned int\<close> or \<^verbatim>\<open>uint32_t\<close> is a \<open>u32\<close>, a \<^verbatim>\<open>size_t\<close> or
  \<^verbatim>\<open>uint64_t\<close> is a \<open>u64\<close>, so that every unsigned operation wraps as it does in C; a
  conversion between widths is written \<open>ucast\<close>.  A signed \<^verbatim>\<open>int\<close> or \<^verbatim>\<open>long\<close> is an
  \<open>int\<close>, since signed overflow is undefined in C.  A function that dereferences a null pointer or
  writes outside an object returns \<open>None\<close>; a division by zero has no meaning in C, and
  every theorem that needs it excludes it by hypothesis.
\<close>

unbundle bit_operations_syntax

type_synonym u8 = "8 word"
type_synonym u16 = "16 word"
type_synonym u32 = "32 word"
type_synonym u64 = "64 word"

named_theorems word_nat \<open>words to natural numbers\<close>
named_theorems cras_inv \<open>preservation of the components' invariants\<close>

section \<open>Error numbers\<close>

abbreviation EPERM :: int where "EPERM \<equiv> 1"
abbreviation ENOENT :: int where "ENOENT \<equiv> 2"
abbreviation EIO :: int where "EIO \<equiv> 5"
abbreviation EAGAIN :: int where "EAGAIN \<equiv> 11"
abbreviation ENOMEM :: int where "ENOMEM \<equiv> 12"
abbreviation EBUSY :: int where "EBUSY \<equiv> 16"
abbreviation EEXIST :: int where "EEXIST \<equiv> 17"
abbreviation EINVAL :: int where "EINVAL \<equiv> 22"
abbreviation EPIPE :: int where "EPIPE \<equiv> 32"

section \<open>Words\<close>

lemma unat_add_small [word_nat]:
  fixes a b :: "'a::len word"
  shows "unat a + unat b < 2 ^ LENGTH('a) \<Longrightarrow> unat (a + b) = unat a + unat b"
  by (simp add: unat_word_ariths)

lemma unat_mult_small [word_nat]:
  fixes a b :: "'a::len word"
  shows "unat a * unat b < 2 ^ LENGTH('a) \<Longrightarrow> unat (a * b) = unat a * unat b"
  by (simp add: unat_word_ariths)

lemma unat_min [word_nat, simp]:
  fixes a b :: "'a::len word"
  shows "unat (min a b) = min (unat a) (unat b)"
  by (simp add: min_def word_le_nat_alt)

lemma unat_max [word_nat, simp]:
  fixes a b :: "'a::len word"
  shows "unat (max a b) = max (unat a) (unat b)"
  by (simp add: max_def word_le_nat_alt)

lemma unat_u32_less [simp]: "unat (x :: u32) < 4294967296"
  using unsigned_less [of x, where ?'a = nat] by simp

lemma unat_u64_less [simp]: "unat (x :: u64) < 18446744073709551616"
  using unsigned_less [of x, where ?'a = nat] by simp

lemma unat_u32_le [simp]: "unat (x :: u32) \<le> 4294967295"
  using unat_u32_less [of x] by linarith

lemma unat_ucast_u64_u32 [word_nat, simp]: "unat (ucast (x :: u32) :: u64) = unat x"
proof -
  have "unat x < 2 ^ 64"
    by (rule less_trans [OF unat_u32_less]) simp
  then show ?thesis
    by (simp add: unsigned_ucast_eq take_bit_nat_eq_self)
qed

lemma unat_ucast_u32_u64 [word_nat]:
  "unat (ucast (x :: u64) :: u32) = unat x mod 2 ^ 32"
  by (simp add: unsigned_ucast_eq take_bit_eq_mod)

lemma ucast_u32_u64_id [simp]: "(ucast (ucast (x :: u32) :: u64) :: u32) = x"
  by (simp add: ucast_up_ucast_id is_up)

lemma word_less_Suc:
  fixes x :: "'a::len word"
  assumes "x \<noteq> - 1"
  shows "x < x + 1"
proof -
  have "1 + x \<noteq> 0"
    using assms by (metis add.commute eq_neg_iff_add_eq_0)
  then show ?thesis
    by (simp add: word_less_nat_alt unatSuc add.commute)
qed

lemmas word_order_nat [word_nat] = word_le_nat_alt word_less_nat_alt

lemma unat_ucast_add:
  fixes a :: u32 and n :: u64
  assumes "unat a + unat n < 2 ^ 32"
  shows "unat (ucast (ucast a + n) :: u32) = unat a + unat n"
proof -
  have "unat (ucast a + n) = unat a + unat n"
    using assms by (subst unat_add_small) simp_all
  then show ?thesis
    using assms by (simp add: unat_ucast_u32_u64)
qed

lemma unat_ucast_add64:
  fixes a :: u32 and n :: u64
  assumes "unat a + unat n < 2 ^ 32"
  shows "unat (ucast a + n) = unat a + unat n"
  using assms by (subst unat_add_small) simp_all

lemma unat_ucast_sub:
  fixes a :: u32 and n :: u64
  assumes "unat n \<le> unat a"
  shows "unat (ucast (ucast a - n) :: u32) = unat a - unat n"
proof -
  have "unat (ucast a - n) = unat a - unat n"
    using assms by (subst unat_sub) (simp_all add: word_le_nat_alt)
  then show ?thesis
    by (simp add: unat_ucast_u32_u64 less_imp_diff_less)
qed

lemma unat_of_nat_u64: "n < 2 ^ 64 \<Longrightarrow> unat (of_nat n :: u64) = n"
  by (simp add: unat_of_nat take_bit_nat_eq_self)

lemma unat_of_nat_u32: "n < 2 ^ 32 \<Longrightarrow> unat (of_nat n :: u32) = n"
  by (simp add: unat_of_nat take_bit_nat_eq_self)

lemma unat_of_nat_le_u32:
  assumes "n \<le> unat (x :: u32)"
  shows "unat (of_nat n :: u64) = n"
proof (rule unat_of_nat_u64)
  have "n < 4294967296"
    using assms unat_u32_less by (rule le_less_trans)
  then show "n < 2 ^ 64"
    by (rule less_trans) simp
qed

lemma sint_small_u32:
  fixes x :: u32
  assumes "unat x < 2147483648"
  shows "sint x = int (unat x)"
proof -
  have lt: "int (unat x) < int 2147483648"
    using assms by (simp only: of_nat_less_iff)
  have "signed_take_bit 31 (int (unat x)) = int (unat x)"
  proof (rule signed_take_bit_int_eq_self)
    show "- (2 ^ 31) \<le> int (unat x)"
      by (rule order_trans [of _ 0]) simp_all
    show "int (unat x) < 2 ^ 31" using lt by simp
  qed
  then show ?thesis by (simp add: sint_uint)
qed

section \<open>Modular indices\<close>

lemma mod_add_cases:
  fixes r n m :: nat
  assumes "r < m" "n \<le> m"
  shows "(r + n) mod m = (if r + n < m then r + n else r + n - m)"
  using assms by (auto simp: mod_if)

section \<open>Lists\<close>

text \<open>\<open>splice_at xs i ys\<close> overwrites \<open>xs\<close> from position \<open>i\<close> on with \<open>ys\<close>, as a
  \<^verbatim>\<open>memcpy\<close> to \<^verbatim>\<open>xs + i\<close> does when it stays inside the object.\<close>

definition splice_at :: "'a list \<Rightarrow> nat \<Rightarrow> 'a list \<Rightarrow> 'a list" where
  "splice_at xs i ys = take i xs @ ys @ drop (i + length ys) xs"

lemma length_splice_at [simp]:
  "i + length ys \<le> length xs \<Longrightarrow> length (splice_at xs i ys) = length xs"
  by (simp add: splice_at_def)

lemma nth_splice_at:
  assumes "i + length ys \<le> length xs" "k < length xs"
  shows "splice_at xs i ys ! k =
    (if i \<le> k \<and> k < i + length ys then ys ! (k - i) else xs ! k)"
  using assms by (auto simp: splice_at_def nth_append)

lemma splice_at_Nil [simp]: "splice_at xs i [] = xs"
  by (simp add: splice_at_def)

end
