(* ===== verification/Fifo.thy ===== *)
theory Fifo
  imports CRAS_Prelude
begin

text \<open>
  The contract shared by the byte ring buffer and by the double buffer of a stream: a queue that
  accepts some writes and some reads, and delivers what was written in order.
\<close>

text \<open>\<open>fifo_run\<close> runs a sequence of requests; one that the queue cannot serve is skipped, as every
  user of the buffers in the server does.  It returns what was accepted, what was delivered and the
  final queue.\<close>

datatype 'a fifo_op = Put "'a list" | Get nat

fun fifo_run :: "('q \<Rightarrow> 'a list \<Rightarrow> bool) \<Rightarrow> ('q \<Rightarrow> nat \<Rightarrow> bool) \<Rightarrow> ('a list \<Rightarrow> 'q \<Rightarrow> 'q) \<Rightarrow>
    (nat \<Rightarrow> 'q \<Rightarrow> 'a list \<times> 'q) \<Rightarrow> 'a fifo_op list \<Rightarrow> 'q \<Rightarrow> 'a list \<times> 'a list \<times> 'q" where
  "fifo_run can_put can_get put get [] q = ([], [], q)"
| "fifo_run can_put can_get put get (Put xs # ops) q =
     (if can_put q xs
      then let (acc, del, q') = fifo_run can_put can_get put get ops (put xs q) in (xs @ acc, del, q')
      else fifo_run can_put can_get put get ops q)"
| "fifo_run can_put can_get put get (Get n # ops) q =
     (if can_get q n
      then let (acc, del, q') = fifo_run can_put can_get put get ops (snd (get n q))
        in (acc, fst (get n q) @ del, q')
      else fifo_run can_put can_get put get ops q)"

locale fifo =
  fixes invar :: "'q \<Rightarrow> bool"
    and contents :: "'q \<Rightarrow> 'a list"
    and can_put :: "'q \<Rightarrow> 'a list \<Rightarrow> bool"
    and can_get :: "'q \<Rightarrow> nat \<Rightarrow> bool"
    and put :: "'a list \<Rightarrow> 'q \<Rightarrow> 'q"
    and get :: "nat \<Rightarrow> 'q \<Rightarrow> 'a list \<times> 'q"
  assumes put_invar: "invar q \<Longrightarrow> can_put q xs \<Longrightarrow> invar (put xs q)"
    and put_contents: "invar q \<Longrightarrow> can_put q xs \<Longrightarrow> contents (put xs q) = contents q @ xs"
    and get_invar: "invar q \<Longrightarrow> can_get q n \<Longrightarrow> invar (snd (get n q))"
    and get_contents: "invar q \<Longrightarrow> can_get q n \<Longrightarrow>
      contents q = fst (get n q) @ contents (snd (get n q))"
begin

lemma run_in_order:
  "invar q \<Longrightarrow> fifo_run can_put can_get put get ops q = (acc, del, q') \<Longrightarrow>
    invar q' \<and> contents q @ acc = del @ contents q'"
proof (induction ops arbitrary: q acc del q')
  case Nil
  then show ?case by simp
next
  case (Cons op ops)
  show ?case
  proof (cases op)
    case (Put xs)
    show ?thesis
    proof (cases "can_put q xs")
      case True
      obtain acc1 where run: "fifo_run can_put can_get put get ops (put xs q) = (acc1, del, q')"
        and acc: "acc = xs @ acc1"
        using Cons.prems(2) Put True by (auto split: prod.splits)
      from Cons.IH [OF put_invar [OF Cons.prems(1) True] run] show ?thesis
        by (simp add: acc put_contents [OF Cons.prems(1) True])
    next
      case False
      with Put Cons show ?thesis by simp
    qed
  next
    case (Get n)
    show ?thesis
    proof (cases "can_get q n")
      case True
      obtain del1 where run: "fifo_run can_put can_get put get ops (snd (get n q)) = (acc, del1, q')"
        and del: "del = fst (get n q) @ del1"
        using Cons.prems(2) Get True by (auto split: prod.splits)
      from Cons.IH [OF get_invar [OF Cons.prems(1) True] run] show ?thesis
        using get_contents [OF Cons.prems(1) True] by (simp add: del)
    next
      case False
      with Get Cons show ?thesis by simp
    qed
  qed
qed

end

end
