(* ===== verification/Audio_Shm.thy ===== *)
theory Audio_Shm
  imports Fifo
begin

text \<open>
  \<^verbatim>\<open>common/cras_shm.h\<close>: the double buffer through which a client and the server exchange samples.
  The header lies in memory shared with the client, so the server treats every field of it as
  untrusted and only believes its own copy of the configuration and the length of the samples area.
  A pointer into the samples area is an offset from its start (the memory of \<^verbatim>\<open>samples\<close> is a list of
  bytes); the two-element arrays are lists.
\<close>

section \<open>Structures\<close>

abbreviation CRAS_NUM_SHM_BUFFERS :: nat where "CRAS_NUM_SHM_BUFFERS \<equiv> 2"

abbreviation CRAS_SHM_BUFFERS_MASK :: u32 where "CRAS_SHM_BUFFERS_MASK \<equiv> 1"

text \<open>A C float, as far as comparisons go.\<close>

datatype c_float = NaN | NegInf | Fin rat | PosInf

fun float_less :: "c_float \<Rightarrow> c_float \<Rightarrow> bool" where
  "float_less NaN _ = False"
| "float_less _ NaN = False"
| "float_less NegInf y = (y \<noteq> NegInf)"
| "float_less (Fin x) NegInf = False"
| "float_less (Fin x) (Fin y) = (x < y)"
| "float_less (Fin x) PosInf = True"
| "float_less PosInf y = False"

record cras_audio_shm_config =
  used_size :: u32
  frame_bytes :: u32

record cras_audio_shm_header =
  hdr_config :: cras_audio_shm_config
  read_buf_idx :: u32
  write_buf_idx :: u32
  read_offset :: "u32 list"
  write_offset :: "u32 list"
  write_in_progress :: "bool list"
  volume_scaler :: c_float
  mute :: bool
  callback_pending :: bool
  num_overruns :: u32
  ts :: "int \<times> int"
  buffer_offset :: "u64 list"

record cras_audio_shm =
  config :: cras_audio_shm_config
  header :: cras_audio_shm_header
  samples_length :: u64
  samples :: "u8 list"

definition cras_shm_calculate_samples_size :: "u32 \<Rightarrow> u32" where
  "cras_shm_calculate_samples_size sz = sz * 2"

section \<open>Checked offsets\<close>

definition cras_shm_get_checked_buffer_offset :: "cras_audio_shm \<Rightarrow> nat \<Rightarrow> u32" where
  "cras_shm_get_checked_buffer_offset shm buf_idx =
     (let boff = (ucast (buffer_offset (header shm) ! buf_idx) :: u32)
      in ucast (min (ucast boff) (samples_length shm)))"

definition cras_shm_buff_for_idx :: "cras_audio_shm \<Rightarrow> u64 \<Rightarrow> nat" where
  "cras_shm_buff_for_idx shm idx0 =
     (let idx = idx0 AND ucast CRAS_SHM_BUFFERS_MASK
      in unat (cras_shm_get_checked_buffer_offset shm (unat idx)))"

definition cras_shm_get_checked_read_offset :: "cras_audio_shm \<Rightarrow> nat \<Rightarrow> u32" where
  "cras_shm_get_checked_read_offset shm buf_idx =
     (let boff = cras_shm_get_checked_buffer_offset shm buf_idx;
          roff = read_offset (header shm) ! buf_idx
      in if roff > used_size (config shm) then 0
         else if (ucast (boff + roff) :: u64) > samples_length shm then 0
         else roff)"

definition cras_shm_get_checked_write_offset :: "cras_audio_shm \<Rightarrow> nat \<Rightarrow> u32" where
  "cras_shm_get_checked_write_offset shm buf_idx =
     (let boff = cras_shm_get_checked_buffer_offset shm buf_idx;
          woff = min (write_offset (header shm) ! buf_idx) (used_size (config shm))
      in if (ucast (boff + woff) :: u64) > samples_length shm
         then ucast (samples_length shm - ucast boff)
         else woff)"

abbreviation read_idx_masked :: "cras_audio_shm \<Rightarrow> nat" where
  "read_idx_masked shm \<equiv> unat (read_buf_idx (header shm) AND CRAS_SHM_BUFFERS_MASK)"

abbreviation write_idx_masked :: "cras_audio_shm \<Rightarrow> nat" where
  "write_idx_masked shm \<equiv> unat (write_buf_idx (header shm) AND CRAS_SHM_BUFFERS_MASK)"

definition next_buf :: "nat \<Rightarrow> nat" where
  \<comment> \<open>\<^verbatim>\<open>(buf_idx + 1) & CRAS_SHM_BUFFERS_MASK\<close>\<close>
  "next_buf i = (i + 1) mod CRAS_NUM_SHM_BUFFERS"

section \<open>Queries\<close>

definition cras_shm_get_curr_read_frames :: "cras_audio_shm \<Rightarrow> u32" where
  "cras_shm_get_curr_read_frames shm =
     (let i = read_idx_masked shm;
          roff = cras_shm_get_checked_read_offset shm i;
          woff = cras_shm_get_checked_write_offset shm i
      in if roff > woff then 0 else (woff - roff) div frame_bytes (config shm))"

definition cras_shm_get_read_buffer_base :: "cras_audio_shm \<Rightarrow> nat" where
  "cras_shm_get_read_buffer_base shm =
     cras_shm_buff_for_idx shm (of_nat (read_idx_masked shm))"

definition cras_shm_get_write_buffer_base :: "cras_audio_shm \<Rightarrow> nat" where
  "cras_shm_get_write_buffer_base shm =
     cras_shm_buff_for_idx shm (of_nat (write_idx_masked shm))"

definition cras_shm_get_writeable_frames :: "cras_audio_shm \<Rightarrow> u32 \<Rightarrow> nat \<times> u32" where
  "cras_shm_get_writeable_frames shm limit_frames =
     (let i = write_idx_masked shm;
          woff = cras_shm_get_checked_write_offset shm i;
          written = woff div frame_bytes (config shm)
      in (cras_shm_buff_for_idx shm (of_nat i) + unat woff,
          if limit_frames \<ge> written then limit_frames - written else 0))"

definition cras_shm_get_readable_frames :: "cras_audio_shm \<Rightarrow> u64 \<Rightarrow> nat option \<times> u64" where
  \<comment> \<open>the pointer, \<open>None\<close> for \<^verbatim>\<open>NULL\<close>, and \<^verbatim>\<open>*frames\<close>\<close>
  "cras_shm_get_readable_frames shm offs =
     (let i = read_idx_masked shm;
          roff = cras_shm_get_checked_read_offset shm i;
          woff = cras_shm_get_checked_write_offset shm i;
          final = (ucast (ucast roff + offs * ucast (frame_bytes (config shm))) :: u32);
          (final', i', woff') =
            (if final \<ge> woff
             then (final - woff, next_buf i, cras_shm_get_checked_write_offset shm (next_buf i))
             else (final, i, woff))
      in if final' \<ge> woff' then (None, 0)
         else (Some (cras_shm_buff_for_idx shm (of_nat i') + unat final'),
               ucast ((woff' - final') div frame_bytes (config shm))))"

definition bytes_queued_in :: "cras_audio_shm \<Rightarrow> nat \<Rightarrow> u64" where
  "bytes_queued_in shm i =
     (let roff = min (read_offset (header shm) ! i) (used_size (config shm));
          woff = min (write_offset (header shm) ! i) (used_size (config shm))
      in if woff > roff then ucast (woff - roff) else 0)"

definition cras_shm_get_bytes_queued :: "cras_audio_shm \<Rightarrow> u64" where
  "cras_shm_get_bytes_queued shm = bytes_queued_in shm 0 + bytes_queued_in shm 1"

definition cras_shm_get_frames :: "cras_audio_shm \<Rightarrow> int" where
  "cras_shm_get_frames shm =
     (let bytes = cras_shm_get_bytes_queued shm; fb = ucast (frame_bytes (config shm))
      in if bytes mod fb \<noteq> 0 then - EIO else sint (ucast (bytes div fb) :: u32))"

definition cras_shm_get_frames_in_curr_buffer :: "cras_audio_shm \<Rightarrow> u64" where
  "cras_shm_get_frames_in_curr_buffer shm =
     (let i = read_idx_masked shm;
          roff = min (read_offset (header shm) ! i) (used_size (config shm));
          woff = min (write_offset (header shm) ! i) (used_size (config shm))
      in if woff \<le> roff then 0 else ucast ((woff - roff) div frame_bytes (config shm)))"

definition cras_shm_is_buffer_available :: "cras_audio_shm \<Rightarrow> bool" where
  "cras_shm_is_buffer_available shm \<longleftrightarrow> write_offset (header shm) ! write_idx_masked shm = 0"

definition cras_shm_get_num_writeable :: "cras_audio_shm \<Rightarrow> u64" where
  "cras_shm_get_num_writeable shm =
     (if \<not> cras_shm_is_buffer_available shm then 0
      else ucast (used_size (config shm) div frame_bytes (config shm)))"

definition cras_shm_frames_written :: "cras_audio_shm \<Rightarrow> u32" where
  "cras_shm_frames_written shm =
     write_offset (header shm) ! write_idx_masked shm div frame_bytes (config shm)"

section \<open>Updates\<close>

abbreviation upd_header :: "(cras_audio_shm_header \<Rightarrow> cras_audio_shm_header) \<Rightarrow>
    cras_audio_shm \<Rightarrow> cras_audio_shm" where
  "upd_header f shm \<equiv> shm\<lparr>header := f (header shm)\<rparr>"

definition mem_set :: "u8 list \<Rightarrow> nat \<Rightarrow> u8 \<Rightarrow> nat \<Rightarrow> u8 list option" where
  \<comment> \<open>\<^verbatim>\<open>memset(mem + p, v, n)\<close>; \<open>None\<close> when it writes past the end of the area\<close>
  "mem_set mem p v n =
     (if p + n \<le> length mem then Some (splice_at mem p (replicate n v)) else None)"

definition cras_shm_check_write_overrun :: "cras_audio_shm \<Rightarrow> (bool \<times> cras_audio_shm) option" where
  "cras_shm_check_write_overrun shm =
     (let i = write_idx_masked shm in
      if write_in_progress (header shm) ! i then Some (False, shm)
      else let ret = write_offset (header shm) ! i \<noteq> 0;
               shm1 = (if ret then upd_header (\<lambda>h. h\<lparr>num_overruns := num_overruns h + 1\<rparr>) shm
                       else shm)
        in map_option (\<lambda>mem. (ret, upd_header
             (\<lambda>h. h\<lparr>write_in_progress := (write_in_progress h)[i := True],
                    write_offset := (write_offset h)[i := 0]\<rparr>) (shm1\<lparr>samples := mem\<rparr>)))
           (mem_set (samples shm1) (cras_shm_buff_for_idx shm1 (of_nat i)) 0
             (unat (used_size (config shm1)))))"

definition cras_shm_buffer_written :: "cras_audio_shm \<Rightarrow> u64 \<Rightarrow> cras_audio_shm" where
  "cras_shm_buffer_written shm frames =
     (let i = write_idx_masked shm in
      if frames = 0 then shm
      else upd_header (\<lambda>h. h\<lparr>write_offset := (write_offset h)[i :=
               ucast (ucast (write_offset h ! i) + frames * ucast (frame_bytes (config shm)))],
             read_offset := (read_offset h)[i := 0]\<rparr>) shm)"

definition cras_shm_buffer_write_complete :: "cras_audio_shm \<Rightarrow> cras_audio_shm" where
  "cras_shm_buffer_write_complete shm =
     (let i = write_idx_masked shm
      in upd_header (\<lambda>h. h\<lparr>write_in_progress := (write_in_progress h)[i := False],
           write_buf_idx := of_nat (next_buf i)\<rparr>) shm)"

definition cras_shm_buffer_written_start :: "cras_audio_shm \<Rightarrow> u64 \<Rightarrow> cras_audio_shm" where
  "cras_shm_buffer_written_start shm frames =
     (let i = write_idx_masked shm
      in cras_shm_buffer_write_complete (upd_header (\<lambda>h. h\<lparr>write_offset := (write_offset h)[i :=
             ucast (frames * ucast (frame_bytes (config shm)))],
           read_offset := (read_offset h)[i := 0]\<rparr>) shm))"

definition cras_shm_buffer_read :: "cras_audio_shm \<Rightarrow> u64 \<Rightarrow> cras_audio_shm" where
  "cras_shm_buffer_read shm frames =
     (let i = read_idx_masked shm; h = header shm in
      if frames = 0 then shm
      else let r = (ucast (ucast (read_offset h ! i) + frames * ucast (frame_bytes (config shm))) :: u32);
               w = write_offset h ! i;
               h1 = h\<lparr>read_offset := (read_offset h)[i := r]\<rparr>
        in if \<not> r \<ge> w then shm\<lparr>header := h1\<rparr>
           else let remainder = (ucast (r - w) :: u64);
                    h2 = h1\<lparr>read_offset := (read_offset h1)[i := 0],
                            write_offset := (write_offset h1)[i := 0]\<rparr>;
                    j = next_buf i;
                    (h3, k) =
                      (if remainder < ucast (write_offset h2 ! j)
                       then (h2\<lparr>read_offset := (read_offset h2)[j := ucast remainder]\<rparr>, j)
                       else if remainder \<noteq> 0
                       then (h2\<lparr>write_offset := (write_offset h2)[j := 0]\<rparr>, next_buf j)
                       else (h2, j))
             in shm\<lparr>header := h3\<lparr>read_buf_idx := of_nat k\<rparr>\<rparr>)"

definition cras_shm_buffer_read_current :: "cras_audio_shm \<Rightarrow> u64 \<Rightarrow> cras_audio_shm" where
  "cras_shm_buffer_read_current shm frames =
     (let i = read_idx_masked shm; h = header shm;
          r = (ucast (ucast (read_offset h ! i) + frames * ucast (frame_bytes (config shm))) :: u32)
      in if \<not> r \<ge> write_offset h ! i
         then shm\<lparr>header := h\<lparr>read_offset := (read_offset h)[i := r]\<rparr>\<rparr>
         else shm\<lparr>header := h\<lparr>read_offset := (read_offset h)[i := 0],
             write_offset := (write_offset h)[i := 0], read_buf_idx := of_nat (next_buf i)\<rparr>\<rparr>)"

definition float_max :: "c_float \<Rightarrow> c_float \<Rightarrow> c_float" where
  "float_max a b = (if float_less b a then a else b)"

definition float_min :: "c_float \<Rightarrow> c_float \<Rightarrow> c_float" where
  "float_min a b = (if float_less a b then a else b)"

definition cras_shm_set_volume_scaler :: "cras_audio_shm \<Rightarrow> c_float \<Rightarrow> cras_audio_shm" where
  "cras_shm_set_volume_scaler shm v =
     upd_header (\<lambda>h. h\<lparr>volume_scaler := float_min (float_max v (Fin 0)) (Fin 1)\<rparr>) shm"

definition cras_shm_get_volume_scaler :: "cras_audio_shm \<Rightarrow> c_float" where
  "cras_shm_get_volume_scaler shm = volume_scaler (header shm)"

definition cras_shm_set_mute :: "cras_audio_shm \<Rightarrow> u64 \<Rightarrow> cras_audio_shm" where
  "cras_shm_set_mute shm m = upd_header (\<lambda>h. h\<lparr>mute := (m \<noteq> 0)\<rparr>) shm"

definition cras_shm_get_mute :: "cras_audio_shm \<Rightarrow> bool" where
  "cras_shm_get_mute shm = mute (header shm)"

definition cras_shm_set_frame_bytes :: "cras_audio_shm \<Rightarrow> u32 \<Rightarrow> cras_audio_shm" where
  "cras_shm_set_frame_bytes shm fb =
     upd_header (\<lambda>h. h\<lparr>hdr_config := (hdr_config h)\<lparr>frame_bytes := fb\<rparr>\<rparr>)
       (shm\<lparr>config := (config shm)\<lparr>frame_bytes := fb\<rparr>\<rparr>)"

definition cras_shm_frame_bytes :: "cras_audio_shm \<Rightarrow> u32" where
  "cras_shm_frame_bytes shm = frame_bytes (config shm)"

definition cras_shm_set_callback_pending :: "cras_audio_shm \<Rightarrow> int \<Rightarrow> cras_audio_shm" where
  "cras_shm_set_callback_pending shm pending =
     upd_header (\<lambda>h. h\<lparr>callback_pending := (pending \<noteq> 0)\<rparr>) shm"

definition cras_shm_callback_pending :: "cras_audio_shm \<Rightarrow> bool" where
  "cras_shm_callback_pending shm = callback_pending (header shm)"

definition cras_shm_set_buffer_offset :: "cras_audio_shm \<Rightarrow> nat \<Rightarrow> u32 \<Rightarrow> cras_audio_shm" where
  "cras_shm_set_buffer_offset shm buf_idx offs =
     upd_header (\<lambda>h. h\<lparr>buffer_offset := (buffer_offset h)[buf_idx := ucast offs]\<rparr>) shm"

definition cras_shm_set_used_size :: "cras_audio_shm \<Rightarrow> u32 \<Rightarrow> cras_audio_shm" where
  "cras_shm_set_used_size shm sz =
     (let shm1 = upd_header (\<lambda>h. h\<lparr>hdr_config := (hdr_config h)\<lparr>used_size := sz\<rparr>\<rparr>)
            (shm\<lparr>config := (config shm)\<lparr>used_size := sz\<rparr>\<rparr>)
      in fold (\<lambda>i s. cras_shm_set_buffer_offset s i (of_nat i * sz))
           [0..<CRAS_NUM_SHM_BUFFERS] shm1)"

definition cras_shm_used_size :: "cras_audio_shm \<Rightarrow> u32" where
  "cras_shm_used_size shm = used_size (config shm)"

definition cras_shm_used_frames :: "cras_audio_shm \<Rightarrow> u32" where
  "cras_shm_used_frames shm = used_size (config shm) div frame_bytes (config shm)"

definition cras_shm_samples_size :: "cras_audio_shm \<Rightarrow> u64" where
  "cras_shm_samples_size shm = samples_length shm"

definition cras_shm_num_overruns :: "cras_audio_shm \<Rightarrow> u32" where
  "cras_shm_num_overruns shm = num_overruns (header shm)"

definition cras_shm_copy_shared_config :: "cras_audio_shm \<Rightarrow> cras_audio_shm" where
  "cras_shm_copy_shared_config shm = shm\<lparr>config := hdr_config (header shm)\<rparr>"

section \<open>Reads stay inside the samples area, whatever the header holds\<close>

text \<open>The only trusted facts: the length of the samples area, the server's own configuration, and
  that their sum is below \<open>2 ^ 32\<close>, so that the 32-bit sums in the checks do not wrap.\<close>

definition shm_sized :: "cras_audio_shm \<Rightarrow> bool" where
  "shm_sized shm \<longleftrightarrow> length (samples shm) = unat (samples_length shm) \<and>
     unat (samples_length shm) + unat (used_size (config shm)) < 2 ^ 32 \<and>
     0 < unat (frame_bytes (config shm))"

lemma checked_buffer_offset_nat:
  "unat (cras_shm_get_checked_buffer_offset shm i) =
    min (unat (ucast (buffer_offset (header shm) ! i) :: u32)) (unat (samples_length shm))"
proof -
  let ?b = "ucast (buffer_offset (header shm) ! i) :: u32"
  have "unat (min (ucast ?b) (samples_length shm) :: u64) < 2 ^ 32"
    by (simp add: min_less_iff_disj)
  then show ?thesis
    by (simp add: cras_shm_get_checked_buffer_offset_def unat_ucast_u32_u64)
qed

lemma checked_write_offset_safe:
  assumes "shm_sized shm"
  shows "unat (cras_shm_get_checked_buffer_offset shm i) +
    unat (cras_shm_get_checked_write_offset shm i) \<le> unat (samples_length shm)"
proof -
  let ?b = "cras_shm_get_checked_buffer_offset shm i"
  let ?w = "min (write_offset (header shm) ! i) (used_size (config shm))"
  have lim: "unat (samples_length shm) + unat (used_size (config shm)) < 4294967296"
    using assms by (simp add: shm_sized_def)
  have b: "unat ?b \<le> unat (samples_length shm)"
    by (simp add: checked_buffer_offset_nat)
  have sum: "unat (?b + ?w) = unat ?b + unat ?w"
  proof -
    have "unat ?w \<le> unat (used_size (config shm))" by simp
    then have "unat ?b + unat ?w < 4294967296"
      using b lim by linarith
    then show ?thesis
      by (intro unat_add_small) (simp del: unat_min)
  qed
  have "unat (samples_length shm - ucast ?b) = unat (samples_length shm) - unat ?b"
    using b by (subst unat_sub) (simp_all add: word_le_nat_alt)
  then have "unat (ucast (samples_length shm - ucast ?b) :: u32) =
      unat (samples_length shm) - unat ?b"
    using lim by (simp add: unat_ucast_u32_u64)
  with b sum show ?thesis
    by (auto simp: cras_shm_get_checked_write_offset_def Let_def word_less_nat_alt)
qed

lemma checked_read_offset_safe:
  assumes "shm_sized shm"
  shows "unat (cras_shm_get_checked_buffer_offset shm i) +
    unat (cras_shm_get_checked_read_offset shm i) \<le> unat (samples_length shm)"
proof -
  let ?b = "cras_shm_get_checked_buffer_offset shm i"
  let ?r = "read_offset (header shm) ! i"
  have b: "unat ?b \<le> unat (samples_length shm)"
    by (simp add: checked_buffer_offset_nat)
  have "unat ?r \<le> unat (used_size (config shm)) \<Longrightarrow> unat (?b + ?r) = unat ?b + unat ?r"
    using assms b by (intro unat_add_small) (simp add: shm_sized_def)
  with b show ?thesis
    by (auto simp: cras_shm_get_checked_read_offset_def Let_def word_less_nat_alt)
qed

lemma buff_for_idx_small:
  assumes "i < 2"
  shows "cras_shm_buff_for_idx shm (of_nat i) = unat (cras_shm_get_checked_buffer_offset shm i)"
proof -
  have "i = 0 \<or> i = 1" using assms by linarith
  then show ?thesis
    by (auto simp: cras_shm_buff_for_idx_def)
qed

lemma masked_less_2 [simp]: "unat (x AND (1 :: u32)) < 2"
  by (simp add: and_one_eq unsigned_or_eq mod_2_eq_odd)

lemma next_buf_less_2 [simp]: "next_buf i < 2"
  by (simp add: next_buf_def)

lemma readable_frames_cases:
  assumes "cras_shm_get_readable_frames shm offs = (Some p, n)"
  obtains i f where "i < 2" "f < cras_shm_get_checked_write_offset shm i"
    "p = cras_shm_buff_for_idx shm (of_nat i) + unat f"
    "n = ucast ((cras_shm_get_checked_write_offset shm i - f) div frame_bytes (config shm))"
proof -
  let ?i = "read_idx_masked shm"
  let ?w = "cras_shm_get_checked_write_offset shm ?i"
  let ?f = "ucast (ucast (cras_shm_get_checked_read_offset shm ?i) +
    offs * ucast (frame_bytes (config shm))) :: u32"
  show ?thesis
  proof (cases "?f \<ge> ?w")
    case True
    with assms show ?thesis
      by (intro that [of "next_buf ?i" "?f - ?w"])
        (auto simp: cras_shm_get_readable_frames_def Let_def not_le split: if_splits)
  next
    case False
    with assms show ?thesis
      by (intro that [of ?i ?f])
        (auto simp: cras_shm_get_readable_frames_def Let_def not_le split: if_splits)
  qed
qed

text \<open>Claim C6.  Whatever the client writes into the shared header, the frames that
  \<^verbatim>\<open>cras_shm_get_readable_frames\<close> hands out lie inside the mapped samples area.\<close>

theorem shm_readable_frames_safe:
  assumes "shm_sized shm" "cras_shm_get_readable_frames shm offs = (Some p, n)"
  shows "p + unat n * unat (frame_bytes (config shm)) \<le> length (samples shm)"
proof -
  let ?fb = "frame_bytes (config shm)"
  obtain i f w where i: "i < 2" and w: "w = cras_shm_get_checked_write_offset shm i"
    and f: "f < w" and p: "p = cras_shm_buff_for_idx shm (of_nat i) + unat f"
    and n: "n = ucast ((w - f) div ?fb)"
    using assms(2) by (metis readable_frames_cases)
  have "unat n * unat ?fb \<le> unat (w - f)"
    by (simp add: n unat_div)
  also have "\<dots> = unat w - unat f"
    using f by (subst unat_sub) (simp_all add: word_le_nat_alt word_less_nat_alt)
  finally have "p + unat n * unat ?fb \<le> unat (cras_shm_get_checked_buffer_offset shm i) + unat w"
    using f by (simp add: p buff_for_idx_small [OF i] word_less_nat_alt)
  also have "\<dots> \<le> unat (samples_length shm)"
    unfolding w by (rule checked_write_offset_safe [OF assms(1)])
  finally show ?thesis
    using assms(1) by (simp add: shm_sized_def)
qed

section \<open>The double buffer as a queue\<close>

abbreviation rdo :: "cras_audio_shm \<Rightarrow> nat \<Rightarrow> nat" where
  "rdo shm i \<equiv> unat (read_offset (header shm) ! i)"

abbreviation wro :: "cras_audio_shm \<Rightarrow> nat \<Rightarrow> nat" where
  "wro shm i \<equiv> unat (write_offset (header shm) ! i)"

abbreviation bfo :: "cras_audio_shm \<Rightarrow> nat \<Rightarrow> nat" where
  "bfo shm i \<equiv> unat (buffer_offset (header shm) ! i)"

abbreviation usz :: "cras_audio_shm \<Rightarrow> nat" where
  "usz shm \<equiv> unat (used_size (config shm))"

abbreviation fby :: "cras_audio_shm \<Rightarrow> nat" where
  "fby shm \<equiv> unat (frame_bytes (config shm))"

definition ridx :: "cras_audio_shm \<Rightarrow> nat" where
  "ridx shm = unat (read_buf_idx (header shm))"

definition widx :: "cras_audio_shm \<Rightarrow> nat" where
  "widx shm = unat (write_buf_idx (header shm))"

text \<open>The samples that wait in buffer \<open>i\<close>, and all that wait, in the order they are read.\<close>

definition buf_data :: "cras_audio_shm \<Rightarrow> nat \<Rightarrow> u8 list" where
  "buf_data shm i = take (wro shm i - rdo shm i) (drop (bfo shm i + rdo shm i) (samples shm))"

definition shm_queue :: "cras_audio_shm \<Rightarrow> u8 list" where
  "shm_queue shm = buf_data shm (ridx shm) @ buf_data shm (next_buf (ridx shm))"

text \<open>Layout: two arrays of two entries each, and two disjoint buffers inside the samples area.\<close>

definition shm_layout :: "cras_audio_shm \<Rightarrow> bool" where
  "shm_layout shm \<longleftrightarrow>
     length (read_offset (header shm)) = 2 \<and> length (write_offset (header shm)) = 2 \<and>
     length (buffer_offset (header shm)) = 2 \<and> length (write_in_progress (header shm)) = 2 \<and>
     ridx shm < 2 \<and> widx shm < 2 \<and> 0 < fby shm \<and>
     length (samples shm) = unat (samples_length shm) \<and> unat (samples_length shm) < 2 ^ 31 \<and>
     bfo shm 0 + usz shm \<le> unat (samples_length shm) \<and>
     bfo shm 1 + usz shm \<le> unat (samples_length shm) \<and>
     (bfo shm 0 + usz shm \<le> bfo shm 1 \<or> bfo shm 1 + usz shm \<le> bfo shm 0)"

text \<open>Offsets: whole frames, read behind write, the buffer not being read is unread.\<close>

definition shm_offsets :: "cras_audio_shm \<Rightarrow> bool" where
  "shm_offsets shm \<longleftrightarrow>
     (\<forall>i < 2. fby shm dvd rdo shm i \<and> fby shm dvd wro shm i \<and> rdo shm i \<le> wro shm i \<and>
        wro shm i \<le> usz shm) \<and>
     rdo shm (next_buf (ridx shm)) = 0"

text \<open>Turns: writer and reader are at the same buffer exactly when both buffers are empty or
  both are full; otherwise the reader's buffer is the only one in use.\<close>

definition shm_turns :: "cras_audio_shm \<Rightarrow> bool" where
  "shm_turns shm \<longleftrightarrow>
     (if widx shm = ridx shm
      then wro shm (ridx shm) = 0 \<longleftrightarrow> wro shm (next_buf (ridx shm)) = 0
      else 0 < wro shm (ridx shm) \<and> wro shm (next_buf (ridx shm)) = 0)"

definition shm_inv :: "cras_audio_shm \<Rightarrow> bool" where
  "shm_inv shm \<longleftrightarrow> shm_layout shm \<and> shm_offsets shm \<and> shm_turns shm"

lemma next_buf_simps [simp]:
  "i < 2 \<Longrightarrow> next_buf i \<noteq> i" "i < 2 \<Longrightarrow> i \<noteq> next_buf i" "i < 2 \<Longrightarrow> next_buf (next_buf i) = i"
  "next_buf 0 = 1" "next_buf (Suc 0) = 0"
  by (auto simp: next_buf_def mod_Suc)

lemma less_2_cases_nat: "i < 2 \<Longrightarrow> i = 0 \<or> i = (1 :: nat)"
  by linarith

lemma unat_of_nat_next_buf [simp]: "unat (of_nat (next_buf i) :: u32) = next_buf i"
  by (intro unat_of_nat_u32) (rule less_trans [OF next_buf_less_2], simp)

lemma masked_id: "unat x < 2 \<Longrightarrow> unat (x AND (1 :: u32)) = unat x"
proof -
  assume "unat x < 2"
  then have "x = 0 \<or> x = 1"
    using less_2_cases_nat [of "unat x"] by (auto simp: word_unat_eq_iff)
  then show ?thesis by auto
qed

lemma layoutD:
  assumes "shm_layout shm"
  shows "length (read_offset (header shm)) = 2" "length (write_offset (header shm)) = 2"
    "length (buffer_offset (header shm)) = 2" "ridx shm < 2" "widx shm < 2" "0 < fby shm"
    "read_idx_masked shm = ridx shm" "write_idx_masked shm = widx shm"
    "i < 2 \<Longrightarrow> bfo shm i + usz shm \<le> length (samples shm)" "length (samples shm) < 2147483648"
    "shm_sized shm"
proof -
  show "i < 2 \<Longrightarrow> bfo shm i + usz shm \<le> length (samples shm)"
    using assms less_2_cases_nat [of i] by (auto simp: shm_layout_def)
qed (use assms in \<open>auto simp: shm_layout_def ridx_def widx_def masked_id shm_sized_def\<close>)

lemma offsetsD:
  assumes "shm_offsets shm" "i < 2"
  shows "fby shm dvd rdo shm i" "fby shm dvd wro shm i" "rdo shm i \<le> wro shm i"
    "wro shm i \<le> usz shm"
  using assms by (auto simp: shm_offsets_def)

lemma length_buf_data:
  "shm_layout shm \<Longrightarrow> shm_offsets shm \<Longrightarrow> i < 2 \<Longrightarrow>
    length (buf_data shm i) = wro shm i - rdo shm i"
  using layoutD(9) [of shm i] offsetsD [of shm i] by (simp add: buf_data_def)

subsection \<open>Reading\<close>

text \<open>What \<^verbatim>\<open>cras_shm_buffer_read\<close> does to the indices, on natural numbers.\<close>

lemma frames_times_bytes:
  fixes frames :: u64 and fb r :: u32
  assumes "unat r + unat frames * unat fb < 2 ^ 32"
  shows "unat (ucast (ucast r + frames * ucast fb) :: u32) = unat r + unat frames * unat fb"
proof -
  have "unat (frames * ucast fb) = unat frames * unat fb"
    using assms by (subst unat_mult_small) simp_all
  with assms unat_ucast_add [of r "frames * ucast fb"] show ?thesis by simp
qed

definition after_read :: "cras_audio_shm \<Rightarrow> cras_audio_shm \<Rightarrow> nat \<Rightarrow> nat \<Rightarrow> nat \<Rightarrow> nat \<Rightarrow> nat \<Rightarrow> bool" where
  "after_read shm shm' k ri wi rj wj \<longleftrightarrow>
     ridx shm' = k \<and> rdo shm' (ridx shm) = ri \<and> wro shm' (ridx shm) = wi \<and>
     rdo shm' (next_buf (ridx shm)) = rj \<and> wro shm' (next_buf (ridx shm)) = wj \<and>
     samples shm' = samples shm \<and> samples_length shm' = samples_length shm \<and>
     config shm' = config shm \<and> buffer_offset (header shm') = buffer_offset (header shm) \<and>
     write_buf_idx (header shm') = write_buf_idx (header shm) \<and>
     write_in_progress (header shm') = write_in_progress (header shm) \<and>
     length (read_offset (header shm')) = 2 \<and> length (write_offset (header shm')) = 2"

lemma buffer_read_nat:
  assumes lay: "shm_layout shm" and off: "shm_offsets shm" and nz: "frames \<noteq> 0"
    and d: "d = unat frames * fby shm"
    and le: "d \<le> (wro shm i - rdo shm i) + wro shm (next_buf i)" and i: "i = ridx shm"
  shows "after_read shm (cras_shm_buffer_read shm frames)
    (if d < wro shm i - rdo shm i then i
     else if d - (wro shm i - rdo shm i) < wro shm (next_buf i) then next_buf i
     else if d - (wro shm i - rdo shm i) \<noteq> 0 then i else next_buf i)
    (if d < wro shm i - rdo shm i then rdo shm i + d else 0)
    (if d < wro shm i - rdo shm i then wro shm i else 0)
    (if d < wro shm i - rdo shm i then 0
     else if d - (wro shm i - rdo shm i) < wro shm (next_buf i)
       then d - (wro shm i - rdo shm i) else 0)
    (if d < wro shm i - rdo shm i then wro shm (next_buf i)
     else if d - (wro shm i - rdo shm i) < wro shm (next_buf i) then wro shm (next_buf i) else 0)"
proof -
  note L = layoutD [OF lay]
  let ?j = "next_buf i"
  let ?r = "ucast (ucast (read_offset (header shm) ! i) + frames * ucast (frame_bytes (config shm))) :: u32"
  have i2: "i < 2" using L(4) i by simp
  have oi: "rdo shm i \<le> wro shm i" "wro shm i \<le> usz shm" "wro shm ?j \<le> usz shm" "rdo shm ?j = 0"
    using offsetsD [OF off i2] offsetsD [OF off next_buf_less_2] off i by (auto simp: shm_offsets_def)
  have "usz shm < 2147483648" using L(9) [OF i2] L(10) by linarith
  then have r: "unat ?r = rdo shm i + d"
    using oi le unfolding d by (intro frames_times_bytes) simp
  have mi: "read_idx_masked shm = i" and ri: "unat (read_buf_idx (header shm)) = i"
    using L(7) i by (simp_all add: ridx_def)
  show ?thesis
  proof (cases "d < wro shm i - rdo shm i")
    case True
    then have "\<not> write_offset (header shm) ! i \<le> ?r"
      using r oi by (simp add: word_le_nat_alt)
    with True nz i2 L(1,2) r oi show ?thesis
      unfolding after_read_def cras_shm_buffer_read_def Let_def mi
      by (simp add: ridx_def ri)
  next
    case False
    then have ge: "write_offset (header shm) ! i \<le> ?r"
      using r oi by (simp add: word_le_nat_alt)
    define rem where "rem = (ucast (?r - write_offset (header shm) ! i) :: u64)"
    have rem: "unat rem = d - (wro shm i - rdo shm i)"
      using ge r oi False by (simp add: rem_def unat_sub)
    have remu: "unat (ucast rem :: u32) = unat rem"
      by (simp add: rem_def)
    have rem0: "rem \<noteq> 0 \<longleftrightarrow> unat rem \<noteq> 0" by (simp add: unat_eq_0)
    have cmp: "rem < ucast (write_offset (header shm) ! ?j) \<longleftrightarrow> unat rem < wro shm ?j"
      by (simp add: word_less_nat_alt)
    have ui: "unat (of_nat i :: u32) = i"
      using i2 by (intro unat_of_nat_u32) simp
    from False ge nz i2 L(1,2) oi remu cmp rem0 ui show ?thesis
      unfolding after_read_def cras_shm_buffer_read_def Let_def mi rem [symmetric]
      by (simp add: ridx_def ri flip: rem_def)
  qed
qed

lemma after_read_inv:
  assumes lay: "shm_layout shm" and ar: "after_read shm shm' k ri wi rj wj"
    and i: "i = ridx shm" and k: "k = i \<or> k = next_buf i"
    and d: "fby shm dvd ri" "fby shm dvd wi" "fby shm dvd rj" "fby shm dvd wj"
    and o: "ri \<le> wi" "wi \<le> usz shm" "rj \<le> wj" "wj \<le> usz shm"
    and z: "k = i \<Longrightarrow> rj = 0" "k = next_buf i \<Longrightarrow> ri = 0"
    and t: "if widx shm = k then (wi = 0 \<longleftrightarrow> wj = 0)
      else if k = i then 0 < wi \<and> wj = 0 else 0 < wj \<and> wi = 0"
  shows "shm_inv shm'"
proof -
  have i2: "i < 2" using lay i by (simp add: shm_layout_def)
  have cases: "m = i \<or> m = next_buf i" if "m < 2" for m
    using i2 that less_2_cases_nat [of i] less_2_cases_nat [of m] by auto
  have w: "widx shm' = widx shm" using ar by (simp add: after_read_def widx_def)
  have k2: "k < 2" using k i2 by auto
  have "shm_layout shm'"
    using lay ar k2 w unfolding shm_layout_def after_read_def by simp
  moreover have "shm_offsets shm'"
    unfolding shm_offsets_def
  proof (intro conjI allI impI)
    fix m :: nat
    assume "m < 2"
    then show "fby shm' dvd rdo shm' m" "fby shm' dvd wro shm' m" "rdo shm' m \<le> wro shm' m"
      "wro shm' m \<le> usz shm'"
      using cases [of m] ar d o i by (auto simp: after_read_def)
  qed (use k z ar i i2 in \<open>auto simp: after_read_def\<close>)
  moreover have "shm_turns shm'"
    using k t ar i i2 by (auto simp: shm_turns_def after_read_def w split: if_splits)
  ultimately show ?thesis by (simp add: shm_inv_def)
qed

lemma after_read_data:
  assumes "after_read shm shm' k ri wi rj wj" "i = ridx shm"
  shows "buf_data shm' i = take (wi - ri) (drop (bfo shm i + ri) (samples shm))"
    "buf_data shm' (next_buf i) = take (wj - rj) (drop (bfo shm (next_buf i) + rj) (samples shm))"
    "ridx shm' = k"
  using assms by (simp_all add: after_read_def buf_data_def)

lemma buffer_read_inv_queue:
  assumes inv: "shm_inv shm" and le: "unat frames * fby shm \<le> length (shm_queue shm)"
  shows "shm_inv (cras_shm_buffer_read shm frames) \<and>
    shm_queue (cras_shm_buffer_read shm frames) = drop (unat frames * fby shm) (shm_queue shm)"
proof (cases "frames = 0")
  case True
  with inv show ?thesis by (simp add: cras_shm_buffer_read_def)
next
  case nz: False
  define i where "i = ridx shm"
  define d where "d = unat frames * fby shm"
  let ?j = "next_buf i" and ?s = "cras_shm_buffer_read shm frames"
  let ?a = "wro shm i - rdo shm i"
  have lay: "shm_layout shm" and off: "shm_offsets shm" and trn: "shm_turns shm"
    using inv by (simp_all add: shm_inv_def)
  have i2: "i < 2" using layoutD(4) [OF lay] by (simp add: i_def)
  have rj: "rdo shm ?j = 0" using off by (simp add: shm_offsets_def i_def)
  have ld: "length (buf_data shm i) = ?a" "length (buf_data shm ?j) = wro shm ?j"
    using length_buf_data [OF lay off i2] length_buf_data [OF lay off, of ?j] rj by simp_all
  have dr: "drop m (buf_data shm i) = take (?a - m) (drop (bfo shm i + (rdo shm i + m)) (samples shm))"
    "drop m (buf_data shm ?j) = take (wro shm ?j - m) (drop (bfo shm ?j + m) (samples shm))"
    "buf_data shm ?j = take (wro shm ?j) (drop (bfo shm ?j) (samples shm))" for m
    using rj by (simp_all add: buf_data_def drop_take ac_simps)
  have le': "d \<le> ?a + wro shm ?j"
    using le ld by (simp add: shm_queue_def d_def i_def)
  have q: "shm_queue shm = buf_data shm i @ buf_data shm ?j" by (simp add: shm_queue_def i_def)
  have D: "fby shm dvd rdo shm i" "fby shm dvd wro shm i" "fby shm dvd wro shm ?j" "fby shm dvd d"
    "rdo shm i \<le> wro shm i" "wro shm i \<le> usz shm" "wro shm ?j \<le> usz shm"
    using offsetsD [OF off i2] offsetsD [OF off, of ?j] by (simp_all add: d_def)
  have Da: "fby shm dvd d - ?a" using D by (simp add: dvd_diff_nat)
  have d0: "0 < d" using nz layoutD(6) [OF lay] by (simp add: d_def unat_gt_0)
  note R = buffer_read_nat [OF lay off nz d_def le' i_def]
  have w2: "widx shm = i \<or> widx shm = ?j"
    using i2 layoutD(5) [OF lay] less_2_cases_nat [of i] less_2_cases_nat [of "widx shm"] by auto
  consider "d < ?a" | "?a \<le> d" "d - ?a < wro shm ?j" | "?a \<le> d" "d - ?a = wro shm ?j" "0 < wro shm ?j"
    | "d = ?a" "wro shm ?j = 0"
    using le' by linarith
  then show ?thesis
  proof cases
    case 1
    then have A: "after_read shm ?s i (rdo shm i + d) (wro shm i) 0 (wro shm ?j)" using R by simp
    show ?thesis
    proof
      show "shm_inv ?s"
        by (rule after_read_inv [OF lay A i_def])
          (use 1 D trn w2 i2 in \<open>auto simp: shm_turns_def simp flip: i_def split: if_splits\<close>)
      show "shm_queue ?s = drop (unat frames * fby shm) (shm_queue shm)"
        using 1 ld after_read_data [OF A i_def] i2
        by (simp add: q drop_append dr(1) flip: d_def) (simp add: shm_queue_def dr(3))
    qed
  next
    case 2
    then have A: "after_read shm ?s ?j 0 0 (d - ?a) (wro shm ?j)" using R by simp
    show ?thesis
    proof
      show "shm_inv ?s"
        by (rule after_read_inv [OF lay A i_def])
          (use 2 D Da trn w2 i2 in \<open>auto simp: shm_turns_def simp flip: i_def split: if_splits\<close>)
      show "shm_queue ?s = drop (unat frames * fby shm) (shm_queue shm)"
        using 2 ld after_read_data [OF A i_def] i2
        by (simp add: q drop_append dr(2) flip: d_def) (simp add: shm_queue_def)
    qed
  next
    case 3
    then have A: "after_read shm ?s i 0 0 0 0" using R by simp
    show ?thesis
    proof
      show "shm_inv ?s"
        by (rule after_read_inv [OF lay A i_def])
          (use 3 D trn w2 i2 in \<open>auto simp: shm_turns_def simp flip: i_def split: if_splits\<close>)
      show "shm_queue ?s = drop (unat frames * fby shm) (shm_queue shm)"
        using 3 ld after_read_data [OF A i_def] by (simp add: q flip: d_def) (simp add: shm_queue_def)
    qed
  next
    case 4
    then have A: "after_read shm ?s ?j 0 0 0 0" using R d0 by simp
    show ?thesis
    proof
      show "shm_inv ?s"
        by (rule after_read_inv [OF lay A i_def])
          (use 4 d0 D trn w2 i2 in \<open>auto simp: shm_turns_def simp flip: i_def split: if_splits\<close>)
      show "shm_queue ?s = drop (unat frames * fby shm) (shm_queue shm)"
        using 4 ld i2 after_read_data [OF A i_def] by (simp add: q flip: d_def) (simp add: shm_queue_def)
    qed
  qed
qed

subsection \<open>Looking at the queue\<close>

lemma checked_offsets_trusted:
  assumes lay: "shm_layout shm" and off: "shm_offsets shm" and m: "m < 2"
  shows "unat (cras_shm_get_checked_buffer_offset shm m) = bfo shm m"
    "cras_shm_get_checked_write_offset shm m = write_offset (header shm) ! m"
    "cras_shm_get_checked_read_offset shm m = read_offset (header shm) ! m"
    "cras_shm_buff_for_idx shm (of_nat m) = bfo shm m"
proof -
  note L = layoutD [OF lay] and O = offsetsD [OF off m]
  have len: "length (samples shm) = unat (samples_length shm)"
    using lay by (simp add: shm_layout_def)
  have b: "bfo shm m + usz shm \<le> unat (samples_length shm)" "unat (samples_length shm) < 2147483648"
    using L(9) [OF m] L(10) len by simp_all
  show bo: "unat (cras_shm_get_checked_buffer_offset shm m) = bfo shm m"
    using b by (simp add: checked_buffer_offset_nat unat_ucast_u32_u64)
  then show "cras_shm_buff_for_idx shm (of_nat m) = bfo shm m"
    by (simp add: buff_for_idx_small [OF m])
  have add: "unat (cras_shm_get_checked_buffer_offset shm m + x) = bfo shm m + unat x"
    if "unat x \<le> usz shm" for x
    using b that by (subst unat_add_small) (simp_all add: bo)
  have mw: "min (write_offset (header shm) ! m) (used_size (config shm)) = write_offset (header shm) ! m"
    using O(4) by (simp add: min_def word_le_nat_alt)
  show "cras_shm_get_checked_write_offset shm m = write_offset (header shm) ! m"
    using b O(4) add [of "write_offset (header shm) ! m"]
    by (simp add: cras_shm_get_checked_write_offset_def Let_def mw word_less_nat_alt)
  show "cras_shm_get_checked_read_offset shm m = read_offset (header shm) ! m"
    using b O(3,4) add [of "read_offset (header shm) ! m"]
    by (simp add: cras_shm_get_checked_read_offset_def Let_def word_less_nat_alt)
qed

lemma readable_frames_nat:
  assumes lay: "shm_layout shm" and off: "shm_offsets shm"
    and i: "i = ridx shm" and d: "d = unat offs * fby shm" and lim: "d < 2147483648"
  defines "a \<equiv> wro shm i - rdo shm i" and "j \<equiv> next_buf i"
  shows "(case cras_shm_get_readable_frames shm offs of
      (None, n) \<Rightarrow> a + wro shm j \<le> d \<and> n = 0
    | (Some p, n) \<Rightarrow>
        d < a \<and> p = bfo shm i + (rdo shm i + d) \<and> unat n = (a - d) div fby shm \<or>
        a \<le> d \<and> d < a + wro shm j \<and> p = bfo shm j + (d - a) \<and>
          unat n = (wro shm j - (d - a)) div fby shm)"
proof -
  note L = layoutD [OF lay]
  let ?f = "ucast (ucast (read_offset (header shm) ! i) + offs * ucast (frame_bytes (config shm))) :: u32"
  have i2: "i < 2" and j2: "j < 2" using L(4) i by (simp_all add: j_def)
  note T = checked_offsets_trusted [OF lay off i2] checked_offsets_trusted [OF lay off j2]
  have oi: "rdo shm i \<le> wro shm i" "wro shm i \<le> usz shm"
    using offsetsD [OF off i2] by auto
  have "usz shm < 2147483648" using L(9) [OF i2] L(10) by linarith
  then have f: "unat ?f = rdo shm i + d"
    using oi lim unfolding d by (intro frames_times_bytes) simp
  have mi: "read_idx_masked shm = i" using L(7) i by simp
  have ge: "?f \<ge> write_offset (header shm) ! i \<longleftrightarrow> a \<le> d"
    using f oi by (simp add: word_le_nat_alt a_def) linarith
  show ?thesis
  proof (cases "a \<le> d")
    case True
    then have s: "unat (?f - write_offset (header shm) ! i) = d - a"
      using ge f oi by (simp add: unat_sub a_def)
    have ge': "?f - write_offset (header shm) ! i \<ge> write_offset (header shm) ! j \<longleftrightarrow>
        a + wro shm j \<le> d"
      using s True by (simp only: word_le_nat_alt) linarith
    have "\<not> a + wro shm j \<le> d \<Longrightarrow>
      unat (write_offset (header shm) ! j - (?f - write_offset (header shm) ! i)) = wro shm j - (d - a)"
      using s ge' by (subst unat_sub) (simp_all add: not_le order_less_imp_le)
    with True ge ge' s show ?thesis
      unfolding cras_shm_get_readable_frames_def Let_def mi
      by (simp add: T unat_div flip: j_def)
  next
    case False
    then have "unat (write_offset (header shm) ! i - ?f) = a - d"
      using ge f oi by (subst unat_sub) (simp_all add: a_def not_le order_less_imp_le)
    with False ge f show ?thesis
      unfolding cras_shm_get_readable_frames_def Let_def mi
      by (simp add: T unat_div flip: j_def)
  qed
qed

text \<open>A reader that wants \<open>n\<close> frames from offset \<open>offs\<close> on asks again after every run of contiguous
  frames, the way the mixing loop of \<^verbatim>\<open>dev_stream_mix\<close> does; the buffers give at most two runs.\<close>

fun shm_peek :: "nat \<Rightarrow> cras_audio_shm \<Rightarrow> u64 \<Rightarrow> u64 \<Rightarrow> u8 list" where
  "shm_peek 0 shm offs n = []"
| "shm_peek (Suc k) shm offs n =
     (if n = 0 then [] else
      case cras_shm_get_readable_frames shm offs of
        (None, _) \<Rightarrow> []
      | (Some p, m) \<Rightarrow> let m' = min m n
          in take (unat m' * fby shm) (drop p (samples shm)) @ shm_peek k shm (offs + m') (n - m'))"

lemma length_shm_queue:
  assumes "shm_inv shm" "i = ridx shm"
  shows "length (shm_queue shm) = (wro shm i - rdo shm i) + wro shm (next_buf i)"
    "fby shm dvd wro shm i - rdo shm i" "fby shm dvd wro shm (next_buf i)"
proof -
  have I: "shm_layout shm" "shm_offsets shm" "i < 2" "rdo shm (next_buf i) = 0"
    using assms layoutD(4) [of shm] by (auto simp: shm_inv_def shm_offsets_def)
  then show "length (shm_queue shm) = (wro shm i - rdo shm i) + wro shm (next_buf i)"
    using assms(2) by (simp add: shm_queue_def length_buf_data)
  show "fby shm dvd wro shm i - rdo shm i" "fby shm dvd wro shm (next_buf i)"
    using offsetsD [OF I(2,3)] offsetsD [OF I(2), of "next_buf i"] by (simp_all add: dvd_diff_nat)
qed

lemma shm_queue_bound:
  assumes "shm_inv shm"
  shows "length (shm_queue shm) < 2147483648"
proof -
  have I: "shm_layout shm" "shm_offsets shm" "ridx shm < 2"
    using assms layoutD(4) [of shm] by (auto simp: shm_inv_def)
  have u: "wro shm (ridx shm) \<le> usz shm" "wro shm (next_buf (ridx shm)) \<le> usz shm"
    using offsetsD(4) [OF I(2)] I(3) by auto
  have "usz shm + usz shm \<le> length (samples shm)"
    using I(1) by (auto simp: shm_layout_def)
  with u length_shm_queue(1) [OF assms refl] layoutD(10) [OF I(1)] show ?thesis by linarith
qed

lemma readable_frames_queue:
  assumes inv: "shm_inv shm" and lt: "unat offs * fby shm < length (shm_queue shm)"
  obtains p n where "cras_shm_get_readable_frames shm offs = (Some p, n)" "n \<noteq> 0"
    "p + unat n * fby shm \<le> length (samples shm)"
    "unat offs * fby shm + unat n * fby shm \<le> length (shm_queue shm)"
    "take (unat n * fby shm) (drop p (samples shm)) =
     take (unat n * fby shm) (drop (unat offs * fby shm) (shm_queue shm))"
proof -
  define i where "i = ridx shm"
  define d where "d = unat offs * fby shm"
  let ?j = "next_buf i" and ?a = "wro shm i - rdo shm i"
  have I: "shm_layout shm" "shm_offsets shm" using inv by (simp_all add: shm_inv_def)
  note L = layoutD [OF I(1)]
  have i2: "i < 2" using L(4) by (simp add: i_def)
  have rj: "rdo shm ?j = 0" using I(2) by (simp add: shm_offsets_def i_def)
  note Q = length_shm_queue [OF inv i_def]
  have lim: "d < 2147483648" using shm_queue_bound [OF inv] lt by (simp add: d_def)
  have dd: "fby shm dvd d" by (simp add: d_def)
  have sp: "bfo shm i + wro shm i \<le> length (samples shm)"
    "bfo shm ?j + wro shm ?j \<le> length (samples shm)" "rdo shm i \<le> wro shm i"
    using L(9) [OF i2] L(9) [of ?j] offsetsD [OF I(2) i2] offsetsD [OF I(2), of ?j] by auto
  have lb: "length (buf_data shm i) = ?a" "length (buf_data shm ?j) = wro shm ?j"
    using length_buf_data [OF I i2] length_buf_data [OF I, of ?j] rj by simp_all
  have q: "shm_queue shm = buf_data shm i @ buf_data shm ?j" by (simp add: shm_queue_def i_def)
  obtain p n where R: "cras_shm_get_readable_frames shm offs = (Some p, n)"
    and C: "d < ?a \<and> p = bfo shm i + (rdo shm i + d) \<and> unat n = (?a - d) div fby shm \<or>
        ?a \<le> d \<and> d < ?a + wro shm ?j \<and> p = bfo shm ?j + (d - ?a) \<and>
          unat n = (wro shm ?j - (d - ?a)) div fby shm"
    using readable_frames_nat [OF I i_def d_def lim] lt Q(1)
    by (auto simp flip: d_def split: prod.splits option.splits)
  have "n \<noteq> 0 \<and> p + unat n * fby shm \<le> length (samples shm) \<and>
    d + unat n * fby shm \<le> length (shm_queue shm) \<and>
    take (unat n * fby shm) (drop p (samples shm)) = take (unat n * fby shm) (drop d (shm_queue shm))"
    using C
  proof
    assume 1: "d < ?a \<and> p = bfo shm i + (rdo shm i + d) \<and> unat n = (?a - d) div fby shm"
    then have n: "unat n * fby shm = ?a - d"
      using dvd_div_mult_self [OF dvd_diff_nat [OF Q(2) dd]] by simp
    have "n \<noteq> 0" using n 1 by auto
    moreover have "take (unat n * fby shm) (drop p (samples shm)) =
      take (unat n * fby shm) (drop d (shm_queue shm))"
      using 1 n lb by (simp add: q) (simp add: buf_data_def drop_take ac_simps)
    moreover have "p + unat n * fby shm \<le> length (samples shm)"
      "d + unat n * fby shm \<le> length (shm_queue shm)"
      unfolding n Q(1) using 1 sp by linarith+
    ultimately show ?thesis by blast
  next
    assume 2: "?a \<le> d \<and> d < ?a + wro shm ?j \<and> p = bfo shm ?j + (d - ?a) \<and>
          unat n = (wro shm ?j - (d - ?a)) div fby shm"
    then have n: "unat n * fby shm = wro shm ?j - (d - ?a)"
      using dvd_div_mult_self [OF dvd_diff_nat [OF Q(3) dvd_diff_nat [OF dd Q(2)]]] by simp
    have "n \<noteq> 0" using n 2 by auto
    moreover have "take (unat n * fby shm) (drop p (samples shm)) =
      take (unat n * fby shm) (drop d (shm_queue shm))"
      using 2 n lb rj by (simp add: q) (simp add: buf_data_def drop_take ac_simps)
    moreover have "p + unat n * fby shm \<le> length (samples shm)"
      "d + unat n * fby shm \<le> length (shm_queue shm)"
      unfolding n Q(1) using 2 sp by linarith+
    ultimately show ?thesis by blast
  qed
  then show ?thesis using that [OF R] unfolding d_def by blast
qed

text \<open>Every request that has frames left to look at gives at least one, so \<open>n\<close> requests suffice.\<close>

lemma shm_peek_queue:
  assumes inv: "shm_inv shm"
    and le: "unat offs * fby shm + unat n * fby shm \<le> length (shm_queue shm)" and k: "unat n \<le> k"
  shows "shm_peek k shm offs n = take (unat n * fby shm) (drop (unat offs * fby shm) (shm_queue shm))"
  using le k
proof (induction k arbitrary: offs n)
  case 0
  then show ?case by simp
next
  case (Suc k)
  let ?fb = "fby shm"
  have fb: "0 < ?fb" using layoutD(6) [of shm] inv by (simp add: shm_inv_def)
  show ?case
  proof (cases "n = 0")
    case True
    then show ?thesis by simp
  next
    case False
    then have "0 < unat n * ?fb"
      using fb by (simp add: unat_gt_0)
    then have lt: "unat offs * ?fb < length (shm_queue shm)"
      using Suc.prems(1) by linarith
    obtain p m where R: "cras_shm_get_readable_frames shm offs = (Some p, m)" "m \<noteq> 0"
      "unat offs * ?fb + unat m * ?fb \<le> length (shm_queue shm)"
      "take (unat m * ?fb) (drop p (samples shm)) =
       take (unat m * ?fb) (drop (unat offs * ?fb) (shm_queue shm))"
      using readable_frames_queue [OF inv lt] by metis
    define m' where "m' = min m n"
    have m': "unat m' \<le> unat m" "unat m' \<le> unat n" "0 < unat m'"
      using R(2) False by (auto simp: m'_def unat_gt_0)
    have "unat offs + unat n \<le> length (shm_queue shm)"
      using Suc.prems(1) fb by (metis add_mult_distrib le_trans mult.commute mult_le_mono1 mult_1 Suc_leI One_nat_def)
    then have so: "unat (offs + m') = unat offs + unat m'"
      using m'(2) shm_queue_bound [OF inv] by (intro unat_add_small) simp
    have sn: "unat (n - m') = unat n - unat m'"
      using m'(2) by (subst unat_sub) (simp_all add: word_le_nat_alt)
    have pre: "take (unat m' * ?fb) (drop p (samples shm)) =
        take (unat m' * ?fb) (drop (unat offs * ?fb) (shm_queue shm))"
      using arg_cong [OF R(4), of "take (unat m' * ?fb)"] m'(1) by (simp add: min_absorb1)
    have "unat (offs + m') * ?fb + unat (n - m') * ?fb = unat offs * ?fb + unat n * ?fb"
      using m'(2) by (simp add: so sn flip: add_mult_distrib)
    then have IH: "shm_peek k shm (offs + m') (n - m') =
        take (unat (n - m') * ?fb) (drop (unat (offs + m') * ?fb) (shm_queue shm))"
      using Suc.prems m' by (intro Suc.IH) (simp_all add: sn)
    have "unat n * ?fb = unat m' * ?fb + unat (n - m') * ?fb"
      using m'(2) by (simp add: sn flip: add_mult_distrib)
    then have rhs: "take (unat n * ?fb) (drop (unat offs * ?fb) (shm_queue shm)) =
        take (unat m' * ?fb) (drop (unat offs * ?fb) (shm_queue shm)) @
        take (unat (n - m') * ?fb) (drop (unat (offs + m') * ?fb) (shm_queue shm))"
      by (simp add: take_add add_mult_distrib add.commute so [unfolded add.commute [of offs]])
    have "shm_peek (Suc k) shm offs n =
        take (unat m' * ?fb) (drop p (samples shm)) @ shm_peek k shm (offs + m') (n - m')"
      using False R(1) by (simp add: Let_def m'_def)
    then show ?thesis
      unfolding IH pre rhs .
  qed
qed

subsection \<open>Writing\<close>

text \<open>A writer fills the buffer at \<^verbatim>\<open>cras_shm_get_write_buffer_base\<close> from its start and hands it over
  with \<^verbatim>\<open>cras_shm_buffer_written_start\<close>; it does so when a buffer is available, with whole frames
  that fit in it.\<close>

definition shm_can_put :: "cras_audio_shm \<Rightarrow> u8 list \<Rightarrow> bool" where
  "shm_can_put shm xs \<longleftrightarrow> cras_shm_is_buffer_available shm \<and> xs \<noteq> [] \<and>
     length xs \<le> usz shm \<and> fby shm dvd length xs"

definition shm_put :: "u8 list \<Rightarrow> cras_audio_shm \<Rightarrow> cras_audio_shm" where
  "shm_put xs shm = cras_shm_buffer_written_start
     (shm\<lparr>samples := splice_at (samples shm) (cras_shm_get_write_buffer_base shm) xs\<rparr>)
     (of_nat (length xs div fby shm))"

text \<open>A reader takes \<open>n\<close> frames when the buffers hold that many.\<close>

definition shm_can_get :: "cras_audio_shm \<Rightarrow> nat \<Rightarrow> bool" where
  "shm_can_get shm n \<longleftrightarrow> n * fby shm \<le> length (shm_queue shm)"

definition shm_get :: "nat \<Rightarrow> cras_audio_shm \<Rightarrow> u8 list \<times> cras_audio_shm" where
  "shm_get n shm = (shm_peek n shm 0 (of_nat n), cras_shm_buffer_read shm (of_nat n))"

lemma take_drop_splice_at:
  assumes "p + length ys \<le> length xs"
  shows "take (length ys) (drop p (splice_at xs p ys)) = ys"
    "q + n \<le> p \<or> p + length ys \<le> q \<Longrightarrow> take n (drop q (splice_at xs p ys)) = take n (drop q xs)"
proof -
  show "take (length ys) (drop p (splice_at xs p ys)) = ys"
    using assms by (simp add: splice_at_def)
  assume d: "q + n \<le> p \<or> p + length ys \<le> q"
  show "take n (drop q (splice_at xs p ys)) = take n (drop q xs)"
  proof (rule nth_equalityI)
    show "length (take n (drop q (splice_at xs p ys))) = length (take n (drop q xs))"
      using assms by simp
    fix k
    assume "k < length (take n (drop q (splice_at xs p ys)))"
    with assms d show "take n (drop q (splice_at xs p ys)) ! k = take n (drop q xs) ! k"
      by (auto simp: nth_splice_at)
  qed
qed

lemma shm_put_nat:
  assumes inv: "shm_inv shm" and can: "shm_can_put shm xs" and w: "w = widx shm"
  defines "v \<equiv> next_buf w" and "s \<equiv> shm_put xs shm"
  shows "widx s = v" "ridx s = ridx shm" "wro s w = length xs" "rdo s w = 0"
    "wro s v = wro shm v" "rdo s v = rdo shm v" "buffer_offset (header s) = buffer_offset (header shm)"
    "config s = config shm" "samples_length s = samples_length shm"
    "samples s = splice_at (samples shm) (bfo shm w) xs"
    "length (read_offset (header s)) = 2" "length (write_offset (header s)) = 2"
    "length (write_in_progress (header s)) = 2"
proof -
  have I: "shm_layout shm" "shm_offsets shm" using inv by (simp_all add: shm_inv_def)
  note L = layoutD [OF I(1)]
  have w2: "w < 2" using L(5) w by simp
  have mw: "write_idx_masked shm = w" using L(8) w by simp
  have base: "cras_shm_get_write_buffer_base shm = bfo shm w"
    using checked_offsets_trusted(4) [OF I w2] by (simp add: cras_shm_get_write_buffer_base_def mw)
  have dv: "fby shm dvd length xs" and lx: "length xs \<le> usz shm"
    using can by (simp_all add: shm_can_put_def)
  have "unat (of_nat (length xs div fby shm) :: u64) = length xs div fby shm"
    using lx by (intro unat_of_nat_le_u32 [of _ "used_size (config shm)"]) (meson div_le_dividend le_trans)
  moreover have "length xs < 4294967296"
    using lx unat_u32_less by (rule le_less_trans)
  ultimately have wv: "unat (ucast (of_nat (length xs div fby shm) * ucast (frame_bytes (config shm)) :: u64) :: u32)
      = length xs"
    using dv frames_times_bytes [of 0 "of_nat (length xs div fby shm)" "frame_bytes (config shm)"] by simp
  have w_lay: "length (write_in_progress (header shm)) = 2" using I(1) by (simp add: shm_layout_def)
  note defs = s_def v_def shm_put_def cras_shm_buffer_written_start_def
    cras_shm_buffer_write_complete_def Let_def widx_def ridx_def
  show "widx s = v" "ridx s = ridx shm" "wro s w = length xs" "rdo s w = 0"
    "wro s v = wro shm v" "rdo s v = rdo shm v" "buffer_offset (header s) = buffer_offset (header shm)"
    "config s = config shm" "samples_length s = samples_length shm"
    "samples s = splice_at (samples shm) (bfo shm w) xs"
    "length (read_offset (header s)) = 2" "length (write_offset (header s)) = 2"
    "length (write_in_progress (header s)) = 2"
    using w2 L(1,2) wv w_lay by (simp_all add: defs mw base)
qed

lemma shm_put_inv_queue:
  assumes inv: "shm_inv shm" and can: "shm_can_put shm xs"
  shows "shm_inv (shm_put xs shm) \<and> shm_queue (shm_put xs shm) = shm_queue shm @ xs"
proof -
  define w where "w = widx shm"
  define v where "v = next_buf w"
  define s where "s = shm_put xs shm"
  have I: "shm_layout shm" "shm_offsets shm" "shm_turns shm" using inv by (simp_all add: shm_inv_def)
  note L = layoutD [OF I(1)]
  note P = shm_put_nat [OF inv can w_def, folded v_def s_def]
  have w2: "w < 2" and v2: "v < 2" using L(5) by (simp_all add: w_def v_def)
  have cases: "m = w \<or> m = v" if "m < 2" for m
    using w2 that less_2_cases_nat [of w] less_2_cases_nat [of m] by (auto simp: v_def)
  have C: "xs \<noteq> []" "length xs \<le> usz shm" "fby shm dvd length xs" "wro shm w = 0"
    using can L(8) by (auto simp: shm_can_put_def cras_shm_is_buffer_available_def w_def)
  have ls: "length (samples s) = length (samples shm)"
    using L(9) [OF w2] C(2) unfolding P(10) by (intro length_splice_at) linarith
  have lay: "shm_layout s"
    using I(1) w2 v2 ls unfolding shm_layout_def by (simp add: P)
  have r: "ridx shm = w \<or> ridx shm = v" using cases L(4) by blast
  have rv: "rdo shm v = 0 \<or> ridx shm = v" and rw: "rdo shm w = 0"
    using I(2) r offsetsD [OF I(2) w2] C(4) by (auto simp: shm_offsets_def v_def)
  have off: "shm_offsets s"
    unfolding shm_offsets_def
  proof (intro conjI allI impI)
    fix m :: nat
    assume "m < 2"
    then show "fby s dvd rdo s m" "fby s dvd wro s m" "rdo s m \<le> wro s m" "wro s m \<le> usz s"
      using cases [of m] C offsetsD [OF I(2) v2] by (auto simp: P)
  qed (use r rv w2 P(4,6) in \<open>auto simp: P(2) v_def shm_offsets_def\<close>)
  have nv: "next_buf v = w" "v \<noteq> w" "next_buf w = v" using w2 by (simp_all add: v_def)
  have turns: "shm_turns s"
    using I(3) r C(1,4) P(3,5) nv by (auto simp: shm_turns_def P(1,2) simp flip: w_def)
  have fit: "bfo shm w + length xs \<le> length (samples shm)"
    using L(9) [OF w2] C(2) by linarith
  have dw: "buf_data s w = xs" and ew: "buf_data shm w = []"
    using take_drop_splice_at(1) [OF fit] by (simp_all add: buf_data_def P C(4))
  have dv: "buf_data s v = buf_data shm v"
  proof -
    have "bfo shm v + wro shm v \<le> bfo shm w \<or> bfo shm w + length xs \<le> bfo shm v"
      using I(1) C(2) offsetsD(4) [OF I(2) v2] w2 less_2_cases_nat [OF w2]
      by (auto simp: shm_layout_def v_def)
    then have "bfo shm v + rdo shm v + (wro shm v - rdo shm v) \<le> bfo shm w \<or>
        bfo shm w + length xs \<le> bfo shm v + rdo shm v"
      using offsetsD(3) [OF I(2) v2] by linarith
    then show ?thesis
      using take_drop_splice_at(2) [OF fit] by (simp add: buf_data_def P)
  qed
  have "ridx shm = w \<Longrightarrow> wro shm v = 0"
    using I(3) C(4) by (auto simp: shm_turns_def v_def w_def split: if_splits)
  then have "shm_queue s = shm_queue shm @ xs"
    using r dw dv ew w2 by (auto simp: shm_queue_def P(2) v_def buf_data_def)
  with lay off turns show ?thesis by (simp add: shm_inv_def s_def)
qed

lemma shm_get_inv_queue:
  assumes inv: "shm_inv shm" and can: "shm_can_get shm n"
  shows "shm_inv (snd (shm_get n shm)) \<and>
    shm_queue shm = fst (shm_get n shm) @ shm_queue (snd (shm_get n shm))"
proof -
  have le: "n * fby shm \<le> length (shm_queue shm)" using can by (simp add: shm_can_get_def)
  have "0 < fby shm" using inv by (simp add: shm_inv_def shm_layout_def)
  then have "n \<le> n * fby shm" by simp
  then have "n < 2147483648"
    using le shm_queue_bound [OF inv] by linarith
  then have u: "unat (of_nat n :: u64) = n"
    by (intro unat_of_nat_u64) simp
  have "shm_peek n shm 0 (of_nat n) = take (n * fby shm) (shm_queue shm)"
    using shm_peek_queue [OF inv, of 0 "of_nat n" n] le u by simp
  moreover note buffer_read_inv_queue [OF inv, of "of_nat n"]
  ultimately show ?thesis using le u by (simp add: shm_get_def)
qed

interpretation shmq: fifo shm_inv shm_queue shm_can_put shm_can_get shm_put shm_get
  by unfold_locales (use shm_put_inv_queue shm_get_inv_queue in blast)+

section \<open>Properties of the double buffer\<close>

lemma bytes_queued_in_nat:
  assumes "shm_layout shm" "shm_offsets shm" "m < 2"
  shows "unat (bytes_queued_in shm m) = wro shm m - rdo shm m"
proof -
  note O = offsetsD [OF assms(2,3)]
  have "min (write_offset (header shm) ! m) (used_size (config shm)) = write_offset (header shm) ! m"
    "min (read_offset (header shm) ! m) (used_size (config shm)) = read_offset (header shm) ! m"
    using O(3,4) by (simp_all add: min_def word_le_nat_alt)
  then show ?thesis
    using O(3) by (auto simp: bytes_queued_in_def Let_def word_less_nat_alt unat_sub word_le_nat_alt)
qed

abbreviation shm_run :: "u8 fifo_op list \<Rightarrow> cras_audio_shm \<Rightarrow> u8 list \<times> u8 list \<times> cras_audio_shm" where
  "shm_run \<equiv> fifo_run shm_can_put shm_can_get shm_put shm_get"

definition sample_shm :: "u64 \<Rightarrow> cras_audio_shm" where
  "sample_shm off0 =
     \<lparr>config = \<lparr>used_size = 4, frame_bytes = 2\<rparr>,
      header = \<lparr>hdr_config = \<lparr>used_size = 4, frame_bytes = 2\<rparr>, read_buf_idx = 0, write_buf_idx = 1,
        read_offset = [0, 0], write_offset = [4, 0], write_in_progress = [False, False],
        volume_scaler = Fin 1, mute = False, callback_pending = False, num_overruns = 0, ts = (0, 0),
        buffer_offset = [off0, 4]\<rparr>,
      samples_length = 8, samples = [1, 2, 3, 4, 0, 0, 0, 0]\<rparr>"

lemma sample_shm_inv: "shm_inv (sample_shm 0)"
proof -
  have split: "(\<forall>i < 2. P i) \<longleftrightarrow> P 0 \<and> P (1 :: nat)" for P
    using less_2_cases_nat by auto
  show ?thesis
    by (simp add: shm_inv_def shm_layout_def shm_offsets_def shm_turns_def sample_shm_def ridx_def
        widx_def split)
qed

lemma sample_shm_sized: "shm_sized (sample_shm off0)"
  by (simp add: shm_sized_def sample_shm_def)

lemma sample_shm_readable: "cras_shm_get_readable_frames (sample_shm 5) 0 = (Some 5, 1)"
  by code_simp

theorem shm_readable_frames_safe_witness:
  "5 + unat (1 :: u64) * unat (frame_bytes (config (sample_shm 5))) \<le> length (samples (sample_shm 5))"
  by (rule shm_readable_frames_safe [OF sample_shm_sized sample_shm_readable])

text \<open>Claim C1.  The double buffer is a queue: over any sequence of writes and reads that the
  buffers can serve, what the reader gets followed by what is still queued is what was queued
  followed by what the writer handed over, in order and without loss or repetition.\<close>

theorem shm_run_fifo:
  assumes "shm_inv shm" "shm_run ops shm = (accepted, delivered, shm')"
  shows "shm_inv shm' \<and> shm_queue shm @ accepted = delivered @ shm_queue shm'"
  using assms by (rule shmq.run_in_order)

lemma sample_shm_run:
  "shm_run [Get 1, Put [7, 8]] (sample_shm 0) =
     ([7, 8], [1, 2], shm_put [7, 8] (cras_shm_buffer_read (sample_shm 0) 1))"
  by code_simp

theorem shm_run_fifo_witness:
  "shm_queue (sample_shm 0) @ [7, 8] =
     [1, 2] @ shm_queue (shm_put [7, 8] (cras_shm_buffer_read (sample_shm 0) 1))"
  using shm_run_fifo [OF sample_shm_inv sample_shm_run] by simp

lemma get_frames_queue:
  assumes "shm_inv shm"
  shows "cras_shm_get_frames shm = int (length (shm_queue shm) div fby shm)"
proof -
  define i where "i = ridx shm"
  have I: "shm_layout shm" "shm_offsets shm" using assms by (simp_all add: shm_inv_def)
  have i2: "i < 2" and rj: "rdo shm (next_buf i) = 0"
    using layoutD(4) [OF I(1)] I(2) by (auto simp: i_def shm_offsets_def)
  note Q = length_shm_queue [OF assms i_def]
  have b: "unat (bytes_queued_in shm m) = wro shm m - rdo shm m" if "m < 2" for m
    by (rule bytes_queued_in_nat [OF I that])
  have s: "unat (bytes_queued_in shm 0) + unat (bytes_queued_in shm 1) = length (shm_queue shm)"
    using Q(1) rj b [of 0] b [of 1] less_2_cases_nat [OF i2] by auto
  have bytes: "unat (cras_shm_get_bytes_queued shm) = length (shm_queue shm)"
    using s shm_queue_bound [OF assms] unfolding cras_shm_get_bytes_queued_def
    by (subst unat_add_small) simp_all
  have dv: "fby shm dvd length (shm_queue shm)" using Q by simp
  let ?fb = "ucast (frame_bytes (config shm)) :: u64"
  have m0: "cras_shm_get_bytes_queued shm mod ?fb = 0"
    using dv by (simp add: word_unat_eq_iff unat_mod bytes)
  have dl: "unat (cras_shm_get_bytes_queued shm div ?fb) = length (shm_queue shm) div fby shm"
    by (simp add: unat_div bytes)
  have "length (shm_queue shm) div fby shm < 2147483648"
    using shm_queue_bound [OF assms] by (meson div_le_dividend le_less_trans)
  with m0 dl show ?thesis
    by (simp add: cras_shm_get_frames_def Let_def sint_small_u32 unat_ucast_u32_u64)
qed

text \<open>Before a capture stream is written, \<^verbatim>\<open>cras_shm_check_write_overrun\<close> clears the
  buffer that is written next, leaves the other one alone and reports an overrun exactly when the
  cleared buffer held frames nobody had read.\<close>

theorem shm_check_write_overrun_spec:
  assumes "shm_inv shm" "\<not> write_in_progress (header shm) ! widx shm"
  shows "\<exists>shm'. cras_shm_check_write_overrun shm = Some (wro shm (widx shm) \<noteq> 0, shm') \<and>
    take (usz shm) (drop (bfo shm (widx shm)) (samples shm')) = replicate (usz shm) 0 \<and>
    buf_data shm' (next_buf (widx shm)) = buf_data shm (next_buf (widx shm)) \<and>
    wro shm' (widx shm) = 0 \<and> write_in_progress (header shm') ! widx shm \<and>
    num_overruns (header shm') = num_overruns (header shm) + of_bool (wro shm (widx shm) \<noteq> 0)"
proof -
  define w where "w = widx shm"
  define v where "v = next_buf w"
  define mem where "mem = splice_at (samples shm) (bfo shm w) (replicate (usz shm) 0)"
  have I: "shm_layout shm" "shm_offsets shm" using assms(1) by (simp_all add: shm_inv_def)
  note L = layoutD [OF I(1)]
  have w2: "w < 2" and v2: "v < 2" and vw: "v \<noteq> w" "w \<noteq> v"
    using L(5) by (simp_all add: w_def v_def)
  have mw: "write_idx_masked shm = w" using L(8) by (simp add: w_def)
  have fit: "bfo shm w + length (replicate (usz shm) (0 :: u8)) \<le> length (samples shm)"
    using L(9) [OF w2] by simp
  define s where "s = upd_header (\<lambda>h. h\<lparr>num_overruns := num_overruns h + of_bool (wro shm w \<noteq> 0),
     write_in_progress := (write_in_progress h)[w := True],
     write_offset := (write_offset h)[w := 0]\<rparr>) (shm\<lparr>samples := mem\<rparr>)"
  have run: "cras_shm_check_write_overrun shm = Some (wro shm w \<noteq> 0, s)"
    using assms(2) fit checked_offsets_trusted(4) [OF I w2]
    by (auto simp: cras_shm_check_write_overrun_def mw mem_set_def s_def mem_def unat_eq_0
        cras_shm_buff_for_idx_def cras_shm_get_checked_buffer_offset_def simp flip: w_def)
  have "bfo shm v + wro shm v \<le> bfo shm w \<or> bfo shm w + usz shm \<le> bfo shm v"
    using I(1) offsetsD(4) [OF I(2) v2] less_2_cases_nat [OF w2] by (auto simp: shm_layout_def v_def)
  then have "bfo shm v + rdo shm v + (wro shm v - rdo shm v) \<le> bfo shm w \<or>
      bfo shm w + length (replicate (usz shm) (0 :: u8)) \<le> bfo shm v + rdo shm v"
    using offsetsD(3) [OF I(2) v2] by auto
  then have other: "buf_data s v = buf_data shm v"
    using take_drop_splice_at(2) [OF fit] vw by (simp add: buf_data_def s_def mem_def)
  have zero: "take (usz shm) (drop (bfo shm w) (samples s)) = replicate (usz shm) 0"
    using take_drop_splice_at(1) [OF fit] by (simp add: s_def mem_def)
  have "length (write_in_progress (header shm)) = 2" using I(1) by (simp add: shm_layout_def)
  with run other zero w2 L(2) show ?thesis
    by (intro exI [of _ s]) (simp add: s_def flip: w_def v_def)
qed

theorem shm_check_write_overrun_spec_witness:
  "\<exists>shm'. cras_shm_check_write_overrun (sample_shm 0) =
      Some (wro (sample_shm 0) (widx (sample_shm 0)) \<noteq> 0, shm')"
proof -
  have "\<not> write_in_progress (header (sample_shm 0)) ! widx (sample_shm 0)"
    by (simp add: sample_shm_def widx_def)
  from shm_check_write_overrun_spec [OF sample_shm_inv this] show ?thesis by blast
qed


text \<open>Whatever value a client asks for, the volume scaler that is stored is a number
  between 0 and 1, also for the infinities and for a value that is not a number.\<close>

theorem shm_volume_scaler_clamped:
  "cras_shm_get_volume_scaler (cras_shm_set_volume_scaler shm v) =
     (case v of NaN \<Rightarrow> Fin 0 | NegInf \<Rightarrow> Fin 0 | PosInf \<Rightarrow> Fin 1 | Fin p \<Rightarrow> Fin (max 0 (min 1 p)))"
  by (cases v) (auto simp: cras_shm_get_volume_scaler_def cras_shm_set_volume_scaler_def
      float_min_def float_max_def split: if_splits)

end
