(* ===== verification/Audio_Format.thy ===== *)
theory Audio_Format
  imports CRAS_Prelude
begin

text \<open>
  \<^verbatim>\<open>common/cras_audio_format.c\<close> and \<^verbatim>\<open>.h\<close>: sample formats, channel layouts and the channel
  conversion matrix.  A layout gives for each of the eleven channels its position in a frame, or
  \<open>- 1\<close>.  The matrix is a list of rows; writing outside it is \<open>None\<close>.  The \<^verbatim>\<open>snd_pcm_format_t\<close>
  of ALSA is a \<open>snd_pcm_format\<close>, and ALSA's \<^verbatim>\<open>snd_pcm_format_physical_width\<close> is a parameter where
  it is used.
\<close>

datatype snd_pcm_format = U8 | S16_LE | S24_LE | S32_LE | S24_3LE | OtherFormat int

abbreviation CRAS_CH_MAX :: nat where "CRAS_CH_MAX \<equiv> 11"

record cras_audio_format =
  pcm_format :: snd_pcm_format
  frame_rate :: u64
  num_channels :: u64
  channel_layout :: "int list"

record cras_audio_format_packed =
  p_format :: snd_pcm_format
  p_frame_rate :: u32
  p_num_channels :: u32
  p_channel_layout :: "int list"

definition pack_cras_audio_format :: "cras_audio_format \<Rightarrow> cras_audio_format_packed" where
  "pack_cras_audio_format src =
     \<lparr>p_format = pcm_format src, p_frame_rate = ucast (frame_rate src),
      p_num_channels = ucast (num_channels src), p_channel_layout = channel_layout src\<rparr>"

definition unpack_cras_audio_format :: "cras_audio_format_packed \<Rightarrow> cras_audio_format" where
  "unpack_cras_audio_format src =
     \<lparr>pcm_format = p_format src, frame_rate = ucast (p_frame_rate src),
      num_channels = ucast (p_num_channels src), channel_layout = p_channel_layout src\<rparr>"

text \<open>\<^verbatim>\<open>(int)num_channels\<close>.\<close>

definition ch_int :: "cras_audio_format \<Rightarrow> int" where
  "ch_int fmt = sint (ucast (num_channels fmt) :: u32)"

definition cras_audio_format_set_default_channel_layout :: "cras_audio_format \<Rightarrow> cras_audio_format" where
  "cras_audio_format_set_default_channel_layout fmt =
     fmt\<lparr>channel_layout := map (\<lambda>i. if of_nat i < num_channels fmt then int i else - 1) [0..<CRAS_CH_MAX]\<rparr>"

definition cras_audio_format_create :: "snd_pcm_format \<Rightarrow> u64 \<Rightarrow> u64 \<Rightarrow> cras_audio_format" where
  "cras_audio_format_create f rate n =
     \<lparr>pcm_format = f, frame_rate = rate, num_channels = n,
      channel_layout = map (\<lambda>i. if of_nat i < n then int i else - 1) [0..<CRAS_CH_MAX]\<rparr>"

definition cras_audio_format_set_channel_layout ::
    "cras_audio_format \<Rightarrow> int list \<Rightarrow> int \<times> cras_audio_format" where
  "cras_audio_format_set_channel_layout fmt layout =
     (if \<exists>i \<in> set [0..<CRAS_CH_MAX]. layout ! i \<ge> ch_int fmt then (- EINVAL, fmt)
      else (0, fmt\<lparr>channel_layout := map (\<lambda>i. layout ! i) [0..<CRAS_CH_MAX]\<rparr>))"

definition cras_audio_format_valid :: "cras_audio_format \<Rightarrow> bool" where
  "cras_audio_format_valid fmt \<longleftrightarrow>
     \<not> (\<exists>i \<in> set [0..<CRAS_CH_MAX]. channel_layout fmt ! i \<ge> ch_int fmt)"

section \<open>The channel conversion matrix\<close>

text \<open>The entries of \<^verbatim>\<open>channel_alt\<close> that are 1: RL and RR may go to SL and SR and back.\<close>

definition channel_alt :: "nat \<Rightarrow> nat \<Rightarrow> bool" where
  "channel_alt x y \<longleftrightarrow> (x, y) \<in> {(2, 6), (3, 7), (6, 2), (7, 3)}"

definition cras_channel_conv_matrix_alloc :: "nat \<Rightarrow> nat \<Rightarrow> rat list list" where
  "cras_channel_conv_matrix_alloc in_ch out_ch = replicate out_ch (replicate in_ch 0)"

text \<open>\<^verbatim>\<open>mtx[r][c] = 1\<close>, \<open>None\<close> when it writes outside the matrix.\<close>

definition mtx_set :: "rat list list \<Rightarrow> int \<Rightarrow> int \<Rightarrow> rat list list option" where
  "mtx_set m r c =
     (if 0 \<le> r \<and> nat r < length m \<and> 0 \<le> c \<and> nat c < length (m ! nat r)
      then Some (m[nat r := (m ! nat r)[nat c := 1]]) else None)"

definition find_alt :: "int list \<Rightarrow> int list \<Rightarrow> nat \<Rightarrow> nat option" where
  "find_alt li lo i =
     find (\<lambda>alt. channel_alt i alt \<and> li ! alt = - 1 \<and> lo ! alt \<noteq> - 1) [0..<CRAS_CH_MAX]"

datatype conv_result = Matrix "rat list list" | Failed | OutOfBounds

fun conv_matrix_loop :: "int list \<Rightarrow> int list \<Rightarrow> nat list \<Rightarrow> rat list list \<Rightarrow> conv_result" where
  "conv_matrix_loop li lo [] m = Matrix m"
| "conv_matrix_loop li lo (i # is) m =
     (if li ! i = - 1 \<and> lo ! i = - 1 then conv_matrix_loop li lo is m
      else if li ! i \<noteq> - 1 \<and> lo ! i \<noteq> - 1
      then (case mtx_set m (lo ! i) (li ! i) of None \<Rightarrow> OutOfBounds
            | Some m' \<Rightarrow> conv_matrix_loop li lo is m')
      else if li ! i \<noteq> - 1
      then (case find_alt li lo i of None \<Rightarrow> Failed
            | Some alt \<Rightarrow> (case mtx_set m (lo ! alt) (li ! i) of None \<Rightarrow> OutOfBounds
                | Some m' \<Rightarrow> conv_matrix_loop li lo is m'))
      else conv_matrix_loop li lo is m)"

definition cras_channel_conv_matrix_create :: "cras_audio_format \<Rightarrow> cras_audio_format \<Rightarrow> conv_result" where
  "cras_channel_conv_matrix_create fi fo =
     (if \<exists>i \<in> set [0..<CRAS_CH_MAX]. channel_layout fi ! i \<ge> ch_int fi \<or>
           channel_layout fo ! i \<ge> ch_int fo
      then Failed
      else conv_matrix_loop (channel_layout fi) (channel_layout fo) [0..<CRAS_CH_MAX]
        (cras_channel_conv_matrix_alloc (unat (num_channels fi)) (unat (num_channels fo))))"

section \<open>Lemmas\<close>

text \<open>A layout without positions below \<open>- 1\<close>, for a number of channels the server supports.\<close>

definition layout_ok :: "cras_audio_format \<Rightarrow> bool" where
  "layout_ok fmt \<longleftrightarrow> unat (num_channels fmt) \<le> CRAS_CH_MAX \<and> length (channel_layout fmt) = CRAS_CH_MAX \<and>
     list_all ((\<le>) (- 1)) (channel_layout fmt)"

definition is_matrix :: "nat \<Rightarrow> nat \<Rightarrow> 'a list list \<Rightarrow> bool" where
  "is_matrix in_ch out_ch m \<longleftrightarrow> length m = out_ch \<and> (\<forall>row \<in> set m. length row = in_ch)"

lemma ch_int_small:
  assumes "unat (num_channels fmt) \<le> CRAS_CH_MAX"
  shows "ch_int fmt = int (unat (num_channels fmt))"
proof -
  have "unat (ucast (num_channels fmt) :: u32) = unat (num_channels fmt)"
    using assms by (simp add: unat_ucast_u32_u64)
  then show ?thesis
    using assms by (simp only: ch_int_def) (subst sint_small_u32, simp_all)
qed

lemma is_matrix_alloc: "is_matrix in_ch out_ch (cras_channel_conv_matrix_alloc in_ch out_ch)"
  by (simp add: is_matrix_def cras_channel_conv_matrix_alloc_def)

lemma mtx_set_in_range:
  assumes "is_matrix in_ch out_ch m" "0 \<le> r" "r < int out_ch" "0 \<le> c" "c < int in_ch"
  shows "\<exists>m'. mtx_set m r c = Some m' \<and> is_matrix in_ch out_ch m' \<and>
    (\<forall>x < out_ch. \<forall>y < in_ch. m' ! x ! y = (if x = nat r \<and> y = nat c then 1 else m ! x ! y))"
proof -
  let ?row = "(m ! nat r)[nat c := 1]"
  have len: "length m = out_ch" and rows: "\<And>x. x < out_ch \<Longrightarrow> length (m ! x) = in_ch"
    using assms(1) by (auto simp: is_matrix_def)
  have r: "nat r < out_ch" "nat c < in_ch" using assms by linarith+
  have "mtx_set m r c = Some (m[nat r := ?row])"
    using assms(2,4) r len rows by (simp add: mtx_set_def)
  moreover have "is_matrix in_ch out_ch (m[nat r := ?row])"
    using len rows r by (auto simp: is_matrix_def in_set_conv_nth nth_list_update)
  ultimately show ?thesis
    using len rows r by (auto simp: nth_list_update)
qed

text \<open>The channel of the output that input channel \<open>i\<close> goes to.\<close>

definition route :: "int list \<Rightarrow> int list \<Rightarrow> nat \<Rightarrow> nat option" where
  "route li lo i = (if lo ! i \<noteq> - 1 then Some i else find_alt li lo i)"

definition routed :: "int list \<Rightarrow> int list \<Rightarrow> nat list \<Rightarrow> nat \<Rightarrow> nat \<Rightarrow> bool" where
  "routed li lo is x y \<longleftrightarrow> (\<exists>i \<in> set is. \<exists>k. li ! i = int y \<and> route li lo i = Some k \<and> lo ! k = int x)"

lemma find_alt_Some: "find_alt li lo i = Some k \<Longrightarrow> k < CRAS_CH_MAX \<and> lo ! k \<noteq> - 1"
  by (auto simp: find_alt_def find_Some_iff)

lemma conv_matrix_loop_spec:
  assumes pos: "\<And>i. i < CRAS_CH_MAX \<Longrightarrow> - 1 \<le> li ! i \<and> li ! i < int in_ch"
    "\<And>i. i < CRAS_CH_MAX \<Longrightarrow> - 1 \<le> lo ! i \<and> lo ! i < int out_ch"
  shows "set is \<subseteq> {..<CRAS_CH_MAX} \<Longrightarrow> is_matrix in_ch out_ch m \<Longrightarrow>
    (case conv_matrix_loop li lo is m of
       OutOfBounds \<Rightarrow> False
     | Failed \<Rightarrow> \<exists>i \<in> set is. li ! i \<noteq> - 1 \<and> route li lo i = None
     | Matrix m' \<Rightarrow> (\<forall>i \<in> set is. li ! i \<noteq> - 1 \<longrightarrow> route li lo i \<noteq> None) \<and> is_matrix in_ch out_ch m' \<and>
         (\<forall>x < out_ch. \<forall>y < in_ch. m' ! x ! y = (if routed li lo is x y then 1 else m ! x ! y)))"
proof (induction "is" arbitrary: m)
  case Nil
  then show ?case by (simp add: routed_def)
next
  case (Cons i "is")
  note IH = Cons.IH
  have i: "i < CRAS_CH_MAX" and sub: "set is \<subseteq> {..<CRAS_CH_MAX}" using Cons.prems(1) by auto
  show ?case
  proof (cases "li ! i = - 1")
    case True
    then have "conv_matrix_loop li lo (i # is) m = conv_matrix_loop li lo is m" by simp
    moreover have "routed li lo (i # is) x y = routed li lo is x y" for x y
      using True by (auto simp: routed_def)
    ultimately show ?thesis
      using IH [OF sub Cons.prems(2)] True by (auto split: conv_result.splits)
  next
    case used: False
    show ?thesis
    proof (cases "route li lo i")
      case None
      with used show ?thesis by (auto simp: route_def split: if_splits)
    next
      case (Some k)
      have k: "k < CRAS_CH_MAX" "lo ! k \<noteq> - 1"
        using Some i by (auto simp: route_def dest: find_alt_Some split: if_splits)
      have rng: "0 \<le> lo ! k" "lo ! k < int out_ch" "0 \<le> li ! i" "li ! i < int in_ch"
        using pos(1) [OF i] pos(2) [OF k(1)] k(2) used by linarith+
      obtain m' where m': "mtx_set m (lo ! k) (li ! i) = Some m'" "is_matrix in_ch out_ch m'"
        "\<forall>x < out_ch. \<forall>y < in_ch. m' ! x ! y = (if x = nat (lo ! k) \<and> y = nat (li ! i) then 1 else m ! x ! y)"
        using mtx_set_in_range [OF Cons.prems(2) rng] by blast
      have step: "conv_matrix_loop li lo (i # is) m = conv_matrix_loop li lo is m'"
        using used Some m'(1) by (auto simp: route_def split: if_splits)
      have r: "routed li lo (i # is) x y \<longleftrightarrow> (x = nat (lo ! k) \<and> y = nat (li ! i)) \<or> routed li lo is x y" for x y
        using Some rng by (auto simp: routed_def)
      show ?thesis
        using IH [OF sub m'(2)] m'(3) Some unfolding step
        by (auto simp: r split: conv_result.splits)
    qed
  qed
qed

lemma valid_layout_range:
  assumes "layout_ok fmt" "cras_audio_format_valid fmt" "i < CRAS_CH_MAX"
  shows "- 1 \<le> channel_layout fmt ! i \<and> channel_layout fmt ! i < int (unat (num_channels fmt))"
  using assms ch_int_small [of fmt]
  by (auto simp: layout_ok_def cras_audio_format_valid_def list_all_length not_le)

section \<open>Properties\<close>


definition stereo :: "int list \<Rightarrow> cras_audio_format" where
  "stereo l = \<lparr>pcm_format = S16_LE, frame_rate = 48000, num_channels = 2, channel_layout = l\<rparr>"

lemma stereo_ok:
  "layout_ok (stereo [0, 1, -1, -1, -1, -1, -1, -1, -1, -1, -1])"
  "cras_audio_format_valid (stereo [0, 1, -1, -1, -1, -1, -1, -1, -1, -1, -1])"
  by code_simp+


text \<open>Positions below \<open>- 1\<close> are not excluded: \<^verbatim>\<open>cras_audio_format_valid\<close> accepts a layout
  with the position \<open>- 2\<close>, which a client can send, and the matrix is then written out of bounds.\<close>

theorem conv_matrix_negative_layout:
  "cras_audio_format_valid (stereo [- 2, 1, -1, -1, -1, -1, -1, -1, -1, -1, -1]) \<and>
   cras_channel_conv_matrix_create (stereo [- 2, 1, -1, -1, -1, -1, -1, -1, -1, -1, -1])
     (stereo [0, 1, -1, -1, -1, -1, -1, -1, -1, -1, -1]) = OutOfBounds"
  by code_simp

end
