(* ===== verification/Buffer_Share.thy ===== *)
theory Buffer_Share
  imports CRAS_Prelude
begin

text \<open>
  \<^verbatim>\<open>server/buffer_share.c\<close>: the bookkeeping of how far each device is into the buffer of one
  stream.  The table of slots is a list; a slot is in use or free, and a free slot keeps the number
  and offset of the device that last used it.  The abstract view is a finite map from device
  numbers to offsets, the locale \<open>offset_table\<close>.

  The list \<open>wr_idx\<close> holds the \<^verbatim>\<open>id_sz\<close> slots the loops run over.  Slots that \<^verbatim>\<open>realloc\<close> adds hold arbitrary data until they are used; this data is the parameter
  \<open>junk\<close>.
\<close>

section \<open>The structure and its operations\<close>

record 'd id_offset =
  used :: bool
  dev_id :: u32
  offset :: u32
  data :: "'d option"

record 'd buffer_share =
  buf_sz :: u32
  id_sz :: u32
  wr_idx :: "'d id_offset list"

abbreviation INITIAL_ID_SIZE :: u32 where "INITIAL_ID_SIZE \<equiv> 3"

fun find_index_from :: "('a \<Rightarrow> bool) \<Rightarrow> nat \<Rightarrow> 'a list \<Rightarrow> nat option" where
  "find_index_from P i [] = None"
| "find_index_from P i (x # xs) = (if P x then Some i else find_index_from P (Suc i) xs)"

definition find_unused :: "'d buffer_share \<Rightarrow> nat option" where
  "find_unused mix = find_index_from (\<lambda>o'. \<not> used o') 0 (wr_idx mix)"

definition find_id :: "'d buffer_share \<Rightarrow> u32 \<Rightarrow> nat option" where
  "find_id mix i =
     find_index_from (\<lambda>o'. used o' \<and> i = dev_id o') 0 (wr_idx mix)"

definition alloc_more_ids ::
    "(nat \<Rightarrow> 'd id_offset) \<Rightarrow> 'd buffer_share \<Rightarrow> 'd buffer_share" where
  "alloc_more_ids junk mix =
     (let new_size = id_sz mix * 2
      in mix\<lparr>wr_idx := take (unat new_size) (wr_idx mix) @
               map (\<lambda>i. (junk i)\<lparr>used := False\<rparr>) [unat (id_sz mix)..<unat new_size],
             id_sz := new_size\<rparr>)"

definition buffer_share_create :: "u32 \<Rightarrow> 'd buffer_share" where
  "buffer_share_create sz =
     \<lparr>buf_sz = sz, id_sz = INITIAL_ID_SIZE,
      wr_idx = replicate (unat INITIAL_ID_SIZE)
        \<lparr>used = False, dev_id = 0, offset = 0, data = None\<rparr>\<rparr>"

definition buffer_share_add_id :: "(nat \<Rightarrow> 'd id_offset) \<Rightarrow> 'd buffer_share \<Rightarrow> u32 \<Rightarrow>
    'd option \<Rightarrow> (int \<times> 'd buffer_share) option" where
  \<comment> \<open>\<open>None\<close>: no slot was found and the null pointer is written through\<close>
  "buffer_share_add_id junk mix i d =
     (if find_id mix i \<noteq> None then Some (- EEXIST, mix)
      else let mix' = (if find_unused mix = None then alloc_more_ids junk mix else mix)
        in case find_unused mix' of
             None \<Rightarrow> None
           | Some k \<Rightarrow> Some (0, mix'\<lparr>wr_idx := (wr_idx mix')[k :=
               (wr_idx mix' ! k)\<lparr>used := True, dev_id := i, offset := 0, data := d\<rparr>]\<rparr>))"

definition buffer_share_rm_id :: "'d buffer_share \<Rightarrow> u32 \<Rightarrow> int \<times> 'd buffer_share" where
  "buffer_share_rm_id mix i =
     (case find_id mix i of
        None \<Rightarrow> (- ENOENT, mix)
      | Some k \<Rightarrow> (0, mix\<lparr>wr_idx := (wr_idx mix)[k :=
          (wr_idx mix ! k)\<lparr>used := False, data := None\<rparr>]\<rparr>))"

fun update_first_match :: "u32 \<Rightarrow> u32 \<Rightarrow> 'd id_offset list \<Rightarrow> 'd id_offset list" where
  "update_first_match i delta [] = []"
| "update_first_match i delta (o' # os) =
     (if i \<noteq> dev_id o' then o' # update_first_match i delta os
      else o'\<lparr>offset := offset o' + delta\<rparr> # os)"

definition buffer_share_offset_update ::
    "'d buffer_share \<Rightarrow> u32 \<Rightarrow> u32 \<Rightarrow> int \<times> 'd buffer_share" where
  "buffer_share_offset_update mix i delta =
     (0, mix\<lparr>wr_idx := update_first_match i delta (wr_idx mix)\<rparr>)"

fun min_written_loop :: "u32 \<Rightarrow> 'd id_offset list \<Rightarrow> u32" where
  "min_written_loop m [] = m"
| "min_written_loop m (o' # os) =
     min_written_loop (if used o' then min m (offset o') else m) os"

definition buffer_share_get_new_write_point :: "'d buffer_share \<Rightarrow> u32 \<times> 'd buffer_share" where
  "buffer_share_get_new_write_point mix =
     (let min_written = min_written_loop (buf_sz mix + 1) (wr_idx mix);
          mix' = mix\<lparr>wr_idx := map (\<lambda>o'. o'\<lparr>offset := offset o' - min_written\<rparr>) (wr_idx mix)\<rparr>
      in (if min_written > buf_sz mix then 0 else min_written, mix'))"

definition get_id_offset :: "'d buffer_share \<Rightarrow> u32 \<Rightarrow> nat option" where
  "get_id_offset mix i =
     find_index_from (\<lambda>o'. used o' \<and> dev_id o' = i) 0 (wr_idx mix)"

definition buffer_share_id_offset :: "'d buffer_share \<Rightarrow> u32 \<Rightarrow> u32" where
  "buffer_share_id_offset mix i =
     (case get_id_offset mix i of None \<Rightarrow> 0 | Some k \<Rightarrow> offset (wr_idx mix ! k))"

definition buffer_share_get_data :: "'d buffer_share \<Rightarrow> u32 \<Rightarrow> 'd option" where
  "buffer_share_get_data mix i =
     (case get_id_offset mix i of None \<Rightarrow> None | Some k \<Rightarrow> data (wr_idx mix ! k))"

section \<open>Invariant and abstract table\<close>

text \<open>The number of a slot in use does not occur in any earlier slot, free or not.  This is
  what makes \<^verbatim>\<open>buffer_share_offset_update\<close> right, which looks for the number without looking at
  \<^verbatim>\<open>used\<close>.  A buffer of \<^verbatim>\<open>UINT_MAX\<close> frames, for which \<^verbatim>\<open>buf_sz + 1\<close> wraps to 0, is
  excluded.\<close>

abbreviation fresh_after :: "'d id_offset \<Rightarrow> 'd id_offset \<Rightarrow> bool" where
  "fresh_after a b \<equiv> used b \<longrightarrow> dev_id a \<noteq> dev_id b"

definition bs_inv :: "'d buffer_share \<Rightarrow> bool" where
  "bs_inv mix \<longleftrightarrow> length (wr_idx mix) = unat (id_sz mix) \<and> 0 < unat (id_sz mix) \<and>
     buf_sz mix \<noteq> - 1 \<and> sorted_wrt fresh_after (wr_idx mix)"

fun bs_lookup :: "'d id_offset list \<Rightarrow> u32 \<Rightarrow> 'd id_offset option" where
  "bs_lookup [] i = None"
| "bs_lookup (o' # os) i = (if used o' \<and> dev_id o' = i then Some o' else bs_lookup os i)"

definition bs_offset :: "'d buffer_share \<Rightarrow> u32 \<Rightarrow> u32 option" where
  "bs_offset mix i = map_option offset (bs_lookup (wr_idx mix) i)"

definition bs_data :: "'d buffer_share \<Rightarrow> u32 \<Rightarrow> 'd option option" where
  "bs_data mix i = map_option data (bs_lookup (wr_idx mix) i)"

definition bs_users :: "'d buffer_share \<Rightarrow> u32 set" where
  "bs_users mix = {i. bs_offset mix i \<noteq> None}"

section \<open>Lookups\<close>

lemma find_index_from_shift:
  "find_index_from P n xs = map_option ((+) n) (find_index_from P 0 xs)"
proof (induction xs arbitrary: n)
  case (Cons x xs)
  from Cons [of "Suc n"] Cons [of 1] show ?case
    by (cases "find_index_from P 0 xs") simp_all
qed simp

lemma find_index_Cons:
  "find_index_from P 0 (x # xs) = (if P x then Some 0 else map_option Suc (find_index_from P 0 xs))"
  using find_index_from_shift [of P 1 xs] by (cases "find_index_from P 0 xs") simp_all

lemma find_index_Some:
  "find_index_from P 0 xs = Some k \<longleftrightarrow> k < length xs \<and> P (xs ! k) \<and> (\<forall>j < k. \<not> P (xs ! j))"
proof (induction xs arbitrary: k)
  case (Cons x xs)
  show ?case
    by (cases k) (auto simp: find_index_Cons Cons All_less_Suc2 simp del: find_index_from.simps)
qed simp

lemma find_index_from_None: "find_index_from P n xs = None \<longleftrightarrow> (\<forall>x \<in> set xs. \<not> P x)"
  by (induction xs arbitrary: n) auto

lemma bs_lookup_find:
  "bs_lookup os i =
     map_option ((!) os) (find_index_from (\<lambda>o'. used o' \<and> dev_id o' = i) 0 os)"
  by (induction os)
    (simp_all add: find_index_Cons option.map_comp comp_def del: find_index_from.simps(2))

lemma bs_lookup_None: "bs_lookup os i = None \<longleftrightarrow> (\<forall>o' \<in> set os. used o' \<longrightarrow> dev_id o' \<noteq> i)"
  by (induction os) auto

lemma bs_lookup_Some: "bs_lookup os i = Some o' \<Longrightarrow> o' \<in> set os \<and> used o' \<and> dev_id o' = i"
  by (induction os) (auto split: if_splits)

lemma bs_lookup_iff:
  "sorted_wrt fresh_after os \<Longrightarrow>
    bs_lookup os i = Some o' \<longleftrightarrow> o' \<in> set os \<and> used o' \<and> dev_id o' = i"
  by (induction os) (auto dest: bs_lookup_Some)

lemma find_id_conv: "find_id mix i = get_id_offset mix i"
  unfolding find_id_def get_id_offset_def by (metis (no_types, lifting))

lemma get_id_offset_lookup: "bs_lookup (wr_idx mix) i = map_option ((!) (wr_idx mix)) (get_id_offset mix i)"
  by (simp add: bs_lookup_find get_id_offset_def)

lemma buffer_share_id_offset_spec:
  "buffer_share_id_offset mix i = (case bs_offset mix i of None \<Rightarrow> 0 | Some x \<Rightarrow> x)"
  by (simp add: buffer_share_id_offset_def bs_offset_def get_id_offset_lookup
      split: option.splits)

lemma buffer_share_get_data_spec:
  "buffer_share_get_data mix i = (case bs_data mix i of None \<Rightarrow> None | Some x \<Rightarrow> x)"
  by (simp add: buffer_share_get_data_def bs_data_def get_id_offset_lookup split: option.splits)

section \<open>Effect of the operations on the table\<close>

text \<open>Changes that keep \<^verbatim>\<open>used\<close> and the numbers keep the invariant.\<close>

lemma fresh_after_map_cong:
  fixes os os' :: "'d id_offset list"
  assumes "map (\<lambda>o'. (used o', dev_id o')) os = map (\<lambda>o'. (used o', dev_id o')) os'"
  shows "sorted_wrt fresh_after os \<longleftrightarrow> sorted_wrt fresh_after os'"
proof -
  have key: "sorted_wrt fresh_after xs \<longleftrightarrow>
      sorted_wrt (\<lambda>a b. fst b \<longrightarrow> snd a \<noteq> snd b) (map (\<lambda>o'. (used o', dev_id o')) xs)"
    for xs :: "'d id_offset list"
    by (simp add: sorted_wrt_map)
  show ?thesis
    unfolding key [of os] key [of os'] assms ..
qed

lemma update_first_match_keys:
  "map (\<lambda>o'. (used o', dev_id o')) (update_first_match i d os) =
    map (\<lambda>o'. (used o', dev_id o')) os"
  by (induction os) auto

lemma length_update_first_match [simp]: "length (update_first_match i d os) = length os"
  by (induction os) auto

lemma bs_lookup_update_first_match:
  "sorted_wrt fresh_after os \<Longrightarrow>
    bs_lookup (update_first_match i d os) k =
      (if k = i then map_option (\<lambda>o'. o'\<lparr>offset := offset o' + d\<rparr>) (bs_lookup os i)
       else bs_lookup os k)"
proof (induction os)
  case (Cons o' os)
  show ?case
  proof (cases "dev_id o' = i")
    case True
    then have "\<not> used o' \<Longrightarrow> bs_lookup os i = None"
      using Cons.prems by (auto simp: bs_lookup_None)
    with True show ?thesis by auto
  next
    case False
    with Cons show ?thesis by auto
  qed
qed simp

lemma bs_lookup_map:
  assumes "\<And>o'. used (f o') = used o'" "\<And>o'. dev_id (f o') = dev_id o'"
  shows "bs_lookup (map f os) k = map_option f (bs_lookup os k)"
  by (induction os) (simp_all add: assms)

lemma bs_lookup_occupy:
  "k < length os \<Longrightarrow> \<not> used (os ! k) \<Longrightarrow> bs_lookup os (dev_id n) = None \<Longrightarrow> used n \<Longrightarrow>
    bs_lookup (os[k := n]) j = (if j = dev_id n then Some n else bs_lookup os j)"
proof (induction os arbitrary: k)
  case (Cons o' os)
  then show ?case
    by (cases k) (auto split: if_splits)
qed simp

lemma bs_lookup_release:
  "sorted_wrt fresh_after os \<Longrightarrow> k < length os \<Longrightarrow> used (os ! k) \<Longrightarrow> \<not> used n \<Longrightarrow>
    bs_lookup (os[k := n]) j = (if j = dev_id (os ! k) then None else bs_lookup os j)"
proof (induction os arbitrary: k)
  case (Cons o' os)
  show ?case
  proof (cases k)
    case 0
    have "bs_lookup os (dev_id o') = None"
      using Cons.prems by (auto simp: bs_lookup_None)
    with 0 Cons.prems show ?thesis by auto
  next
    case (Suc k')
    with Cons.prems have "dev_id o' \<noteq> dev_id (os ! k')"
      by auto
    with Suc Cons show ?thesis by auto
  qed
qed simp

lemma bs_lookup_append_free:
  "\<forall>o' \<in> set os'. \<not> used o' \<Longrightarrow> bs_lookup (os @ os') j = bs_lookup os j"
  by (induction os) (auto simp: bs_lookup_None)

lemma fresh_after_occupy:
  assumes inv: "sorted_wrt fresh_after os" and k: "k < length os"
    and earlier: "\<forall>j < k. used (os ! j)" and new: "bs_lookup os (dev_id n) = None"
  shows "sorted_wrt fresh_after (os[k := n])"
  unfolding sorted_wrt_iff_nth_less
proof (intro allI impI)
  fix i j
  assume ij: "i < j" "j < length (os[k := n])" and used: "used (os[k := n] ! j)"
  have no: "l < length os \<Longrightarrow> used (os ! l) \<Longrightarrow> dev_id (os ! l) \<noteq> dev_id n" for l
    using new by (auto simp: bs_lookup_None)
  have "i < j \<Longrightarrow> j < length os \<Longrightarrow> used (os ! j) \<Longrightarrow> dev_id (os ! i) \<noteq> dev_id (os ! j)"
    using inv by (simp add: sorted_wrt_iff_nth_less)
  with ij used no [of i] no [of j] earlier k
  show "dev_id (os[k := n] ! i) \<noteq> dev_id (os[k := n] ! j)"
    by (auto simp: nth_list_update split: if_splits)
qed

lemma fresh_after_release:
  assumes "sorted_wrt fresh_after os" "dev_id n = dev_id (os ! k)" "\<not> used n" "k < length os"
  shows "sorted_wrt fresh_after (os[k := n])"
  unfolding sorted_wrt_iff_nth_less
proof (intro allI impI)
  fix i j
  assume ij: "i < j" "j < length (os[k := n])" and used: "used (os[k := n] ! j)"
  then have "i < length os" "j < length os" by auto
  moreover have "used (os ! j) \<Longrightarrow> dev_id (os ! i) \<noteq> dev_id (os ! j)"
    using assms(1) ij by (simp add: sorted_wrt_iff_nth_less)
  ultimately show "dev_id (os[k := n] ! i) \<noteq> dev_id (os[k := n] ! j)"
    using assms(2-4) used by (auto simp: nth_list_update split: if_splits)
qed

lemma fresh_after_free: "\<forall>o' \<in> set os. \<not> used o' \<Longrightarrow> sorted_wrt fresh_after os"
  by (induction os) auto

lemma fresh_after_append_free:
  "sorted_wrt fresh_after os \<Longrightarrow> \<forall>o' \<in> set os'. \<not> used o' \<Longrightarrow>
    sorted_wrt fresh_after (os @ os')"
  by (auto simp: sorted_wrt_append fresh_after_free)

lemma occupy_slot:
  "(o' :: 'd id_offset)\<lparr>used := a, dev_id := b, offset := c, data := d\<rparr> =
    \<lparr>used = a, dev_id = b, offset = c, data = d\<rparr>"
  by (cases o') simp

section \<open>Every operation keeps the invariant\<close>

lemma bs_inv_create: "sz \<noteq> - 1 \<Longrightarrow> bs_inv (buffer_share_create sz)"
  by (simp add: bs_inv_def buffer_share_create_def fresh_after_free)

lemma bs_inv_update [cras_inv]:
  "bs_inv mix \<Longrightarrow> bs_inv (snd (buffer_share_offset_update mix i d))"
  using fresh_after_map_cong [OF update_first_match_keys]
  by (auto simp: bs_inv_def buffer_share_offset_update_def)

lemma bs_inv_new_write_point [cras_inv]:
  "bs_inv mix \<Longrightarrow> bs_inv (snd (buffer_share_get_new_write_point mix))"
  by (auto simp: bs_inv_def buffer_share_get_new_write_point_def Let_def sorted_wrt_map)

lemma find_id_Some:
  "find_id mix i = Some k \<Longrightarrow>
    k < length (wr_idx mix) \<and> used (wr_idx mix ! k) \<and> dev_id (wr_idx mix ! k) = i"
  by (simp add: find_id_def find_index_Some)

lemma find_id_None: "find_id mix i = None \<longleftrightarrow> bs_lookup (wr_idx mix) i = None"
  by (simp add: find_id_conv get_id_offset_lookup)

lemma bs_inv_rm [cras_inv]: "bs_inv mix \<Longrightarrow> bs_inv (snd (buffer_share_rm_id mix i))"
  by (auto simp: bs_inv_def buffer_share_rm_id_def split: option.splits
      dest!: find_id_Some intro!: fresh_after_release)

text \<open>The table that \<^verbatim>\<open>buffer_share_add_id\<close> searches after a possible growth has a free slot,
  below which every slot is in use.\<close>

definition add_id_table :: "(nat \<Rightarrow> 'd id_offset) \<Rightarrow> 'd buffer_share \<Rightarrow> 'd buffer_share" where
  "add_id_table junk mix = (if find_unused mix = None then alloc_more_ids junk mix else mix)"

lemma unat_double_small: "unat (x :: u32) < 2 ^ 31 \<Longrightarrow> unat (x * 2) = 2 * unat x"
  by (subst unat_mult_small) simp_all

lemma unat_double_wraps:
  assumes "\<not> unat (x :: u32) < 2 ^ 31"
  shows "unat (x * 2) \<le> unat x"
proof -
  have "unat x < 4294967296" by simp
  then have "unat x * 2 - 4294967296 \<le> unat x" "unat x * 2 - 4294967296 < 4294967296"
    by linarith+
  with assms show ?thesis
    by (simp add: unat_word_ariths le_mod_geq)
qed

lemma find_unused_Some:
  "find_unused mix = Some k \<longleftrightarrow> k < length (wr_idx mix) \<and> \<not> used (wr_idx mix ! k) \<and>
    (\<forall>j < k. used (wr_idx mix ! j))"
  by (simp add: find_unused_def find_index_Some)

lemma add_id_table_grows:
  assumes inv: "bs_inv mix" and small: "unat (id_sz mix) < 2 ^ 31"
  shows "bs_inv (add_id_table junk mix)" "find_unused (add_id_table junk mix) \<noteq> None"
    "bs_lookup (wr_idx (add_id_table junk mix)) i = bs_lookup (wr_idx mix) i"
proof -
  let ?new = "map (\<lambda>i. (junk i)\<lparr>used := False\<rparr>) [unat (id_sz mix)..<2 * unat (id_sz mix)]"
  have free: "\<forall>o' \<in> set ?new. \<not> used o'" by auto
  have w: "wr_idx (alloc_more_ids junk mix) = wr_idx mix @ ?new"
    "unat (id_sz (alloc_more_ids junk mix)) = 2 * unat (id_sz mix)"
    "buf_sz (alloc_more_ids junk mix) = buf_sz mix"
    using inv small by (simp_all add: alloc_more_ids_def Let_def unat_double_small bs_inv_def)
  have "(junk (unat (id_sz mix)))\<lparr>used := False\<rparr> \<in> set ?new"
    using inv by (simp add: bs_inv_def)
  then have "\<exists>o' \<in> set (wr_idx mix @ ?new). \<not> used o'"
    by (intro bexI) auto
  then have "find_unused (alloc_more_ids junk mix) \<noteq> None"
    by (simp only: find_unused_def find_index_from_None w) blast
  moreover have "bs_inv (alloc_more_ids junk mix)"
    using inv fresh_after_append_free [OF _ free] by (auto simp: bs_inv_def w)
  ultimately show "bs_inv (add_id_table junk mix)" "find_unused (add_id_table junk mix) \<noteq> None"
    "bs_lookup (wr_idx (add_id_table junk mix)) i = bs_lookup (wr_idx mix) i"
    using inv bs_lookup_append_free [OF free] by (auto simp: add_id_table_def w)
qed

lemma add_id_fresh:
  assumes "bs_lookup (wr_idx mix) i = None"
  shows "buffer_share_add_id junk mix i d =
    map_option (\<lambda>k. (0, (add_id_table junk mix)\<lparr>wr_idx := (wr_idx (add_id_table junk mix))[k :=
      \<lparr>used = True, dev_id = i, offset = 0, data = d\<rparr>]\<rparr>)) (find_unused (add_id_table junk mix))"
  using assms
  by (auto simp: buffer_share_add_id_def find_id_None add_id_table_def Let_def occupy_slot
      split: option.splits)

section \<open>The abstract table of offsets\<close>

lemma min_written_loop_le: "min_written_loop m os \<le> m"
  by (induction os arbitrary: m) (auto intro: order_trans [OF _ min.cobounded1])

lemma min_written_loop_lower:
  "o' \<in> set os \<Longrightarrow> used o' \<Longrightarrow> min_written_loop m os \<le> offset o'"
proof (induction os arbitrary: m)
  case (Cons o1 os)
  then show ?case
    by (auto intro: order_trans [OF min_written_loop_le min.cobounded2])
qed simp

lemma min_written_loop_attained:
  "min_written_loop m os = m \<or> (\<exists>o' \<in> set os. used o' \<and> offset o' = min_written_loop m os)"
proof (induction os arbitrary: m)
  case (Cons o1 os)
  show ?case
    using Cons [of "min m (offset o1)"] Cons [of m] by (auto simp: min_def)
qed simp

definition bs_ready :: "'d buffer_share \<Rightarrow> bool" where
  "bs_ready mix \<longleftrightarrow> (\<exists>o' \<in> set (wr_idx mix). used o' \<and> offset o' \<le> buf_sz mix)"

lemma bs_ready_iff:
  "bs_inv mix \<Longrightarrow> bs_ready mix \<longleftrightarrow> (\<exists>i x. bs_offset mix i = Some x \<and> x \<le> buf_sz mix)"
  unfolding bs_ready_def bs_offset_def bs_inv_def
  by (auto simp: bs_lookup_iff)

lemma new_write_point_min:
  assumes inv: "bs_inv mix" and ready: "bs_ready mix"
  shows "fst (buffer_share_get_new_write_point mix) = min_written_loop (buf_sz mix + 1) (wr_idx mix)"
    and "\<exists>o' \<in> set (wr_idx mix). used o' \<and> offset o' = fst (buffer_share_get_new_write_point mix)"
proof -
  let ?m = "min_written_loop (buf_sz mix + 1) (wr_idx mix)"
  obtain o1 where o1: "o1 \<in> set (wr_idx mix)" "used o1" "offset o1 \<le> buf_sz mix"
    using ready by (auto simp: bs_ready_def)
  have le: "?m \<le> buf_sz mix"
    using min_written_loop_lower [OF o1(1,2)] o1(3) by (rule order_trans)
  then show fst: "fst (buffer_share_get_new_write_point mix) = ?m"
    by (auto simp: buffer_share_get_new_write_point_def Let_def)
  have "?m \<noteq> buf_sz mix + 1"
    using le inv word_less_Suc [of "buf_sz mix"] by (auto simp: bs_inv_def)
  then show "\<exists>o' \<in> set (wr_idx mix). used o' \<and> offset o' = fst (buffer_share_get_new_write_point mix)"
    using min_written_loop_attained [of "buf_sz mix + 1" "wr_idx mix"] fst by auto
qed

lemma bs_offset_update:
  assumes "bs_inv mix"
  shows "bs_offset (snd (buffer_share_offset_update mix i d)) =
    (bs_offset mix)(i := map_option (\<lambda>x. x + d) (bs_offset mix i))"
  using assms
  by (auto simp: fun_eq_iff bs_offset_def buffer_share_offset_update_def bs_inv_def
      bs_lookup_update_first_match option.map_comp comp_def)

lemma bs_offset_commit:
  "bs_offset (snd (buffer_share_get_new_write_point mix)) k =
    map_option (\<lambda>x. x - min_written_loop (buf_sz mix + 1) (wr_idx mix)) (bs_offset mix k)"
  by (simp add: bs_offset_def buffer_share_get_new_write_point_def Let_def bs_lookup_map
      option.map_comp comp_def)

lemma bs_lower:
  assumes "bs_offset mix i = Some x"
  shows "min_written_loop m (wr_idx mix) \<le> x"
  using assms by (auto simp: bs_offset_def dest!: bs_lookup_Some intro: min_written_loop_lower)

lemma bs_sz_frame [simp]:
  "buf_sz (snd (buffer_share_offset_update mix i d)) = buf_sz mix"
  "buf_sz (snd (buffer_share_get_new_write_point mix)) = buf_sz mix"
  by (simp_all add: buffer_share_offset_update_def buffer_share_get_new_write_point_def Let_def)

text \<open>The contract: devices advance, and a commit moves the common point to the slowest device.\<close>

datatype share_op = Advance u32 u32 | Commit

fun share_run :: "('s \<Rightarrow> bool) \<Rightarrow> ('s \<Rightarrow> u32 \<Rightarrow> u32 \<Rightarrow> 's) \<Rightarrow> ('s \<Rightarrow> u32 \<times> 's) \<Rightarrow>
    share_op list \<Rightarrow> 's \<Rightarrow> (u32 \<times> 's) option" where
  \<comment> \<open>\<open>None\<close> when a commit is tried while every device is past the end of the buffer\<close>
  "share_run ready upd commit [] s = Some (0, s)"
| "share_run ready upd commit (Advance i d # ops) s = share_run ready upd commit ops (upd s i d)"
| "share_run ready upd commit (Commit # ops) s =
     (if ready s
      then map_option (\<lambda>(t, s'). (fst (commit s) + t, s'))
        (share_run ready upd commit ops (snd (commit s)))
      else None)"

fun advanced :: "u32 \<Rightarrow> share_op list \<Rightarrow> u32" where
  "advanced k [] = 0"
| "advanced k (Advance i d # ops) = (if i = k then d else 0) + advanced k ops"
| "advanced k (Commit # ops) = advanced k ops"

locale offset_table =
  fixes invar :: "'s \<Rightarrow> bool"
    and offs :: "'s \<Rightarrow> u32 \<Rightarrow> u32 option"
    and ready :: "'s \<Rightarrow> bool"
    and upd :: "'s \<Rightarrow> u32 \<Rightarrow> u32 \<Rightarrow> 's"
    and commit :: "'s \<Rightarrow> u32 \<times> 's"
  assumes upd_invar: "invar s \<Longrightarrow> invar (upd s i d)"
    and upd_offs: "invar s \<Longrightarrow> offs (upd s i d) = (offs s)(i := map_option (\<lambda>x. x + d) (offs s i))"
    and commit_invar: "invar s \<Longrightarrow> invar (snd (commit s))"
    and commit_offs: "invar s \<Longrightarrow> ready s \<Longrightarrow>
      offs (snd (commit s)) k = map_option (\<lambda>x. x - fst (commit s)) (offs s k)"
    and commit_least: "invar s \<Longrightarrow> ready s \<Longrightarrow> offs s k = Some x \<Longrightarrow> fst (commit s) \<le> x"
    and commit_slowest: "invar s \<Longrightarrow> ready s \<Longrightarrow> \<exists>k. offs s k = Some (fst (commit s))"
begin

lemma run_conserves:
  "invar s \<Longrightarrow> share_run ready upd commit ops s = Some (t, s') \<Longrightarrow> offs s k = Some x \<Longrightarrow>
    invar s' \<and> offs s' k = Some (x + advanced k ops - t)"
proof (induction ops arbitrary: s t x)
  case Nil
  then show ?case by simp
next
  case (Cons op ops)
  show ?case
  proof (cases op)
    case (Advance i d)
    have "offs (upd s i d) k = Some (x + (if i = k then d else 0))"
      using Cons.prems by (auto simp: upd_offs)
    with Cons.IH [OF upd_invar [OF Cons.prems(1)]] Cons.prems(2) Advance show ?thesis
      by (fastforce simp: add.assoc)
  next
    case Commit
    then obtain t1 where ready: "ready s" and t: "t = fst (commit s) + t1"
      and run: "share_run ready upd commit ops (snd (commit s)) = Some (t1, s')"
      using Cons.prems(2) by (auto split: if_splits)
    have "offs (snd (commit s)) k = Some (x - fst (commit s))"
      using Cons.prems(1,3) ready by (simp add: commit_offs)
    from Cons.IH [OF commit_invar [OF Cons.prems(1)] run this] Commit t show ?thesis
      by (simp add: algebra_simps)
  qed
qed

lemma commit_releases_slowest:
  "invar s \<Longrightarrow> ready s \<Longrightarrow> \<exists>k. offs (snd (commit s)) k = Some 0"
  using commit_slowest [of s] by (auto simp: commit_offs)

end

interpretation bs: offset_table bs_inv bs_offset bs_ready
  "\<lambda>mix i d. snd (buffer_share_offset_update mix i d)" buffer_share_get_new_write_point
proof (unfold_locales, goal_cases)
  case (1 s i d)
  then show ?case by (rule bs_inv_update)
next
  case (2 s i d)
  then show ?case by (rule bs_offset_update)
next
  case (3 s)
  then show ?case by (rule bs_inv_new_write_point)
next
  case (4 s k)
  then show ?case by (simp add: new_write_point_min bs_offset_commit)
next
  case (5 s k x)
  then show ?case by (simp add: new_write_point_min bs_lower)
next
  case (6 s)
  then obtain o' where "o' \<in> set (wr_idx s)" "used o'"
    "offset o' = fst (buffer_share_get_new_write_point s)"
    using new_write_point_min(2) by blast
  with 6(1) show ?case
    by (intro exI [of _ "dev_id o'"]) (auto simp: bs_offset_def bs_inv_def bs_lookup_iff)
qed

section \<open>Reachable tables\<close>

inductive bs_reach :: "u32 \<Rightarrow> 'd buffer_share \<Rightarrow> bool" for sz where
  create: "bs_reach sz (buffer_share_create sz)"
| add: "bs_reach sz mix \<Longrightarrow> buffer_share_add_id junk mix i d = Some (rc, mix') \<Longrightarrow> bs_reach sz mix'"
| rm: "bs_reach sz mix \<Longrightarrow> bs_reach sz (snd (buffer_share_rm_id mix i))"
| update: "bs_reach sz mix \<Longrightarrow> bs_reach sz (snd (buffer_share_offset_update mix i delta))"
| commit: "bs_reach sz mix \<Longrightarrow> bs_reach sz (snd (buffer_share_get_new_write_point mix))"

lemma add_id_overflow:
  assumes inv: "bs_inv mix" and big: "\<not> unat (id_sz mix) < 2 ^ 31"
    and full: "find_unused mix = None" and new: "find_id mix i = None"
  shows "buffer_share_add_id junk mix i d = None"
proof -
  have "find_unused (alloc_more_ids junk mix) = None"
    using full unat_double_wraps [OF big] inv
    by (auto simp: find_unused_def find_index_from_None alloc_more_ids_def Let_def bs_inv_def
        dest: in_set_takeD)
  with full new show ?thesis
    by (simp add: buffer_share_add_id_def)
qed

lemma add_id_table_inv:
  assumes "bs_inv mix" "find_unused mix \<noteq> None \<or> unat (id_sz mix) < 2 ^ 31"
  shows "bs_inv (add_id_table junk mix)"
    "bs_lookup (wr_idx (add_id_table junk mix)) i = bs_lookup (wr_idx mix) i"
    "find_unused (add_id_table junk mix) \<noteq> None"
  using assms add_id_table_grows [of mix junk] by (auto simp: add_id_table_def)

lemma add_id_effect:
  assumes inv: "bs_inv mix" and room: "find_unused mix \<noteq> None \<or> unat (id_sz mix) < 2 ^ 31"
    and new: "bs_lookup (wr_idx mix) i = None"
  shows "\<exists>mix'. buffer_share_add_id junk mix i d = Some (0, mix') \<and> bs_inv mix' \<and>
    (\<forall>j. bs_lookup (wr_idx mix') j = (if j = i
       then Some \<lparr>used = True, dev_id = i, offset = 0, data = d\<rparr> else bs_lookup (wr_idx mix) j))"
proof -
  note t = add_id_table_inv [OF inv room]
  obtain k where k: "find_unused (add_id_table junk mix) = Some k"
    using t(3) by blast
  let ?n = "\<lparr>used = True, dev_id = i, offset = 0, data = d\<rparr>"
  let ?w = "wr_idx (add_id_table junk mix)"
  have kw: "k < length ?w" "\<not> used (?w ! k)" "\<forall>j < k. used (?w ! j)"
    using k by (auto simp: find_unused_Some)
  have "sorted_wrt fresh_after (?w[k := ?n])"
    using t(1) kw new t(2) by (intro fresh_after_occupy) (auto simp: bs_inv_def)
  then have "bs_inv ((add_id_table junk mix)\<lparr>wr_idx := ?w[k := ?n]\<rparr>)"
    using t(1) by (simp add: bs_inv_def)
  moreover have "bs_lookup (?w[k := ?n]) j = (if j = i then Some ?n else bs_lookup (wr_idx mix) j)" for j
    using bs_lookup_occupy [of k ?w ?n j] kw new t(2) by simp
  ultimately show ?thesis
    by (simp add: add_id_fresh [OF new] k)
qed

lemma bs_inv_add [cras_inv]:
  assumes inv: "bs_inv mix" and add: "buffer_share_add_id junk mix i d = Some (rc, mix')"
  shows "bs_inv mix'"
proof (cases "find_id mix i = None")
  case False
  with add inv show ?thesis by (auto simp: buffer_share_add_id_def)
next
  case True
  then have "bs_lookup (wr_idx mix) i = None" by (simp add: find_id_None)
  moreover have "find_unused mix \<noteq> None \<or> unat (id_sz mix) < 2 ^ 31"
    using add_id_overflow [OF inv _ _ True] add by (metis option.distinct(1))
  ultimately show ?thesis
    using add_id_effect [OF inv, of i junk d] add by auto
qed

lemma bs_reach_inv: "bs_reach sz mix \<Longrightarrow> sz \<noteq> - 1 \<Longrightarrow> bs_inv mix"
  by (induction rule: bs_reach.induct) (auto intro: bs_inv_create bs_inv_add bs_inv_rm
      bs_inv_update bs_inv_new_write_point)

text \<open>The two operations on the table of slots, for the components that use it.\<close>

lemma add_id_lookup:
  assumes inv: "bs_inv mix" and add: "buffer_share_add_id junk mix i d = Some (rc, mix')"
  shows "if bs_lookup (wr_idx mix) i = None
    then rc = 0 \<and> bs_lookup (wr_idx mix') =
      (bs_lookup (wr_idx mix))(i \<mapsto> \<lparr>used = True, dev_id = i, offset = 0, data = d\<rparr>)
    else rc = - EEXIST \<and> mix' = mix"
proof (cases "bs_lookup (wr_idx mix) i = None")
  case True
  then have "find_id mix i = None" by (simp add: find_id_None)
  then have "find_unused mix \<noteq> None \<or> unat (id_sz mix) < 2 ^ 31"
    using add_id_overflow [OF inv] add by (metis option.distinct(1))
  from add_id_effect [OF inv this True, of junk d] True add show ?thesis
    by (auto simp: fun_eq_iff)
next
  case False
  with add show ?thesis by (auto simp: buffer_share_add_id_def find_id_None)
qed

lemma rm_id_lookup:
  assumes "bs_inv mix"
  shows "fst (buffer_share_rm_id mix i) = (if bs_lookup (wr_idx mix) i = None then - ENOENT else 0)"
    "bs_lookup (wr_idx (snd (buffer_share_rm_id mix i))) = (bs_lookup (wr_idx mix))(i := None)"
proof -
  have "fst (buffer_share_rm_id mix i) = (if bs_lookup (wr_idx mix) i = None then - ENOENT else 0) \<and>
    bs_lookup (wr_idx (snd (buffer_share_rm_id mix i))) = (bs_lookup (wr_idx mix))(i := None)"
  proof (cases "find_id mix i")
    case None
    then show ?thesis
      using find_id_None [of mix i] by (auto simp: buffer_share_rm_id_def)
  next
    case (Some k)
    note k = find_id_Some [OF Some]
    have "bs_lookup ((wr_idx mix)[k := (wr_idx mix ! k)\<lparr>used := False, data := None\<rparr>]) j =
        (if j = i then None else bs_lookup (wr_idx mix) j)" for j
      using bs_lookup_release [of "wr_idx mix" k _ j] k assms by (simp add: bs_inv_def)
    with Some find_id_None [of mix i] show ?thesis
      by (auto simp: buffer_share_rm_id_def)
  qed
  then show "fst (buffer_share_rm_id mix i) = (if bs_lookup (wr_idx mix) i = None then - ENOENT else 0)"
    "bs_lookup (wr_idx (snd (buffer_share_rm_id mix i))) = (bs_lookup (wr_idx mix))(i := None)"
    by blast+
qed

section \<open>Properties\<close>

text \<open>Claim C21.  In every table that can arise from \<^verbatim>\<open>buffer_share_create\<close> by adding and removing
  devices, advancing them and taking new write points, no earlier slot, in use or stale, carries the
  number of a slot in use; so a device number is in use at most once.\<close>

theorem buffer_share_reachable_inv:
  assumes "bs_reach sz mix" "sz \<noteq> - 1"
  shows "bs_inv mix \<and> distinct (map dev_id (filter used (wr_idx mix)))"
proof -
  have inv: "bs_inv mix"
    using assms by (simp add: bs_reach_inv)
  have "sorted_wrt fresh_after os \<Longrightarrow> distinct (map dev_id (filter used os))"
    for os :: "'a id_offset list"
    by (induction os) auto
  with inv show ?thesis by (simp add: bs_inv_def)
qed

definition sample_share :: "unit buffer_share" where
  "sample_share = \<lparr>buf_sz = 480, id_sz = 3, wr_idx =
     [\<lparr>used = False, dev_id = 9, offset = 7, data = None\<rparr>,
      \<lparr>used = True, dev_id = 5, offset = 120, data = Some ()\<rparr>,
      \<lparr>used = True, dev_id = 6, offset = 100, data = Some ()\<rparr>]\<rparr>"

lemma sample_share_inv: "bs_inv sample_share"
  by (simp add: bs_inv_def sample_share_def)

theorem buffer_share_reachable_inv_witness:
  "bs_inv (snd (buffer_share_rm_id (buffer_share_create 480 :: unit buffer_share) 5)) \<and>
   distinct (map dev_id (filter used
     (wr_idx (snd (buffer_share_rm_id (buffer_share_create 480 :: unit buffer_share) 5)))))"
  by (rule buffer_share_reachable_inv [of 480, OF bs_reach.rm [OF bs_reach.create]]) simp

text \<open>Adding a device: an unknown number gets a slot with offset 0, every other device
  keeps its offset and data, growing the table when it is full; a known number is refused and
  changes nothing.\<close>

theorem buffer_share_add_id_spec:
  assumes "bs_inv mix" "unat (id_sz mix) < 2 ^ 31"
  shows "(bs_offset mix i = None \<longrightarrow>
      (\<exists>mix'. buffer_share_add_id junk mix i d = Some (0, mix') \<and> bs_inv mix' \<and>
        bs_offset mix' = (bs_offset mix)(i \<mapsto> 0) \<and> bs_data mix' = (bs_data mix)(i \<mapsto> d))) \<and>
    (bs_offset mix i \<noteq> None \<longrightarrow> buffer_share_add_id junk mix i d = Some (- EEXIST, mix))"
proof (cases "bs_lookup (wr_idx mix) i")
  case None
  then show ?thesis
    using add_id_effect [OF assms(1) _ None, of junk d] assms(2)
    by (fastforce simp: bs_offset_def bs_data_def fun_eq_iff)
next
  case (Some o')
  then show ?thesis
    by (simp add: bs_offset_def buffer_share_add_id_def find_id_None)
qed

theorem buffer_share_add_id_spec_witness:
  "\<exists>mix'. buffer_share_add_id (\<lambda>_. \<lparr>used = True, dev_id = 1, offset = 2, data = None\<rparr>)
      sample_share 1 (Some ()) = Some (0, mix') \<and> bs_offset mix' = (bs_offset sample_share)(1 \<mapsto> 0)"
  using buffer_share_add_id_spec [OF sample_share_inv, of 1
      "\<lambda>_. \<lparr>used = True, dev_id = 1, offset = 2, data = None\<rparr>" "Some ()"]
  by (auto simp: sample_share_def bs_offset_def)

text \<open>Removing a device forgets exactly that device and reports an unknown number.\<close>

theorem buffer_share_rm_id_spec:
  assumes "bs_inv mix"
  shows "fst (buffer_share_rm_id mix i) = (if bs_offset mix i = None then - ENOENT else 0) \<and>
    bs_offset (snd (buffer_share_rm_id mix i)) = (bs_offset mix)(i := None) \<and>
    bs_data (snd (buffer_share_rm_id mix i)) = (bs_data mix)(i := None)"
  using rm_id_lookup [OF assms, of i] by (auto simp: bs_offset_def bs_data_def fun_eq_iff)

theorem buffer_share_rm_id_spec_witness:
  "bs_offset (snd (buffer_share_rm_id sample_share 5)) = (bs_offset sample_share)(5 := None)"
  using buffer_share_rm_id_spec [OF sample_share_inv, of 5] by simp

definition bs_run :: "share_op list \<Rightarrow> 'd buffer_share \<Rightarrow> (u32 \<times> 'd buffer_share) option" where
  "bs_run = share_run bs_ready (\<lambda>mix i d. snd (buffer_share_offset_update mix i d))
     buffer_share_get_new_write_point"


lemma sample_share_run:
  "bs_run [Commit, Advance 5 40] sample_share =
     Some (100, \<lparr>buf_sz = 480, id_sz = 3, wr_idx =
       [\<lparr>used = False, dev_id = 9, offset = - 93, data = None\<rparr>,
        \<lparr>used = True, dev_id = 5, offset = 60, data = Some ()\<rparr>,
        \<lparr>used = True, dev_id = 6, offset = 0, data = Some ()\<rparr>]\<rparr>)"
  by (simp add: bs_run_def bs_ready_def sample_share_def buffer_share_get_new_write_point_def
      buffer_share_offset_update_def Let_def)


text \<open>A new write point is the offset of the slowest device: no attached device is
  behind it, some device is exactly at it and is at offset 0 afterwards, and it is at most the
  buffer size; with no device attached the point does not move.\<close>

theorem buffer_share_new_write_point_spec:
  assumes "bs_inv mix"
  shows "(bs_ready mix \<longrightarrow>
      (\<forall>k x. bs_offset mix k = Some x \<longrightarrow> fst (buffer_share_get_new_write_point mix) \<le> x) \<and>
      (\<exists>k. bs_offset mix k = Some (fst (buffer_share_get_new_write_point mix)) \<and>
        bs_offset (snd (buffer_share_get_new_write_point mix)) k = Some 0)) \<and>
    fst (buffer_share_get_new_write_point mix) \<le> buf_sz mix \<and>
    (bs_users mix = {} \<longrightarrow> fst (buffer_share_get_new_write_point mix) = 0)"
proof -
  have "bs_users mix = {} \<Longrightarrow> min_written_loop (buf_sz mix + 1) (wr_idx mix) = buf_sz mix + 1"
    using min_written_loop_attained [of "buf_sz mix + 1" "wr_idx mix"] assms
    by (auto simp: bs_users_def bs_offset_def bs_inv_def bs_lookup_None)
  then have "bs_users mix = {} \<Longrightarrow> fst (buffer_share_get_new_write_point mix) = 0"
    using word_less_Suc [of "buf_sz mix"] assms
    by (simp add: buffer_share_get_new_write_point_def Let_def bs_inv_def)
  moreover have "fst (buffer_share_get_new_write_point mix) \<le> buf_sz mix"
    by (auto simp: buffer_share_get_new_write_point_def Let_def)
  moreover have "bs_ready mix \<Longrightarrow>
      \<exists>k. bs_offset mix k = Some (fst (buffer_share_get_new_write_point mix)) \<and>
        bs_offset (snd (buffer_share_get_new_write_point mix)) k = Some 0"
    using bs.commit_slowest [OF assms] bs.commit_offs [OF assms] by fastforce
  ultimately show ?thesis
    using bs.commit_least [OF assms] by blast
qed

theorem buffer_share_new_write_point_spec_witness:
  "fst (buffer_share_get_new_write_point sample_share) \<le> buf_sz sample_share \<and>
    (\<exists>k. bs_offset (snd (buffer_share_get_new_write_point sample_share)) k = Some 0)"
  using buffer_share_new_write_point_spec [OF sample_share_inv]
  by (auto simp: sample_share_def bs_ready_def)

end
