(* ===== verification/Cras_Types.thy ===== *)
theory Cras_Types
  imports CRAS_Prelude
begin

text \<open>
  \<^verbatim>\<open>common/cras_types.h\<close>: identifiers of nodes and streams, and stream directions.  An enumeration
  whose value a client sends is a \<open>u32\<close>, since nothing bounds it.
\<close>

abbreviation NO_DEVICE :: u32 where "NO_DEVICE \<equiv> 0"

abbreviation CRAS_STREAM_OUTPUT :: u32 where "CRAS_STREAM_OUTPUT \<equiv> 0"
abbreviation CRAS_STREAM_INPUT :: u32 where "CRAS_STREAM_INPUT \<equiv> 1"
abbreviation CRAS_STREAM_UNDEFINED :: u32 where "CRAS_STREAM_UNDEFINED \<equiv> 2"
abbreviation CRAS_STREAM_POST_MIX_PRE_DSP :: u32 where "CRAS_STREAM_POST_MIX_PRE_DSP \<equiv> 3"
abbreviation CRAS_NUM_DIRECTIONS :: nat where "CRAS_NUM_DIRECTIONS \<equiv> 4"
abbreviation CRAS_STREAM_NUM_TYPES :: u32 where "CRAS_STREAM_NUM_TYPES \<equiv> 6"

abbreviation BULK_AUDIO_OK :: u32 where "BULK_AUDIO_OK \<equiv> 1"
abbreviation USE_DEV_TIMING :: u32 where "USE_DEV_TIMING \<equiv> 2"
abbreviation TRIGGER_ONLY :: u32 where "TRIGGER_ONLY \<equiv> 4"
abbreviation SERVER_ONLY :: u32 where "SERVER_ONLY \<equiv> 8"

definition cras_validate_connection_type :: "u32 \<Rightarrow> bool" where
  "cras_validate_connection_type t \<longleftrightarrow> t < 5"

definition cras_stream_direction_mask :: "u32 \<Rightarrow> int" where
  "cras_stream_direction_mask dir = (if unat dir < CRAS_NUM_DIRECTIONS then 2 ^ unat dir else - EINVAL)"

definition cras_stream_uses_output_hw :: "u32 \<Rightarrow> bool" where
  "cras_stream_uses_output_hw dir \<longleftrightarrow> dir = CRAS_STREAM_OUTPUT"

definition cras_stream_uses_input_hw :: "u32 \<Rightarrow> bool" where
  "cras_stream_uses_input_hw dir \<longleftrightarrow> dir = CRAS_STREAM_INPUT"

definition cras_stream_has_input :: "u32 \<Rightarrow> bool" where
  "cras_stream_has_input dir \<longleftrightarrow> dir \<noteq> CRAS_STREAM_OUTPUT"

definition cras_stream_is_loopback :: "u32 \<Rightarrow> bool" where
  "cras_stream_is_loopback dir \<longleftrightarrow> dir = CRAS_STREAM_POST_MIX_PRE_DSP"

definition cras_make_node_id :: "u32 \<Rightarrow> u32 \<Rightarrow> u64" where
  "cras_make_node_id dev_index node_index = (push_bit 32 (ucast dev_index)) OR ucast node_index"

definition dev_index_of :: "u64 \<Rightarrow> u32" where
  "dev_index_of i = ucast (drop_bit 32 i)"

definition node_index_of :: "u64 \<Rightarrow> u32" where
  "node_index_of i = ucast i"

definition cras_get_stream_id :: "u16 \<Rightarrow> u16 \<Rightarrow> u32" where
  "cras_get_stream_id client_id stream_id =
     (push_bit 16 (ucast client_id AND 0xffff)) OR (ucast stream_id AND 0xffff)"

definition cras_valid_stream_id :: "u32 \<Rightarrow> u16 \<Rightarrow> bool" where
  "cras_valid_stream_id stream_id client_id \<longleftrightarrow> (drop_bit 16 stream_id XOR ucast client_id) = 0"

lemma stream_id_fields:
  "drop_bit 16 (cras_get_stream_id c s) = ucast c" "ucast (cras_get_stream_id c s) = s"
proof -
  have m: "(0xffff :: u32) = mask 16" by (simp add: mask_eq_exp_minus_1)
  show "drop_bit 16 (cras_get_stream_id c s) = ucast c" "ucast (cras_get_stream_id c s) = s"
    unfolding cras_get_stream_id_def m
    by (auto simp: bit_eq_iff bit_simps dest: bit_imp_le_length)
qed

lemma xor_eq_0_iff_eq: "a XOR b = 0 \<longleftrightarrow> a = b" for a b :: "'a::len word"
proof
  assume "a XOR b = 0"
  then have "(a XOR b) XOR b = b" by simp
  then show "a = b" by (simp add: xor.assoc)
qed simp

lemma ucast_u16_u32_inject: "(ucast (a :: u16) :: u32) = ucast b \<longleftrightarrow> a = b"
  by (metis ucast_up_ucast_id is_up len_num1 len_bit0 mult_2 le_add1 ucast_id)

text \<open>A node identifier holds the indices of its device and its node, and
  identifiers of different nodes differ.\<close>

theorem node_id_round_trip:
  "dev_index_of (cras_make_node_id d n) = d \<and> node_index_of (cras_make_node_id d n) = n \<and>
   cras_make_node_id (dev_index_of i) (node_index_of i) = i"
  by (auto simp: dev_index_of_def node_index_of_def cras_make_node_id_def bit_eq_iff bit_simps
      dest: bit_imp_le_length)

text \<open>A stream identifier is valid for exactly the client in its upper half, and the
  identifiers a client makes for its own streams are distinct.\<close>

theorem stream_id_valid:
  "cras_valid_stream_id (cras_get_stream_id c s) c' = (c' = c) \<and>
   (cras_get_stream_id c s = cras_get_stream_id c' s') = (c = c' \<and> s = s')"
proof
  show "cras_valid_stream_id (cras_get_stream_id c s) c' = (c' = c)"
    by (auto simp: cras_valid_stream_id_def stream_id_fields ucast_u16_u32_inject xor_eq_0_iff_eq)
  show "(cras_get_stream_id c s = cras_get_stream_id c' s') = (c = c' \<and> s = s')"
    by (metis stream_id_fields ucast_u16_u32_inject)
qed

end
