(* ===== verification/Timespec.thy ===== *)
theory Timespec
  imports CRAS_Prelude "HOL-Library.Signed_Division"
begin

text \<open>
  Times and frame counts: the inline functions of \<^verbatim>\<open>common/cras_util.h\<close> and
  \<^verbatim>\<open>server/polled_interval_checker.c\<close>.  The fields of a \<^verbatim>\<open>struct timespec\<close> are \<^verbatim>\<open>long\<close>s, modelled
  as integers; C's division of signed integers truncates towards zero, which is \<open>sdiv\<close> and \<open>smod\<close>.
  A call of \<^verbatim>\<open>clock_gettime\<close> is an argument \<open>now\<close>.
\<close>

section \<open>Times\<close>

datatype timespec = Timespec (tv_sec: int) (tv_nsec: int)

text \<open>The order of the structure is the order in time of normalised times, so that the
  library's linear order applies to it.\<close>

instantiation timespec :: linorder
begin

definition less_timespec :: "timespec \<Rightarrow> timespec \<Rightarrow> bool" where
  "less_timespec a b \<longleftrightarrow> tv_sec a < tv_sec b \<or> tv_sec a = tv_sec b \<and> tv_nsec a < tv_nsec b"

definition less_eq_timespec :: "timespec \<Rightarrow> timespec \<Rightarrow> bool" where
  "less_eq_timespec a b \<longleftrightarrow> tv_sec a < tv_sec b \<or> tv_sec a = tv_sec b \<and> tv_nsec a \<le> tv_nsec b"

instance
  by intro_classes
    (auto simp: less_timespec_def less_eq_timespec_def intro: timespec.expand)

end

definition ts_wf :: "timespec \<Rightarrow> bool" where
  "ts_wf t \<longleftrightarrow> 0 \<le> tv_nsec t \<and> tv_nsec t < 1000000000"

definition ts_ns :: "timespec \<Rightarrow> int" where
  "ts_ns t = tv_sec t * 1000000000 + tv_nsec t"

definition subtract_timespecs :: "timespec \<Rightarrow> timespec \<Rightarrow> timespec" where
  "subtract_timespecs fin beg =
     (let s = tv_sec fin - tv_sec beg; n = tv_nsec fin - tv_nsec beg
      in if s > 0 \<and> n < 0 then Timespec (s - 1) (n + 1000000000)
         else if s < 0 \<and> n > 0 then Timespec (s + 1) (n - 1000000000)
         else Timespec s n)"

function normalize_nsec :: "int \<Rightarrow> int \<Rightarrow> timespec" where
  "normalize_nsec s n = (if n \<ge> 1000000000 then normalize_nsec (s + 1) (n - 1000000000) else Timespec s n)"
  by auto
termination
  by (relation "measure (\<lambda>(s, n). nat n)") auto

declare normalize_nsec.simps [simp del]

definition add_timespecs :: "timespec \<Rightarrow> timespec \<Rightarrow> timespec" where
  "add_timespecs a b = normalize_nsec (tv_sec a + tv_sec b) (tv_nsec a + tv_nsec b)"

definition timespec_after :: "timespec \<Rightarrow> timespec \<Rightarrow> bool" where
  "timespec_after a b \<longleftrightarrow>
     tv_sec a > tv_sec b \<or> (tv_sec a = tv_sec b \<and> tv_nsec a > tv_nsec b)"

text \<open>\<^verbatim>\<open>struct timeval\<close> has seconds and microseconds.\<close>

definition timeval_after :: "int \<times> int \<Rightarrow> int \<times> int \<Rightarrow> bool" where
  "timeval_after a b \<longleftrightarrow> fst a > fst b \<or> (fst a = fst b \<and> snd a > snd b)"

definition timespec_to_ms :: "timespec \<Rightarrow> u32" where
  "timespec_to_ms t = of_int (tv_sec t * 1000 + (tv_nsec t + 999999) sdiv 1000000)"

definition ms_to_timespec :: "int \<Rightarrow> timespec" where
  "ms_to_timespec ms = Timespec (ms sdiv 1000) ((ms smod 1000) * 1000000)"

text \<open>The argument is a pointer, which may be \<^verbatim>\<open>NULL\<close>.\<close>

definition timespec_is_zero :: "timespec option \<Rightarrow> bool" where
  "timespec_is_zero t = (case t of None \<Rightarrow> False | Some t \<Rightarrow> tv_sec t = 0 \<and> tv_nsec t = 0)"

definition timespec_is_nonzero :: "timespec option \<Rightarrow> bool" where
  "timespec_is_nonzero t = (case t of None \<Rightarrow> False
     | Some t \<Rightarrow> tv_sec t \<noteq> 0 \<or> (tv_sec t = 0 \<and> tv_nsec t \<noteq> 0))"

section \<open>Frames\<close>

definition cras_frames_at_rate :: "u64 \<Rightarrow> u64 \<Rightarrow> u64 \<Rightarrow> u64" where
  "cras_frames_at_rate orig_rate orig_frames act_rate =
     (orig_frames * act_rate + orig_rate - 1) div orig_rate"

definition cras_frames_to_time :: "u32 \<Rightarrow> u32 \<Rightarrow> timespec" where
  "cras_frames_to_time frames rate =
     Timespec (uint (frames div rate))
       (uint ((ucast (frames mod rate) :: u64) * 1000000000 div ucast rate))"

definition cras_time_to_frames :: "timespec \<Rightarrow> u32 \<Rightarrow> u64" where
  "cras_time_to_frames t rate =
     of_int (tv_nsec t) * ucast rate div 1000000000 + of_int (uint rate * tv_sec t)"

definition cras_frames_to_ms :: "u32 \<Rightarrow> u32 \<Rightarrow> u32" where
  "cras_frames_to_ms frames rate = 1000 * frames div rate"

definition cras_frames_since_time :: "timespec \<Rightarrow> timespec \<Rightarrow> u32 \<Rightarrow> u64" where
  "cras_frames_since_time now beg rate =
     (if \<not> timespec_after now beg then 0
      else cras_time_to_frames (subtract_timespecs now beg) rate)"

definition cras_frames_until_time :: "timespec \<Rightarrow> timespec \<Rightarrow> u32 \<Rightarrow> u64" where
  "cras_frames_until_time now fin rate =
     (if \<not> timespec_after fin now then 0
      else cras_time_to_frames (subtract_timespecs fin now) rate)"

section \<open>Polled intervals\<close>

record polled_interval =
  last_interval_start_ts :: timespec
  interval_sec :: int

definition get_sec_since_last_active :: "timespec \<Rightarrow> timespec \<Rightarrow> int" where
  "get_sec_since_last_active now last_active_ts = tv_sec (subtract_timespecs now last_active_ts)"

definition pic_polled_interval_create :: "timespec \<Rightarrow> int \<Rightarrow> polled_interval" where
  "pic_polled_interval_create now secs = \<lparr>last_interval_start_ts = now, interval_sec = secs\<rparr>"

definition pic_interval_elapsed :: "timespec \<Rightarrow> polled_interval \<Rightarrow> bool" where
  "pic_interval_elapsed now p \<longleftrightarrow>
     get_sec_since_last_active now (last_interval_start_ts p) \<ge> interval_sec p"

definition pic_interval_reset :: "timespec \<Rightarrow> polled_interval \<Rightarrow> polled_interval" where
  "pic_interval_reset now p = p\<lparr>last_interval_start_ts := now\<rparr>"

section \<open>Lemmas\<close>

lemma timespec_after_less: "timespec_after a b \<longleftrightarrow> b < a"
  by (auto simp: timespec_after_def less_timespec_def)

lemma ts_less_ns:
  assumes "ts_wf a" "ts_wf b"
  shows "a < b \<longleftrightarrow> ts_ns a < ts_ns b" "a \<le> b \<longleftrightarrow> ts_ns a \<le> ts_ns b"
  using assms by (auto simp: less_timespec_def less_eq_timespec_def ts_wf_def ts_ns_def)

lemma ts_ns_inject: "ts_wf a \<Longrightarrow> ts_wf b \<Longrightarrow> ts_ns a = ts_ns b \<Longrightarrow> a = b"
  by (intro antisym) (simp_all add: ts_less_ns)

lemma normalize_nsec_ns:
  assumes "0 \<le> n"
  shows "ts_wf (normalize_nsec s n) \<and> ts_ns (normalize_nsec s n) = s * 1000000000 + n"
  using assms
proof (induction s n rule: normalize_nsec.induct)
  case (1 s n)
  then show ?case
    by (subst (1 2) normalize_nsec.simps) (auto simp: ts_wf_def ts_ns_def)
qed

lemma subtract_timespecs_ns:
  "ts_ns (subtract_timespecs a b) = ts_ns a - ts_ns b"
  by (auto simp: subtract_timespecs_def ts_ns_def Let_def algebra_simps)

lemma add_timespecs_ns:
  assumes "0 \<le> tv_nsec a + tv_nsec b"
  shows "ts_wf (add_timespecs a b)" "ts_ns (add_timespecs a b) = ts_ns a + ts_ns b"
  using normalize_nsec_ns [OF assms, of "tv_sec a + tv_sec b"]
  by (auto simp: add_timespecs_def ts_ns_def)

lemma sdiv_nonneg: "0 \<le> a \<Longrightarrow> 0 < b \<Longrightarrow> a sdiv b = a div b" for a b :: int
  by (cases "a = 0") (simp_all add: signed_divide_int_def sgn_1_pos)

lemma smod_nonneg: "0 \<le> a \<Longrightarrow> 0 < b \<Longrightarrow> a smod b = a mod b" for a b :: int
  by (cases "a = 0") (simp_all add: signed_modulo_int_def sdiv_nonneg minus_div_mult_eq_mod sgn_1_pos)

lemma frames_to_time_nat:
  assumes "rate \<noteq> 0"
  shows "tv_sec (cras_frames_to_time frames rate) = int (unat frames div unat rate)"
    "tv_nsec (cras_frames_to_time frames rate) =
      int (unat frames mod unat rate * 1000000000 div unat rate)"
proof -
  have "unat (frames mod rate) * 1000000000 < 2 ^ 64"
    by (rule le_less_trans [OF mult_le_mono1 [OF unat_u32_le]]) simp
  then have "unat ((ucast (frames mod rate) :: u64) * 1000000000) = unat (frames mod rate) * 1000000000"
    by (subst unat_mult_small) simp_all
  then have "unat ((ucast (frames mod rate) :: u64) * 1000000000 div ucast rate) =
      unat frames mod unat rate * 1000000000 div unat rate"
    by (simp add: unat_div unat_mod)
  then show "tv_nsec (cras_frames_to_time frames rate) =
      int (unat frames mod unat rate * 1000000000 div unat rate)"
    by (simp add: cras_frames_to_time_def uint_nat del: of_nat_unat)
  show "tv_sec (cras_frames_to_time frames rate) = int (unat frames div unat rate)"
    by (simp add: cras_frames_to_time_def uint_nat unat_div del: of_nat_unat)
qed

lemma time_to_frames_nat:
  assumes "0 \<le> tv_sec t" "0 \<le> tv_nsec t" "tv_nsec t < 1000000000"
    and "nat (tv_sec t) * unat rate < 2 ^ 63"
  shows "unat (cras_time_to_frames t rate) =
    nat (tv_nsec t) * unat rate div 1000000000 + unat rate * nat (tv_sec t)"
proof -
  obtain s n where sn: "tv_sec t = int s" "tv_nsec t = int n"
    using assms(1,2) by (metis nonneg_int_cases)
  have n: "n < 1000000000" using assms(3) sn by simp
  have "n * unat rate \<le> 1000000000 * 4294967295"
    using n by (intro mult_le_mono) simp_all
  then have nr: "n * unat rate < 2 ^ 63" by (rule le_less_trans) simp
  have "unat (of_nat n :: u64) = n" using n by (intro unat_of_nat_u64) simp
  then have a: "unat ((of_nat n :: u64) * ucast rate) = n * unat rate"
    using nr by (subst unat_mult_small) simp_all
  have b: "unat (of_nat (unat rate * s) :: u64) = unat rate * s"
    using assms(4) sn by (intro unat_of_nat_u64) (simp add: mult.commute)
  have "n * unat rate div 1000000000 < 2 ^ 63"
    using nr by (rule le_less_trans [OF div_le_dividend])
  then have "unat ((of_nat n :: u64) * ucast rate div 1000000000 + of_nat (unat rate * s)) =
      n * unat rate div 1000000000 + unat rate * s"
    using assms(4) sn a b by (subst unat_add_small) (simp_all add: unat_div mult.commute)
  moreover have "(of_int (uint rate * tv_sec t) :: u64) = of_nat (unat rate * s)"
    by (simp add: sn)
  ultimately show ?thesis
    by (simp add: cras_time_to_frames_def sn)
qed

lemma frames_time_round_trip_nat:
  fixes m r :: nat
  assumes "m < r" "r \<le> 1000000000"
  shows "m * 1000000000 div r * r div 1000000000 \<le> m"
    "m \<le> m * 1000000000 div r * r div 1000000000 + 1" "m * 1000000000 div r < 1000000000"
proof -
  let ?n = "m * 1000000000 div r"
  have aux: "k \<le> x div 1000000000 + 1" if "k * 1000000000 < x + 1000000000" for k x :: nat
  proof -
    define q where "q = x div 1000000000"
    have "x < 1000000000 + q * 1000000000"
      unfolding q_def by (rule dividend_less_div_times) simp
    with that have "k \<le> q + 1" by linarith
    then show ?thesis by (simp add: q_def)
  qed
  have le: "?n * r \<le> m * 1000000000" by simp
  then have "?n * r div 1000000000 \<le> m * 1000000000 div 1000000000" by (rule div_le_mono)
  then show "?n * r div 1000000000 \<le> m" by simp
  have "m * 1000000000 < (?n + 1) * r"
    using assms(1) by (simp add: dividend_less_div_times add.commute)
  then have "m * 1000000000 < ?n * r + 1000000000" using assms(2) by simp
  then show "m \<le> ?n * r div 1000000000 + 1"
    by (rule aux)
  show "?n < 1000000000"
    using assms(1) by (simp add: div_less_iff_less_mult)
qed

section \<open>Properties\<close>

text \<open>\<^verbatim>\<open>subtract_timespecs\<close> of two normalised times is their exact difference in
  nanoseconds, with seconds and nanoseconds of the same sign; it is a normalised time when the
  first time is not before the second.\<close>

theorem subtract_timespecs_spec:
  assumes "ts_wf fin" "ts_wf beg"
  shows "ts_ns (subtract_timespecs fin beg) = ts_ns fin - ts_ns beg \<and>
    \<bar>tv_nsec (subtract_timespecs fin beg)\<bar> < 1000000000 \<and>
    0 \<le> tv_sec (subtract_timespecs fin beg) * tv_nsec (subtract_timespecs fin beg) \<and>
    (beg \<le> fin \<longrightarrow> ts_wf (subtract_timespecs fin beg))"
proof -
  have "0 \<le> tv_sec (subtract_timespecs fin beg) * tv_nsec (subtract_timespecs fin beg)"
    using assms by (auto simp: subtract_timespecs_def Let_def ts_wf_def zero_le_mult_iff)
  then show ?thesis
    using assms by (auto simp: subtract_timespecs_ns)
      (auto simp: subtract_timespecs_def Let_def ts_wf_def less_eq_timespec_def)
qed

theorem subtract_timespecs_spec_witness:
  "ts_ns (subtract_timespecs (Timespec 5 100) (Timespec 3 200)) = 1999999900 \<and>
   ts_wf (subtract_timespecs (Timespec 5 100) (Timespec 3 200))"
  using subtract_timespecs_spec [of "Timespec 5 100" "Timespec 3 200"]
  by (simp add: ts_wf_def ts_ns_def less_eq_timespec_def)

text \<open>A frame count converted to a time and back loses at most one frame and gains
  none, for every rate up to 1 GHz, and the time is normalised.\<close>

theorem frames_time_round_trip:
  assumes "rate \<noteq> 0" "unat rate \<le> 1000000000"
  shows "ts_wf (cras_frames_to_time frames rate) \<and>
    unat (cras_time_to_frames (cras_frames_to_time frames rate) rate) \<le> unat frames \<and>
    unat frames \<le> unat (cras_time_to_frames (cras_frames_to_time frames rate) rate) + 1"
proof -
  let ?t = "cras_frames_to_time frames rate" and ?r = "unat rate" and ?f = "unat frames"
  have r: "0 < ?r" using assms(1) by (simp add: unat_gt_0)
  note T = frames_to_time_nat [OF assms(1), of frames]
  note N = frames_time_round_trip_nat [OF mod_less_divisor [OF r] assms(2), of ?f]
  have "?f div ?r * ?r \<le> ?f" by simp
  also have "\<dots> < 2 ^ 63" by (rule less_trans [OF unat_u32_less]) simp
  finally have "unat (cras_time_to_frames ?t rate) =
      ?f mod ?r * 1000000000 div ?r * ?r div 1000000000 + ?r * (?f div ?r)"
    using N(3) by (subst time_to_frames_nat) (simp_all add: T)
  moreover have "?f = ?f mod ?r + ?r * (?f div ?r)" by simp
  ultimately show ?thesis
    using N T unfolding ts_wf_def by linarith
qed

theorem frames_time_round_trip_witness:
  "unat (100000 :: u32) \<le> unat (cras_time_to_frames (cras_frames_to_time 100000 44100) 44100) + 1"
  using frames_time_round_trip [of 44100 100000] by simp

lemma frames_at_rate_nat:
  assumes "orig_rate \<noteq> 0" "unat frames * unat act_rate + unat orig_rate < 2 ^ 64"
  shows "unat (cras_frames_at_rate orig_rate frames act_rate) =
    (unat frames * unat act_rate + unat orig_rate - 1) div unat orig_rate"
proof -
  have m: "unat (frames * act_rate) = unat frames * unat act_rate"
    using assms(2) by (intro unat_mult_small) simp
  have s: "unat (frames * act_rate + orig_rate) = unat frames * unat act_rate + unat orig_rate"
    using assms(2) m by (subst unat_add_small) simp_all
  have "1 \<le> unat orig_rate" using assms(1) by (simp add: unat_gt_0 Suc_leI)
  then have "unat (frames * act_rate + orig_rate - 1) = unat frames * unat act_rate + unat orig_rate - 1"
    using s by (subst unat_sub) (simp_all add: word_le_nat_alt)
  then show ?thesis by (simp add: cras_frames_at_rate_def unat_div)
qed

lemma ceil_div_least:
  fixes a b n :: nat
  assumes "0 < b"
  shows "(a + b - 1) div b \<le> n \<longleftrightarrow> a \<le> n * b"
proof -
  have "(a + b - 1) div b \<le> n \<longleftrightarrow> (a + b - 1) div b < Suc n" by (rule less_Suc_eq_le [symmetric])
  also have "\<dots> \<longleftrightarrow> a + b - 1 < Suc n * b" using assms by (rule div_less_iff_less_mult)
  also have "\<dots> \<longleftrightarrow> a \<le> n * b" using assms by auto
  finally show ?thesis .
qed

text \<open>\<^verbatim>\<open>cras_frames_at_rate\<close> rounds up: it is the least number of frames at the actual
  rate that lasts at least as long as the given frames at the original one.\<close>

theorem frames_at_rate_least:
  assumes "orig_rate \<noteq> 0" "unat frames * unat act_rate + unat orig_rate < 2 ^ 64"
  shows "unat (cras_frames_at_rate orig_rate frames act_rate) \<le> n \<longleftrightarrow>
    unat frames * unat act_rate \<le> n * unat orig_rate"
  unfolding frames_at_rate_nat [OF assms]
  by (rule ceil_div_least) (use assms(1) in \<open>simp add: unat_gt_0\<close>)

theorem frames_at_rate_least_witness:
  "unat (cras_frames_at_rate 44100 441 48000) \<le> 480 \<longleftrightarrow> (441 :: nat) * 48000 \<le> 480 * 44100"
  using frames_at_rate_least [of 44100 441 48000 480] by simp

text \<open>A polled interval has elapsed exactly when its number of whole seconds has passed
  since it was created or last reset.\<close>

theorem pic_elapsed_iff:
  assumes "ts_wf start" "ts_wf now" "start \<le> now"
  shows "(pic_interval_elapsed now (pic_interval_reset start p) \<longleftrightarrow>
      interval_sec p * 1000000000 \<le> ts_ns now - ts_ns start) \<and>
    (pic_interval_elapsed now (pic_polled_interval_create start secs) \<longleftrightarrow>
      secs * 1000000000 \<le> ts_ns now - ts_ns start)"
proof -
  define d where "d = subtract_timespecs now start"
  have "ts_wf d" "ts_ns d = ts_ns now - ts_ns start"
    using subtract_timespecs_ns assms
    by (auto simp: d_def subtract_timespecs_def Let_def ts_wf_def less_eq_timespec_def ts_ns_def)
  then have "k \<le> tv_sec d \<longleftrightarrow> k * 1000000000 \<le> ts_ns now - ts_ns start" for k
    by (auto simp: ts_wf_def ts_ns_def)
  then show ?thesis
    by (simp_all add: pic_interval_elapsed_def pic_interval_reset_def pic_polled_interval_create_def
        get_sec_since_last_active_def flip: d_def)
qed

theorem pic_elapsed_iff_witness:
  "\<not> pic_interval_elapsed (Timespec 12 5) (pic_polled_interval_create (Timespec 10 7) 2)"
  using pic_elapsed_iff [of "Timespec 10 7" "Timespec 12 5" undefined 2]
  by (simp add: ts_wf_def less_eq_timespec_def ts_ns_def)

end
