(* ===== verification/Timer.thy ===== *)
theory Timer
  imports Timespec
begin

text \<open>
  \<^verbatim>\<open>server/cras_tm.c\<close>: the timer manager of the main thread.  A timer is named by an identifier, its
  address; the doubly linked list of armed timers is a list.  A callback is code of another
  component: a function on the list of timers and on the rest of the server's state \<open>'w\<close>, which may
  cancel timers and arm new ones.
\<close>

record 'd cras_timer =
  timer_id :: nat
  timer_ts :: timespec
  cb_data :: 'd

record 'd cras_tm =
  timers :: "'d cras_timer list"

definition add_ms_ts :: "timespec \<Rightarrow> u32 \<Rightarrow> timespec" where
  "add_ms_ts t ms =
     (let (s, ms1) = (if ms \<ge> 1000 then (tv_sec t + uint (ms div 1000), ms mod 1000) else (tv_sec t, ms));
          n = tv_nsec t + uint ms1 * 1000000
      in if n \<ge> 1000000000 then Timespec (s + n sdiv 1000000000) (n smod 1000000000)
         else Timespec s n)"

definition timespec_sooner :: "timespec \<Rightarrow> timespec \<Rightarrow> bool" where
  "timespec_sooner a b \<longleftrightarrow>
     tv_sec a < tv_sec b \<or> (tv_sec a = tv_sec b \<and> tv_nsec a \<le> tv_nsec b)"

text \<open>\<open>addr\<close> is the result of \<^verbatim>\<open>calloc\<close>, \<open>None\<close> when it fails.\<close>

definition cras_tm_create_timer :: "nat option \<Rightarrow> timespec \<Rightarrow> 'd cras_tm \<Rightarrow> u32 \<Rightarrow> 'd \<Rightarrow>
    nat option \<times> 'd cras_tm" where
  "cras_tm_create_timer addr now tm ms d =
     (case addr of None \<Rightarrow> (None, tm)
      | Some a \<Rightarrow> (Some a, tm\<lparr>timers := timers tm @
          [\<lparr>timer_id = a, timer_ts = add_ms_ts now ms, cb_data = d\<rparr>]\<rparr>))"

definition cras_tm_cancel_timer :: "'d cras_tm \<Rightarrow> nat \<Rightarrow> 'd cras_tm" where
  "cras_tm_cancel_timer tm a = tm\<lparr>timers := filter (\<lambda>t. timer_id t \<noteq> a) (timers tm)\<rparr>"

definition cras_tm_init :: "'d cras_tm" where
  "cras_tm_init = \<lparr>timers = []\<rparr>"

definition cras_tm_deinit :: "'d cras_tm \<Rightarrow> 'd cras_tm" where
  "cras_tm_deinit tm = fold (\<lambda>t m. cras_tm_cancel_timer m (timer_id t)) (timers tm) tm"

definition cras_tm_get_next_timeout :: "timespec \<Rightarrow> 'd cras_tm \<Rightarrow> timespec option" where
  \<comment> \<open>\<open>None\<close> for the result 0, \<open>Some ts\<close> for the result 1 with \<^verbatim>\<open>*ts\<close> set\<close>
  "cras_tm_get_next_timeout now tm =
     (case timers tm of [] \<Rightarrow> None
      | t0 # _ \<Rightarrow>
          let m = fold (\<lambda>t m. if timespec_sooner (timer_ts t) m then timer_ts t else m)
                (timers tm) (timer_ts t0)
          in if timespec_sooner m now then Some (Timespec 0 0) else Some (subtract_timespecs m now))"

text \<open>\<^verbatim>\<open>t->next\<close>: \<open>None\<close> when \<open>t\<close> has been freed, which the caller must not let happen.\<close>

fun next_timer :: "'d cras_timer list \<Rightarrow> nat \<Rightarrow> nat option option" where
  "next_timer [] a = None"
| "next_timer (t # ts) a =
     (if timer_id t = a then Some (case ts of [] \<Rightarrow> None | t' # _ \<Rightarrow> Some (timer_id t'))
      else next_timer ts a)"

fun call_callbacks_loop :: "('d cras_timer \<Rightarrow> 'd cras_tm \<times> 'w \<Rightarrow> 'd cras_tm \<times> 'w) \<Rightarrow> timespec \<Rightarrow>
    nat \<Rightarrow> nat option \<Rightarrow> 'd cras_tm \<times> 'w \<Rightarrow> ('d cras_tm \<times> 'w) option" where
  "call_callbacks_loop cb now 0 cur st = None"
| "call_callbacks_loop cb now (Suc fuel) None st = Some st"
| "call_callbacks_loop cb now (Suc fuel) (Some a) st =
     (case find (\<lambda>t. timer_id t = a) (timers (fst st)) of None \<Rightarrow> None
      | Some t \<Rightarrow>
          if timespec_sooner (timer_ts t) now
          then let (tm', w') = cb t st in
            case next_timer (timers tm') a of None \<Rightarrow> None
            | Some nx \<Rightarrow> call_callbacks_loop cb now fuel nx (cras_tm_cancel_timer tm' a, w')
          else case next_timer (timers (fst st)) a of None \<Rightarrow> None
            | Some nx \<Rightarrow> call_callbacks_loop cb now fuel nx st)"

definition cras_tm_call_callbacks :: "('d cras_timer \<Rightarrow> 'd cras_tm \<times> 'w \<Rightarrow> 'd cras_tm \<times> 'w) \<Rightarrow>
    timespec \<Rightarrow> nat \<Rightarrow> 'd cras_tm \<times> 'w \<Rightarrow> ('d cras_tm \<times> 'w) option" where
  "cras_tm_call_callbacks cb now fuel st =
     call_callbacks_loop cb now fuel
       (case timers (fst st) of [] \<Rightarrow> None | t # _ \<Rightarrow> Some (timer_id t)) st"

section \<open>Lemmas\<close>

lemma timespec_sooner_le: "timespec_sooner a b \<longleftrightarrow> a \<le> b"
  by (auto simp: timespec_sooner_def less_eq_timespec_def)

lemma add_ms_ts_ns:
  assumes "ts_wf t"
  shows "ts_wf (add_ms_ts t ms) \<and> ts_ns (add_ms_ts t ms) = ts_ns t + int (unat ms) * 1000000"
proof -
  define q where "q = unat ms div 1000"
  define m where "m = unat ms mod 1000"
  define n where "n = tv_nsec t + int m * 1000000"
  have "unat ms = q * 1000 + m" and m: "m < 1000" by (simp_all add: q_def m_def)
  then have ms: "int (unat ms) = int q * 1000 + int m" by (metis of_nat_add of_nat_mult of_nat_numeral)
  have n0: "0 \<le> n" using assms by (simp add: ts_wf_def n_def)
  have big: "add_ms_ts t ms = (if n \<ge> 1000000000
      then Timespec (tv_sec t + int q + n div 1000000000) (n mod 1000000000)
      else Timespec (tv_sec t + int q) n)"
  proof (cases "ms \<ge> 1000")
    case True
    then show ?thesis using n0
      by (simp add: add_ms_ts_def Let_def n_def q_def m_def sdiv_nonneg smod_nonneg uint_nat unat_div
          unat_mod del: of_nat_unat)
  next
    case False
    then have "unat ms < 1000" by (simp add: word_le_nat_alt)
    with False n0 show ?thesis
      by (simp add: add_ms_ts_def Let_def n_def q_def m_def sdiv_nonneg smod_nonneg uint_nat
          del: of_nat_unat)
  qed
  have "n div 1000000000 * 1000000000 + n mod 1000000000 = n" by simp
  with big n0 m ms show ?thesis
    using assms unfolding ts_wf_def ts_ns_def n_def by (auto simp: algebra_simps)
qed

lemma fold_min_sooner:
  "fold (\<lambda>t m. if timespec_sooner (timer_ts t) m then timer_ts t else m) ts m0 =
    Min (insert m0 (timer_ts ` set ts))"
proof (induction ts arbitrary: m0)
  case Nil
  then show ?case by simp
next
  case (Cons t ts)
  have "(if timespec_sooner (timer_ts t) m0 then timer_ts t else m0) = min (timer_ts t) m0"
    by (simp add: timespec_sooner_le min_def)
  then show ?case
    by (cases "ts = []") (simp_all add: Cons min.assoc min.left_commute min.commute)
qed

definition first_timer :: "'d cras_timer list \<Rightarrow> nat option" where
  "first_timer ts = (case ts of [] \<Rightarrow> None | t # _ \<Rightarrow> Some (timer_id t))"

definition distinct_ids :: "'d cras_timer list \<Rightarrow> bool" where
  "distinct_ids ts \<longleftrightarrow> distinct (map timer_id ts)"

definition expired :: "timespec \<Rightarrow> 'd cras_timer \<Rightarrow> bool" where
  "expired now t \<longleftrightarrow> timespec_sooner (timer_ts t) now"

lemma expired_le: "expired now = (\<lambda>t. timer_ts t \<le> now)"
  by (simp add: fun_eq_iff expired_def timespec_sooner_le)

lemma find_timer:
  "distinct_ids (pre @ t # rest) \<Longrightarrow> find (\<lambda>u. timer_id u = timer_id t) (pre @ t # rest) = Some t"
  by (induction pre) (auto simp: distinct_ids_def)

lemma next_timer_split:
  "distinct_ids (pre @ t # rest) \<Longrightarrow> next_timer (pre @ t # rest) (timer_id t) = Some (first_timer rest)"
  by (induction pre) (auto simp: distinct_ids_def first_timer_def)

lemma cancel_split:
  assumes "distinct_ids (pre @ t # rest)" "timers tm = pre @ t # rest"
  shows "timers (cras_tm_cancel_timer tm (timer_id t)) = pre @ rest"
proof -
  have "filter (\<lambda>u. timer_id u \<noteq> timer_id t) pre = pre" "filter (\<lambda>u. timer_id u \<noteq> timer_id t) rest = rest"
    using assms(1) by (auto simp: distinct_ids_def filter_id_conv image_iff)
  then show ?thesis by (simp add: cras_tm_cancel_timer_def assms(2))
qed

lemma length_filter_filter_le: "length (filter p (filter q xs)) \<le> length (filter p xs)"
  by (induction xs) auto

text \<open>What a callback may do to the list while the loop runs: cancel other timers, and append new
  ones that are not due yet.  It must not cancel the timer it is called for, which the loop frees.\<close>

definition good_callback :: "timespec \<Rightarrow> ('d cras_timer \<Rightarrow> 'd cras_tm \<times> 'w \<Rightarrow> 'd cras_tm \<times> 'w) \<Rightarrow> bool" where
  "good_callback now cb \<longleftrightarrow> (\<forall>t tm w. t \<in> set (timers tm) \<longrightarrow> distinct_ids (timers tm) \<longrightarrow>
     (\<exists>P new. timers (fst (cb t (tm, w))) = filter P (timers tm) @ new \<and> P t \<and>
        (\<forall>n \<in> set new. \<not> expired now n) \<and> distinct_ids (filter P (timers tm) @ new)))"

lemma call_callbacks_loop_total:
  assumes "good_callback now cb"
  shows "timers tm = pre @ rest \<Longrightarrow> distinct_ids (pre @ rest) \<Longrightarrow> \<forall>t \<in> set pre. \<not> expired now t \<Longrightarrow>
    \<exists>fuel tm' w'. call_callbacks_loop cb now fuel (first_timer rest) (tm, w) = Some (tm', w') \<and>
      distinct_ids (timers tm') \<and> (\<forall>t \<in> set (timers tm'). \<not> expired now t)"
proof (induction "(length (filter (expired now) rest), length rest)" arbitrary: tm pre rest w
    rule: wf_induct_rule [OF wf_lex_prod [OF wf_measure [of id] wf_measure [of id]]])
  case 1
  note IH = 1(1) and P = 1(2-4)
  show ?case
  proof (cases rest)
    case Nil
    with P show ?thesis
      by (intro exI [of _ 1] exI [of _ tm] exI [of _ w]) (simp add: first_timer_def)
  next
    case (Cons t rest')
    note fd = find_timer [of pre t rest', folded Cons]
    show ?thesis
    proof (cases "expired now t")
      case True
      obtain tm1 w1 where cb: "cb t (tm, w) = (tm1, w1)" by fastforce
      obtain Q new where Q: "timers tm1 = filter Q (timers tm) @ new" "Q t"
        "\<forall>n \<in> set new. \<not> expired now n" "distinct_ids (filter Q (timers tm) @ new)"
        using assms P cb Cons unfolding good_callback_def
        by (metis fst_conv in_set_conv_decomp)
      define pre1 where "pre1 = filter Q pre"
      define rest1 where "rest1 = filter Q rest' @ new"
      have tm1: "timers tm1 = pre1 @ t # rest1" and d1: "distinct_ids (pre1 @ t # rest1)"
        using Q P Cons by (simp_all add: pre1_def rest1_def)
      define tm2 where "tm2 = cras_tm_cancel_timer tm1 (timer_id t)"
      have tm2: "timers tm2 = pre1 @ rest1" "distinct_ids (pre1 @ rest1)"
        using cancel_split [OF d1 tm1] d1 by (auto simp: tm2_def distinct_ids_def)
      have "length (filter (expired now) rest1) \<le> length (filter (expired now) rest')"
        using Q(3) length_filter_filter_le [of "expired now" Q rest'] by (simp add: rest1_def)
      then have less: "((length (filter (expired now) rest1), length rest1),
          (length (filter (expired now) rest), length rest)) \<in> measure id <*lex*> measure id"
        using True Cons by simp
      have "\<forall>u \<in> set pre1. \<not> expired now u" using P(3) by (simp add: pre1_def)
      from IH [OF less tm2 this, of w1] obtain fuel tm' w' where
        r: "call_callbacks_loop cb now fuel (first_timer rest1) (tm2, w1) = Some (tm', w')"
          "distinct_ids (timers tm')" "\<forall>t \<in> set (timers tm'). \<not> expired now t" by blast
      have "call_callbacks_loop cb now (Suc fuel) (first_timer rest) (tm, w) = Some (tm', w')"
        using True fd P Cons cb r(1) next_timer_split [OF d1]
        by (simp add: first_timer_def expired_def tm1 flip: tm2_def)
      with r(2,3) show ?thesis by blast
    next
      case False
      have less: "((length (filter (expired now) rest'), length rest'),
          (length (filter (expired now) rest), length rest)) \<in> measure id <*lex*> measure id"
        using False Cons by simp
      have "timers tm = (pre @ [t]) @ rest'" "distinct_ids ((pre @ [t]) @ rest')"
        "\<forall>u \<in> set (pre @ [t]). \<not> expired now u"
        using P Cons False by simp_all
      from IH [OF less this, of w] obtain fuel tm' w' where
        r: "call_callbacks_loop cb now fuel (first_timer rest') (tm, w) = Some (tm', w')"
          "distinct_ids (timers tm')" "\<forall>t \<in> set (timers tm'). \<not> expired now t" by blast
      have "call_callbacks_loop cb now (Suc fuel) (first_timer rest) (tm, w) = Some (tm', w')"
        using False fd P Cons r(1) next_timer_split [of pre t rest']
        by (simp add: first_timer_def expired_def)
      with r(2,3) show ?thesis by blast
    qed
  qed
qed

lemma call_callbacks_loop_passive:
  assumes "\<And>t tm w. cb t (tm, w) = (tm, g t w)"
  shows "timers tm = pre @ rest \<Longrightarrow> distinct_ids (pre @ rest) \<Longrightarrow>
    call_callbacks_loop cb now (Suc (length rest)) (first_timer rest) (tm, w) =
      Some (tm\<lparr>timers := pre @ filter (\<lambda>t. \<not> expired now t) rest\<rparr>, fold g (filter (expired now) rest) w)"
proof (induction rest arbitrary: tm pre w)
  case Nil
  then show ?case by (simp add: first_timer_def)
next
  case (Cons t rest)
  note S = find_timer [OF Cons.prems(2)] next_timer_split [OF Cons.prems(2)]
  show ?case
  proof (cases "expired now t")
    case True
    let ?tm = "cras_tm_cancel_timer tm (timer_id t)"
    have "timers ?tm = pre @ rest" "distinct_ids (pre @ rest)"
      using cancel_split [OF Cons.prems(2,1)] Cons.prems(2) by (auto simp: distinct_ids_def)
    note IH = Cons.IH [OF this, of "g t w"]
    have "?tm\<lparr>timers := xs\<rparr> = tm\<lparr>timers := xs\<rparr>" for xs by (simp add: cras_tm_cancel_timer_def)
    with IH True S Cons.prems show ?thesis
      by (simp add: first_timer_def expired_def assms del: call_callbacks_loop.simps)
        (simp add: assms expired_def first_timer_def)
  next
    case False
    have "timers tm = (pre @ [t]) @ rest" "distinct_ids ((pre @ [t]) @ rest)"
      using Cons.prems by simp_all
    note IH = Cons.IH [OF this, of w]
    with False S Cons.prems show ?thesis
      by (simp add: first_timer_def expired_def)
  qed
qed

section \<open>Properties\<close>

text \<open>Claim C20.  \<^verbatim>\<open>cras_tm_call_callbacks\<close> returns, never touches a freed timer and leaves no timer
  armed whose time has come, also when callbacks cancel other timers or arm new ones.\<close>

theorem timer_callbacks_complete:
  assumes "good_callback now cb" "distinct_ids (timers tm)"
  shows "\<exists>fuel tm' w'. cras_tm_call_callbacks cb now fuel (tm, w) = Some (tm', w') \<and>
    distinct_ids (timers tm') \<and> (\<forall>t \<in> set (timers tm'). \<not> timer_ts t \<le> now)"
  using call_callbacks_loop_total [OF assms(1), of tm "[]" "timers tm" w] assms(2)
  by (simp add: cras_tm_call_callbacks_def first_timer_def expired_def timespec_sooner_le)

definition cancel_seven :: "'d cras_timer \<Rightarrow> 'd cras_tm \<times> nat list \<Rightarrow> 'd cras_tm \<times> nat list" where
  "cancel_seven t st = (if timer_id t = 7 then fst st else cras_tm_cancel_timer (fst st) 7,
     timer_id t # snd st)"

lemma cancel_seven_good: "good_callback now cancel_seven"
  unfolding good_callback_def
proof (intro allI impI)
  fix t :: "'a cras_timer" and tm :: "'a cras_tm" and w
  assume "t \<in> set (timers tm)" "distinct_ids (timers tm)"
  then show "\<exists>P new. timers (fst (cancel_seven t (tm, w))) = filter P (timers tm) @ new \<and> P t \<and>
        (\<forall>n \<in> set new. \<not> expired now n) \<and> distinct_ids (filter P (timers tm) @ new)"
    by (intro exI [of _ "\<lambda>u. timer_id t = 7 \<or> timer_id u \<noteq> 7"] exI [of _ "[]"])
      (auto simp: cancel_seven_def cras_tm_cancel_timer_def distinct_ids_def distinct_map
        intro: inj_on_subset)
qed

theorem timer_callbacks_complete_witness:
  "\<exists>fuel tm' w'. cras_tm_call_callbacks cancel_seven (Timespec 5 0) fuel
     (\<lparr>timers = [\<lparr>timer_id = 3, timer_ts = Timespec 4 0, cb_data = ()\<rparr>,
        \<lparr>timer_id = 7, timer_ts = Timespec 5 0, cb_data = ()\<rparr>]\<rparr>, []) = Some (tm', w') \<and>
    distinct_ids (timers tm') \<and> (\<forall>t \<in> set (timers tm'). \<not> timer_ts t \<le> Timespec 5 0)"
  by (rule timer_callbacks_complete [OF cancel_seven_good]) (simp add: distinct_ids_def)

text \<open>When callbacks leave the list of timers alone, exactly the timers that are due are
  called, in the order they were armed, and exactly the others stay armed.\<close>

theorem timer_callbacks_in_order:
  assumes "distinct_ids (timers tm)"
  shows "cras_tm_call_callbacks (\<lambda>t st. (fst st, g t (snd st))) now (Suc (length (timers tm))) (tm, w) =
    Some (tm\<lparr>timers := filter (\<lambda>t. now < timer_ts t) (timers tm)\<rparr>,
      fold g (filter (\<lambda>t. timer_ts t \<le> now) (timers tm)) w)"
  using call_callbacks_loop_passive [of "\<lambda>t st. (fst st, g t (snd st))" g tm "[]" "timers tm" now w] assms
  by (simp add: cras_tm_call_callbacks_def first_timer_def expired_le not_le
      del: call_callbacks_loop.simps)

theorem timer_callbacks_in_order_witness:
  "cras_tm_call_callbacks (\<lambda>t st. (fst st, timer_id t # snd st)) (Timespec 5 0) 3
     (\<lparr>timers = [\<lparr>timer_id = 3, timer_ts = Timespec 4 0, cb_data = ()\<rparr>,
        \<lparr>timer_id = 7, timer_ts = Timespec 6 0, cb_data = ()\<rparr>]\<rparr>, []) =
   Some (\<lparr>timers = [\<lparr>timer_id = 7, timer_ts = Timespec 6 0, cb_data = ()\<rparr>]\<rparr>, [3])"
  using timer_callbacks_in_order [of "\<lparr>timers = [\<lparr>timer_id = 3, timer_ts = Timespec 4 0, cb_data = ()\<rparr>,
        \<lparr>timer_id = 7, timer_ts = Timespec 6 0, cb_data = ()\<rparr>]\<rparr>" "\<lambda>t w. timer_id t # w" "Timespec 5 0" "[]"]
  by (simp add: distinct_ids_def less_timespec_def less_eq_timespec_def numeral_3_eq_3
      del: call_callbacks_loop.simps)

text \<open>\<^verbatim>\<open>cras_tm_get_next_timeout\<close> reports a timeout exactly when a timer is armed: the time
  until the earliest one is due, and zero when that has passed.\<close>

theorem timer_next_timeout_spec:
  assumes "ts_wf now" "\<forall>t \<in> set (timers tm). ts_wf (timer_ts t)"
  shows "(case cras_tm_get_next_timeout now tm of
      None \<Rightarrow> timers tm = []
    | Some d \<Rightarrow> timers tm \<noteq> [] \<and> ts_wf d \<and>
        ts_ns d = max 0 (Min (ts_ns ` timer_ts ` set (timers tm)) - ts_ns now))"
proof (cases "timers tm")
  case Nil
  then show ?thesis by (simp add: cras_tm_get_next_timeout_def)
next
  case (Cons t0 ts)
  let ?S = "timer_ts ` set (timers tm)"
  define m where "m = Min ?S"
  have fin: "finite ?S" "?S \<noteq> {}" using Cons by auto
  have "m \<in> ?S" and least: "\<forall>u \<in> ?S. m \<le> u" using fin by (auto simp: m_def)
  then have wf: "ts_wf m" "\<forall>u \<in> ?S. ts_wf u" using assms(2) by auto
  have mns: "Min (ts_ns ` ?S) = ts_ns m"
  proof (rule Min_eqI)
    show "finite (ts_ns ` ?S)" using fin by simp
    show "\<And>y. y \<in> ts_ns ` ?S \<Longrightarrow> ts_ns m \<le> y" using least wf ts_less_ns(2) by auto
    show "ts_ns m \<in> ts_ns ` ?S" using \<open>m \<in> ?S\<close> by simp
  qed
  have "insert (timer_ts t0) ?S = ?S" using Cons by auto
  then have f: "fold (\<lambda>t m. if timespec_sooner (timer_ts t) m then timer_ts t else m) (timers tm) (timer_ts t0) = m"
    by (simp only: fold_min_sooner m_def)
  have "now < m \<Longrightarrow> ts_wf (subtract_timespecs m now)"
    using wf assms(1) by (auto simp: subtract_timespecs_def Let_def ts_wf_def less_timespec_def)
  moreover have "cras_tm_get_next_timeout now tm =
      Some (if m \<le> now then Timespec 0 0 else subtract_timespecs m now)"
    using f Cons by (simp add: cras_tm_get_next_timeout_def timespec_sooner_le del: fold.simps)
  moreover have "ts_wf (Timespec 0 0)" "ts_ns (Timespec 0 0) = 0"
    by (simp_all add: ts_wf_def ts_ns_def)
  ultimately show ?thesis
    using mns ts_less_ns [OF wf(1) assms(1)] ts_less_ns(1) [OF assms(1) wf(1)] Cons
    by (simp add: subtract_timespecs_ns)
qed

theorem timer_next_timeout_spec_witness:
  "cras_tm_get_next_timeout (Timespec 5 0)
     \<lparr>timers = [\<lparr>timer_id = 3, timer_ts = Timespec 6 0, cb_data = ()\<rparr>]\<rparr> \<noteq> None"
  using timer_next_timeout_spec [of "Timespec 5 0"
      "\<lparr>timers = [\<lparr>timer_id = 3, timer_ts = Timespec 6 0, cb_data = ()\<rparr>]\<rparr>"]
  by (auto simp: ts_wf_def split: option.splits)

end
