(* ===== verification/System_State.thy ===== *)
theory System_State
  imports Cras_Types Timer
begin

text \<open>
  \<^verbatim>\<open>server/cras_system_state.c\<close>: volume, mutes, stream counts, sound cards, registered handlers and
  the ring of audio thread snapshots.  The structure exported to clients is part of the record.
  Notifications to observers are appended to \<open>notified\<close>.  Whether \<^verbatim>\<open>pthread_mutex_lock\<close> succeeds
  and what allocations return are arguments.
\<close>

section \<open>State\<close>

datatype notification =
    OutputVolume u32
  | OutputMute bool bool bool
  | CaptureMute bool bool
  | SuspendChanged int
  | NumActiveStreams u32 u32

abbreviation CRAS_MAX_SYSTEM_VOLUME :: u64 where "CRAS_MAX_SYSTEM_VOLUME \<equiv> 100"
abbreviation CRAS_MAX_AUDIO_THREAD_SNAPSHOTS :: nat where "CRAS_MAX_AUDIO_THREAD_SNAPSHOTS \<equiv> 10"

record board_config =
  cfg_output_buffer_size :: int
  cfg_aec_supported :: int
  cfg_aec_group_id :: int
  cfg_bt_wbs_enabled :: int

record ('h, 's) system_state =
  volume :: u32
  sys_mute :: bool
  user_mute :: bool
  mute_locked :: bool
  suspended :: int
  capture_mute :: bool
  capture_mute_locked :: bool
  min_volume_dBFS :: int
  max_volume_dBFS :: int
  num_streams_attached :: u32
  num_active_streams :: "u32 list"
  last_active_stream_time :: timespec
  update_count :: u32
  default_output_buffer_size :: int
  aec_supported :: int
  aec_group_id :: int
  bt_wbs_enabled :: bool
  bt_fix_a2dp_packet_size :: bool
  non_empty_status :: int
  cards :: "u64 list"
  select_handler :: "'h option"
  add_task_handler :: "'h option"
  snapshots :: "'s list"
  snapshot_pos :: nat
  exported_snapshots :: "'s list \<times> nat"
  notified :: "notification list"

definition notify :: "notification \<Rightarrow> ('h, 's) system_state \<Rightarrow> ('h, 's) system_state" where
  "notify n s = s\<lparr>notified := notified s @ [n]\<rparr>"

text \<open>The structure in shared memory starts as zero bytes; \<open>zero_snap\<close> is a zeroed snapshot.\<close>

definition cras_system_state_init :: "'s \<Rightarrow> board_config \<Rightarrow> ('h, 's) system_state" where
  "cras_system_state_init zero_snap b =
     \<lparr>volume = ucast CRAS_MAX_SYSTEM_VOLUME, sys_mute = False, user_mute = False, mute_locked = False,
      suspended = 0, capture_mute = False, capture_mute_locked = False,
      min_volume_dBFS = - 10000, max_volume_dBFS = 0, num_streams_attached = 0,
      num_active_streams = replicate CRAS_NUM_DIRECTIONS 0, last_active_stream_time = Timespec 0 0,
      update_count = 0, default_output_buffer_size = cfg_output_buffer_size b,
      aec_supported = cfg_aec_supported b, aec_group_id = cfg_aec_group_id b,
      bt_wbs_enabled = (cfg_bt_wbs_enabled b \<noteq> 0), bt_fix_a2dp_packet_size = False,
      non_empty_status = 0, cards = [], select_handler = None, add_task_handler = None,
      snapshots = replicate CRAS_MAX_AUDIO_THREAD_SNAPSHOTS zero_snap, snapshot_pos = 0,
      exported_snapshots = (replicate CRAS_MAX_AUDIO_THREAD_SNAPSHOTS zero_snap, 0), notified = []\<rparr>"

section \<open>Volume and mutes\<close>

definition cras_system_set_volume :: "u64 \<Rightarrow> ('h, 's) system_state \<Rightarrow> ('h, 's) system_state" where
  "cras_system_set_volume v s =
     (let s1 = s\<lparr>volume := ucast (min v CRAS_MAX_SYSTEM_VOLUME)\<rparr> in notify (OutputVolume (volume s1)) s1)"

definition cras_system_get_volume :: "('h, 's) system_state \<Rightarrow> u64" where
  "cras_system_get_volume s = ucast (volume s)"

definition cras_system_notify_mute :: "('h, 's) system_state \<Rightarrow> ('h, 's) system_state" where
  "cras_system_notify_mute s = notify (OutputMute (sys_mute s) (user_mute s) (mute_locked s)) s"

definition cras_system_get_mute :: "('h, 's) system_state \<Rightarrow> bool" where
  "cras_system_get_mute s \<longleftrightarrow> sys_mute s \<or> user_mute s"

definition cras_system_set_user_mute :: "int \<Rightarrow> ('h, 's) system_state \<Rightarrow> ('h, 's) system_state" where
  "cras_system_set_user_mute m s =
     (let current_mute = cras_system_get_mute s in
      if user_mute s = (m \<noteq> 0) then s
      else let s1 = s\<lparr>user_mute := (m \<noteq> 0)\<rparr>
        in if current_mute = (m \<noteq> 0 \<or> sys_mute s1) then s1 else cras_system_notify_mute s1)"

definition cras_system_set_mute :: "int \<Rightarrow> ('h, 's) system_state \<Rightarrow> ('h, 's) system_state" where
  "cras_system_set_mute m s =
     (let current_mute = cras_system_get_mute s in
      if mute_locked s then s
      else if sys_mute s = (m \<noteq> 0) then s
      else let s1 = s\<lparr>sys_mute := (m \<noteq> 0)\<rparr>
        in if current_mute = (m \<noteq> 0 \<or> user_mute s1) then s1 else cras_system_notify_mute s1)"

definition cras_system_set_mute_locked :: "int \<Rightarrow> ('h, 's) system_state \<Rightarrow> ('h, 's) system_state" where
  "cras_system_set_mute_locked l s =
     (if mute_locked s = (l \<noteq> 0) then s else s\<lparr>mute_locked := (l \<noteq> 0)\<rparr>)"

definition cras_system_get_user_mute :: "('h, 's) system_state \<Rightarrow> bool" where
  "cras_system_get_user_mute s = user_mute s"

definition cras_system_get_system_mute :: "('h, 's) system_state \<Rightarrow> bool" where
  "cras_system_get_system_mute s = sys_mute s"

definition cras_system_get_mute_locked :: "('h, 's) system_state \<Rightarrow> bool" where
  "cras_system_get_mute_locked s = mute_locked s"

definition cras_system_notify_capture_mute :: "('h, 's) system_state \<Rightarrow> ('h, 's) system_state" where
  "cras_system_notify_capture_mute s = notify (CaptureMute (capture_mute s) (capture_mute_locked s)) s"

definition cras_system_set_capture_mute :: "int \<Rightarrow> ('h, 's) system_state \<Rightarrow> ('h, 's) system_state" where
  "cras_system_set_capture_mute m s =
     (if capture_mute_locked s then s
      else cras_system_notify_capture_mute (s\<lparr>capture_mute := (m \<noteq> 0)\<rparr>))"

definition cras_system_set_capture_mute_locked :: "int \<Rightarrow> ('h, 's) system_state \<Rightarrow> ('h, 's) system_state" where
  "cras_system_set_capture_mute_locked l s =
     cras_system_notify_capture_mute (s\<lparr>capture_mute_locked := (l \<noteq> 0)\<rparr>)"

definition cras_system_get_capture_mute :: "('h, 's) system_state \<Rightarrow> bool" where
  "cras_system_get_capture_mute s = capture_mute s"

definition cras_system_get_capture_mute_locked :: "('h, 's) system_state \<Rightarrow> bool" where
  "cras_system_get_capture_mute_locked s = capture_mute_locked s"

definition cras_system_get_suspended :: "('h, 's) system_state \<Rightarrow> int" where
  "cras_system_get_suspended s = suspended s"

definition cras_system_set_suspended :: "int \<Rightarrow> ('h, 's) system_state \<Rightarrow> ('h, 's) system_state" where
  "cras_system_set_suspended x s = notify (SuspendChanged x) (s\<lparr>suspended := x\<rparr>)"

definition cras_system_set_volume_limits :: "int \<Rightarrow> int \<Rightarrow> ('h, 's) system_state \<Rightarrow> ('h, 's) system_state" where
  "cras_system_set_volume_limits mn mx s = s\<lparr>min_volume_dBFS := mn, max_volume_dBFS := mx\<rparr>"

definition cras_system_get_min_volume :: "('h, 's) system_state \<Rightarrow> int" where
  "cras_system_get_min_volume s = min_volume_dBFS s"

definition cras_system_get_max_volume :: "('h, 's) system_state \<Rightarrow> int" where
  "cras_system_get_max_volume s = max_volume_dBFS s"

definition cras_system_get_default_output_buffer_size :: "('h, 's) system_state \<Rightarrow> int" where
  "cras_system_get_default_output_buffer_size s = default_output_buffer_size s"

definition cras_system_get_aec_supported :: "('h, 's) system_state \<Rightarrow> int" where
  "cras_system_get_aec_supported s = aec_supported s"

definition cras_system_get_aec_group_id :: "('h, 's) system_state \<Rightarrow> int" where
  "cras_system_get_aec_group_id s = aec_group_id s"

definition cras_system_set_bt_wbs_enabled :: "bool \<Rightarrow> ('h, 's) system_state \<Rightarrow> ('h, 's) system_state" where
  "cras_system_set_bt_wbs_enabled e s = s\<lparr>bt_wbs_enabled := e\<rparr>"

definition cras_system_get_bt_wbs_enabled :: "('h, 's) system_state \<Rightarrow> bool" where
  "cras_system_get_bt_wbs_enabled s = bt_wbs_enabled s"

definition cras_system_set_bt_fix_a2dp_packet_size_enabled ::
    "bool \<Rightarrow> ('h, 's) system_state \<Rightarrow> ('h, 's) system_state" where
  "cras_system_set_bt_fix_a2dp_packet_size_enabled e s = s\<lparr>bt_fix_a2dp_packet_size := e\<rparr>"

definition cras_system_get_bt_fix_a2dp_packet_size_enabled :: "('h, 's) system_state \<Rightarrow> bool" where
  "cras_system_get_bt_fix_a2dp_packet_size_enabled s = bt_fix_a2dp_packet_size s"

section \<open>Cards and handlers\<close>

text \<open>A card is its index.  \<open>created\<close> and \<open>allocated\<close> say whether \<^verbatim>\<open>cras_alsa_card_create\<close> and
  \<^verbatim>\<open>calloc\<close> succeed; the argument is \<open>None\<close> for a null pointer.  The index of a card is unsigned, 32 bits.\<close>

definition cras_system_add_alsa_card :: "bool \<Rightarrow> bool \<Rightarrow> u32 option \<Rightarrow> ('h, 's) system_state \<Rightarrow>
    int \<times> ('h, 's) system_state" where
  "cras_system_add_alsa_card created allocated info s =
     (case info of None \<Rightarrow> (- EINVAL, s)
      | Some card_index \<Rightarrow>
          if list_ex (\<lambda>c. ucast card_index = c) (cards s) then (- EEXIST, s)
          else if \<not> created then (- ENOMEM, s)
          else if \<not> allocated then (- ENOMEM, s)
          else (0, s\<lparr>cards := cards s @ [ucast card_index]\<rparr>))"

definition cras_system_remove_alsa_card :: "u64 \<Rightarrow> ('h, 's) system_state \<Rightarrow> int \<times> ('h, 's) system_state" where
  "cras_system_remove_alsa_card i s =
     (if \<not> list_ex (\<lambda>c. i = c) (cards s) then (- EINVAL, s)
      else (0, s\<lparr>cards := remove1 i (cards s)\<rparr>))"

definition cras_system_alsa_card_exists :: "u32 \<Rightarrow> ('h, 's) system_state \<Rightarrow> bool" where
  "cras_system_alsa_card_exists i s \<longleftrightarrow> list_ex (\<lambda>c. ucast i = c) (cards s)"

definition cras_system_set_select_handler :: "'h \<Rightarrow> ('h, 's) system_state \<Rightarrow> int \<times> ('h, 's) system_state" where
  "cras_system_set_select_handler h s =
     (if select_handler s \<noteq> None then (- EEXIST, s) else (0, s\<lparr>select_handler := Some h\<rparr>))"

text \<open>\<open>call\<close> is the effect of calling the registered function.\<close>

definition cras_system_add_select_fd :: "('h \<Rightarrow> int) \<Rightarrow> ('h, 's) system_state \<Rightarrow> int" where
  "cras_system_add_select_fd call s =
     (case select_handler s of None \<Rightarrow> - EINVAL | Some h \<Rightarrow> call h)"

definition cras_system_set_add_task_handler :: "'h \<Rightarrow> ('h, 's) system_state \<Rightarrow> int \<times> ('h, 's) system_state" where
  "cras_system_set_add_task_handler h s =
     (if add_task_handler s \<noteq> None then (- EEXIST, s) else (0, s\<lparr>add_task_handler := Some h\<rparr>))"

definition cras_system_add_task :: "('h \<Rightarrow> int) \<Rightarrow> ('h, 's) system_state \<Rightarrow> int" where
  "cras_system_add_task call s =
     (case add_task_handler s of None \<Rightarrow> - EINVAL | Some h \<Rightarrow> call h)"

section \<open>Stream counts\<close>

definition cras_system_state_update_begin :: "bool \<Rightarrow> ('h, 's) system_state \<Rightarrow> ('h, 's) system_state option" where
  "cras_system_state_update_begin locked s =
     (if locked then Some (s\<lparr>update_count := update_count s + 1\<rparr>) else None)"

definition cras_system_state_update_complete :: "('h, 's) system_state \<Rightarrow> ('h, 's) system_state" where
  "cras_system_state_update_complete s = s\<lparr>update_count := update_count s + 1\<rparr>"

definition sum_active :: "u32 list \<Rightarrow> u32" where
  "sum_active xs = foldl (\<lambda>t i. t + xs ! i) 0 [0..<CRAS_NUM_DIRECTIONS]"

definition cras_system_state_stream_added :: "bool \<Rightarrow> u32 \<Rightarrow> ('h, 's) system_state \<Rightarrow> ('h, 's) system_state" where
  "cras_system_state_stream_added locked d s =
     (case cras_system_state_update_begin locked s of None \<Rightarrow> s
      | Some s1 \<Rightarrow>
          let s2 = s1\<lparr>num_active_streams := (num_active_streams s1)[unat d := num_active_streams s1 ! unat d + 1],
                num_streams_attached := num_streams_attached s1 + 1\<rparr>;
              s3 = cras_system_state_update_complete s2
          in notify (NumActiveStreams d (num_active_streams s3 ! unat d)) s3)"

definition cras_system_state_stream_removed :: "bool \<Rightarrow> timespec \<Rightarrow> u32 \<Rightarrow> ('h, 's) system_state \<Rightarrow>
    ('h, 's) system_state" where
  "cras_system_state_stream_removed locked now d s =
     (case cras_system_state_update_begin locked s of None \<Rightarrow> s
      | Some s1 \<Rightarrow>
          let total_active = sum_active (num_active_streams s1);
              s2 = (if total_active = 1 then s1\<lparr>last_active_stream_time := now\<rparr> else s1);
              s3 = s2\<lparr>num_active_streams := (num_active_streams s2)[unat d := num_active_streams s2 ! unat d - 1]\<rparr>;
              s4 = cras_system_state_update_complete s3
          in notify (NumActiveStreams d (num_active_streams s4 ! unat d)) s4)"

definition cras_system_state_get_active_streams :: "('h, 's) system_state \<Rightarrow> u32" where
  "cras_system_state_get_active_streams s = sum_active (num_active_streams s)"

definition cras_system_state_get_active_streams_by_direction :: "u32 \<Rightarrow> ('h, 's) system_state \<Rightarrow> u32" where
  "cras_system_state_get_active_streams_by_direction d s = num_active_streams s ! unat d"

definition cras_system_state_get_last_stream_active_time :: "('h, 's) system_state \<Rightarrow> timespec" where
  "cras_system_state_get_last_stream_active_time s = last_active_stream_time s"

definition cras_system_state_set_non_empty_status :: "int \<Rightarrow> ('h, 's) system_state \<Rightarrow> ('h, 's) system_state" where
  "cras_system_state_set_non_empty_status x s = s\<lparr>non_empty_status := x\<rparr>"

definition cras_system_state_get_non_empty_status :: "('h, 's) system_state \<Rightarrow> int" where
  "cras_system_state_get_non_empty_status s = non_empty_status s"

section \<open>Snapshots\<close>

definition cras_system_state_dump_snapshots :: "('h, 's) system_state \<Rightarrow> ('h, 's) system_state" where
  "cras_system_state_dump_snapshots s = s\<lparr>exported_snapshots := (snapshots s, snapshot_pos s)\<rparr>"

definition cras_system_state_add_snapshot :: "'s \<Rightarrow> ('h, 's) system_state \<Rightarrow> ('h, 's) system_state" where
  "cras_system_state_add_snapshot x s =
     s\<lparr>snapshots := (snapshots s)[snapshot_pos s := x],
       snapshot_pos := (snapshot_pos s + 1) mod CRAS_MAX_AUDIO_THREAD_SNAPSHOTS\<rparr>"

section \<open>Properties\<close>

subsection \<open>Mutes\<close>

datatype mute_op = SetUserMute int | SetMute int | SetMuteLocked int

fun mute_step :: "mute_op \<Rightarrow> ('h, 's) system_state \<Rightarrow> ('h, 's) system_state" where
  "mute_step (SetUserMute m) s = cras_system_set_user_mute m s"
| "mute_step (SetMute m) s = cras_system_set_mute m s"
| "mute_step (SetMuteLocked l) s = cras_system_set_mute_locked l s"

text \<open>What an observer knows about the output from the notifications it got.\<close>

fun observed_mute :: "bool \<Rightarrow> notification list \<Rightarrow> bool" where
  "observed_mute b [] = b"
| "observed_mute b (OutputMute m u l # ns) = observed_mute (m \<or> u) ns"
| "observed_mute b (_ # ns) = observed_mute b ns"

lemma observed_mute_append: "observed_mute b (xs @ ys) = observed_mute (observed_mute b xs) ys"
  by (induction b xs rule: observed_mute.induct) simp_all

lemmas mute_defs = cras_system_set_user_mute_def cras_system_set_mute_def cras_system_set_mute_locked_def
  cras_system_notify_mute_def cras_system_get_mute_def notify_def Let_def

lemma mute_step_observed:
  assumes "observed_mute b (notified s) = cras_system_get_mute s"
  shows "observed_mute b (notified (mute_step op s)) = cras_system_get_mute (mute_step op s)"
  using assms by (cases op) (auto simp: mute_defs observed_mute_append)

lemma mute_run_observed:
  "observed_mute b (notified s) = cras_system_get_mute s \<Longrightarrow>
    observed_mute b (notified (fold mute_step ops s)) = cras_system_get_mute (fold mute_step ops s)"
  by (induction ops arbitrary: s) (simp_all add: mute_step_observed)

text \<open>Claim C27.  After any sequence of mute requests, observers that only see the notifications know
  whether the output is muted, by the user or by the system, although a change of one of the two
  mutes that does not change the result is not notified.\<close>

theorem observers_know_mute:
  fixes z :: 's
  shows "observed_mute False (notified (fold mute_step ops (cras_system_state_init z b :: ('h, 's) system_state))) =
    cras_system_get_mute (fold mute_step ops (cras_system_state_init z b :: ('h, 's) system_state))"
  by (rule mute_run_observed) (simp add: cras_system_state_init_def cras_system_get_mute_def)

text \<open>Claim C37.  While the mute is locked, no sequence of user and system mute requests changes the
  system mute, and the user mute still follows the last request.\<close>

theorem locked_mute_stays:
  assumes "mute_locked s" "list_all (\<lambda>op. case op of SetMuteLocked l \<Rightarrow> l \<noteq> 0 | _ \<Rightarrow> True) ops"
  shows "mute_locked (fold mute_step ops s) \<and> sys_mute (fold mute_step ops s) = sys_mute s \<and>
    user_mute (fold mute_step (ops @ [SetUserMute m]) s) = (m \<noteq> 0)"
proof -
  have "mute_locked (fold mute_step ops s) \<and> sys_mute (fold mute_step ops s) = sys_mute s"
    using assms
  proof (induction ops arbitrary: s)
    case (Cons op ops)
    then have "mute_locked (mute_step op s) \<and> sys_mute (mute_step op s) = sys_mute s"
      by (cases op) (auto simp: mute_defs)
    with Cons show ?case by simp
  qed simp
  then show ?thesis by (auto simp: mute_defs)
qed

definition locked_state :: "(unit, unit) system_state" where
  "locked_state = cras_system_set_mute_locked 1 (cras_system_state_init ()
     \<lparr>cfg_output_buffer_size = 512, cfg_aec_supported = 0, cfg_aec_group_id = 0, cfg_bt_wbs_enabled = 0\<rparr>)"

theorem locked_mute_stays_witness:
  "sys_mute (fold mute_step [SetMute 1, SetUserMute 1] locked_state) = sys_mute locked_state"
  using locked_mute_stays [of locked_state "[SetMute 1, SetUserMute 1]" 0]
  by (simp add: locked_state_def cras_system_set_mute_locked_def cras_system_state_init_def)

subsection \<open>Stream counts\<close>

datatype stream_op = Added u32 | Removed u32 timespec

text \<open>\<open>stream_run live ops s\<close> performs the operations and follows the directions of the streams that
  are alive; only a live stream can be removed.\<close>

fun stream_run :: "u32 list \<Rightarrow> stream_op list \<Rightarrow> ('h, 's) system_state \<Rightarrow> (u32 list \<times> ('h, 's) system_state) option" where
  "stream_run live [] s = Some (live, s)"
| "stream_run live (Added d # ops) s =
     (if unat d < CRAS_NUM_DIRECTIONS then stream_run (d # live) ops (cras_system_state_stream_added True d s) else None)"
| "stream_run live (Removed d now # ops) s =
     (if d \<in> set live then stream_run (remove1 d live) ops (cras_system_state_stream_removed True now d s) else None)"

definition counts_ok :: "u32 list \<Rightarrow> ('h, 's) system_state \<Rightarrow> bool" where
  "counts_ok live s \<longleftrightarrow> length (num_active_streams s) = CRAS_NUM_DIRECTIONS \<and>
     (\<forall>d \<in> set live. unat d < CRAS_NUM_DIRECTIONS) \<and>
     (\<forall>d. unat d < CRAS_NUM_DIRECTIONS \<longrightarrow>
        num_active_streams s ! unat d = of_nat (count_list live d)) \<and> even (unat (update_count s))"

lemma even_unat_add_2: "even (unat (2 + x :: u32)) \<longleftrightarrow> even (unat x)"
  by (simp add: unat_word_ariths dvd_mod_iff)

lemma direction_cases: "unat (d :: u32) < CRAS_NUM_DIRECTIONS \<longleftrightarrow> d \<in> {0, 1, 2, 3}"
proof -
  have "unat d < 4 \<longleftrightarrow> unat d \<in> {0, 1, 2, 3}" by auto
  then show ?thesis by (simp add: word_unat_eq_iff)
qed

lemma sum_active_count:
  fixes live :: "u32 list"
  assumes "length xs = CRAS_NUM_DIRECTIONS" "\<forall>d \<in> set live. unat d < CRAS_NUM_DIRECTIONS"
    "\<And>d. unat d < CRAS_NUM_DIRECTIONS \<Longrightarrow> xs ! unat d = of_nat (count_list live d)"
  shows "sum_active xs = of_nat (length live)"
proof -
  have "length live = count_list live 0 + count_list live 1 + count_list live 2 + count_list live 3"
    using assms(2)
  proof (induction live)
    case (Cons d live)
    then have "d \<in> {0, 1, 2, 3}" using direction_cases [of d] by simp
    with Cons show ?case by auto
  qed simp
  moreover have "xs ! 0 = of_nat (count_list live 0)" "xs ! 1 = of_nat (count_list live 1)"
    "xs ! 2 = of_nat (count_list live 2)" "xs ! 3 = of_nat (count_list live 3)"
    using assms(3) [of 0] assms(3) [of 1] assms(3) [of 2] assms(3) [of 3] by simp_all
  moreover have "[0..<CRAS_NUM_DIRECTIONS] = [0, 1, 2, 3]" by (simp add: upt_rec)
  ultimately show ?thesis
    by (simp add: sum_active_def)
qed

lemma counts_ok_added [cras_inv]:
  assumes "counts_ok live s" "unat d < CRAS_NUM_DIRECTIONS"
  shows "counts_ok (d # live) (cras_system_state_stream_added True d s)"
proof -
  have "unat d = unat e \<longleftrightarrow> d = e" for e by (simp add: word_unat_eq_iff)
  with assms show ?thesis
    by (auto simp: counts_ok_def cras_system_state_stream_added_def cras_system_state_update_begin_def
        cras_system_state_update_complete_def notify_def Let_def nth_list_update even_unat_add_2)
qed

lemma count_list_remove1: "count_list (remove1 x xs) y = count_list xs y - (if x = y then 1 else 0)"
  by (induction xs) (auto simp: count_list_0_iff)

lemma counts_ok_removed [cras_inv]:
  assumes "counts_ok live s" "d \<in> set live"
  shows "counts_ok (remove1 d live) (cras_system_state_stream_removed True now d s)"
proof -
  have eq: "unat d = unat e \<longleftrightarrow> d = e" for e by (simp add: word_unat_eq_iff)
  have "0 < count_list live d" using assms(2) by (metis count_list_0_iff gr0I)
  then have "(of_nat (count_list live d - 1) :: u32) = of_nat (count_list live d) - 1"
    by (simp add: of_nat_diff)
  with assms eq show ?thesis
    by (auto simp: counts_ok_def cras_system_state_stream_removed_def cras_system_state_update_begin_def
        cras_system_state_update_complete_def notify_def Let_def nth_list_update even_unat_add_2
        count_list_remove1 dest: notin_set_remove1 set_remove1_subset [THEN subsetD])
qed

text \<open>Over any sequence of added and removed streams, the exported counts are the numbers
  of live streams of each direction, their sum is the number of live streams, and the update counter
  of the exported state is even, so that readers see a complete update.\<close>

theorem stream_counts_exact:
  assumes "counts_ok live s" "stream_run live ops s = Some (live', s')"
  shows "counts_ok live' s' \<and> cras_system_state_get_active_streams s' = of_nat (length live')"
proof -
  have "counts_ok live' s'"
    using assms
  proof (induction live ops s rule: stream_run.induct)
    case (2 live d ops s)
    then show ?case by (auto intro: counts_ok_added split: if_splits)
  next
    case (3 live d now ops s)
    then show ?case by (auto intro: counts_ok_removed split: if_splits)
  qed simp
  then show ?thesis
    using sum_active_count [of "num_active_streams s'" live']
    by (simp add: counts_ok_def cras_system_state_get_active_streams_def)
qed

theorem stream_counts_exact_witness:
  "cras_system_state_get_active_streams
     (cras_system_state_stream_removed True (Timespec 9 0) 0
       (cras_system_state_stream_added True 1 (cras_system_state_stream_added True 0 locked_state))) =
   of_nat (length [1 :: u32])"
proof -
  have "counts_ok [] locked_state"
    by (auto simp: counts_ok_def locked_state_def cras_system_set_mute_locked_def
        cras_system_state_init_def)
  from stream_counts_exact [OF this, of "[Added 0, Added 1, Removed 0 (Timespec 9 0)]"] show ?thesis
    by simp
qed

text \<open>The time of last activity is taken exactly when the last live stream goes away.\<close>

theorem last_active_time_spec:
  assumes "counts_ok live s" "d \<in> set live" "length live < 2 ^ 32"
  shows "cras_system_state_get_last_stream_active_time (cras_system_state_stream_removed True now d s) =
    (if remove1 d live = [] then now else cras_system_state_get_last_stream_active_time s)"
proof -
  have "sum_active (num_active_streams s) = of_nat (length live)"
    using assms(1) by (intro sum_active_count) (auto simp: counts_ok_def)
  moreover have "(of_nat (length live) :: u32) = 1 \<longleftrightarrow> length live = 1"
    using assms(3) unat_of_nat_u32 [of "length live"] by (metis of_nat_1 unat_1)
  moreover have "remove1 d live = [] \<longleftrightarrow> length live = 1"
    using assms(2) length_remove1 [of d live] by (cases live) auto
  ultimately show ?thesis
    by (simp add: cras_system_state_stream_removed_def cras_system_state_update_begin_def
        cras_system_state_update_complete_def notify_def Let_def
        cras_system_state_get_last_stream_active_time_def)
qed

theorem last_active_time_spec_witness:
  "cras_system_state_get_last_stream_active_time (cras_system_state_stream_removed True (Timespec 9 0) 0
     (cras_system_state_stream_added True 0 locked_state)) = Timespec 9 0"
proof -
  have "counts_ok [] locked_state"
    by (auto simp: counts_ok_def locked_state_def cras_system_set_mute_locked_def
        cras_system_state_init_def)
  then have "counts_ok [0] (cras_system_state_stream_added True 0 locked_state)"
    by (rule counts_ok_added) simp
  from last_active_time_spec [OF this, of 0 "Timespec 9 0"] show ?thesis by simp
qed

subsection \<open>Snapshots\<close>

text \<open>The ring of snapshots from the oldest to the newest.\<close>

definition snapshot_ring :: "('h, 's) system_state \<Rightarrow> 's list" where
  "snapshot_ring s = drop (snapshot_pos s) (snapshots s) @ take (snapshot_pos s) (snapshots s)"

definition ring_ok :: "('h, 's) system_state \<Rightarrow> bool" where
  "ring_ok s \<longleftrightarrow> length (snapshots s) = CRAS_MAX_AUDIO_THREAD_SNAPSHOTS \<and>
     snapshot_pos s < CRAS_MAX_AUDIO_THREAD_SNAPSHOTS"

lemma snapshot_ring_add:
  assumes "ring_ok s"
  shows "ring_ok (cras_system_state_add_snapshot x s) \<and>
    snapshot_ring (cras_system_state_add_snapshot x s) = tl (snapshot_ring s) @ [x]"
proof -
  let ?p = "snapshot_pos s" and ?xs = "snapshots s"
  have p: "?p < length ?xs" "length ?xs = 10" using assms by (simp_all add: ring_ok_def)
  have tl: "tl (drop ?p ?xs @ take ?p ?xs) = drop (Suc ?p) ?xs @ take ?p ?xs"
    using p by (simp add: tl_append drop_Suc tl_drop split: list.splits)
      (metis drop_Suc tl_drop list.sel(3))
  show ?thesis
  proof (cases "Suc ?p = 10")
    case True
    with p have "?xs[?p := x] = take ?p ?xs @ [x]"
      by (simp add: upd_conv_take_nth_drop)
    with True p tl show ?thesis
      by (simp add: snapshot_ring_def cras_system_state_add_snapshot_def ring_ok_def)
  next
    case False
    with p have "Suc ?p < 10" by linarith
    with p tl show ?thesis
      by (simp add: snapshot_ring_def cras_system_state_add_snapshot_def ring_ok_def take_Suc_conv_app_nth
          drop_update_cancel)
  qed
qed

text \<open>The snapshot buffer is a ring of ten: after any number of snapshots it holds the
  ten newest, oldest first from the current position, and an export copies exactly that.\<close>

theorem snapshots_keep_newest:
  assumes "ring_ok s"
  shows "snapshot_ring (fold cras_system_state_add_snapshot xs s) = drop (length xs) (snapshot_ring s @ xs) \<and>
    exported_snapshots (cras_system_state_dump_snapshots (fold cras_system_state_add_snapshot xs s)) =
      (snapshots (fold cras_system_state_add_snapshot xs s), snapshot_pos (fold cras_system_state_add_snapshot xs s))"
proof -
  have "snapshot_ring (fold cras_system_state_add_snapshot xs s) = drop (length xs) (snapshot_ring s @ xs)"
    using assms
  proof (induction xs arbitrary: s)
    case (Cons x xs)
    have "snapshot_ring s \<noteq> []" using Cons.prems by (simp add: snapshot_ring_def ring_ok_def)
    then have "drop (Suc (length xs)) (snapshot_ring s @ x # xs) = drop (length xs) (tl (snapshot_ring s) @ x # xs)"
      by (cases "snapshot_ring s") simp_all
    with Cons.IH [of "cras_system_state_add_snapshot x s"] snapshot_ring_add [OF Cons.prems, of x]
    show ?case by simp
  qed simp
  then show ?thesis by (simp add: cras_system_state_dump_snapshots_def)
qed

definition fresh_state :: "(unit, nat) system_state" where
  "fresh_state = cras_system_state_init 0
     \<lparr>cfg_output_buffer_size = 512, cfg_aec_supported = 0, cfg_aec_group_id = 0, cfg_bt_wbs_enabled = 0\<rparr>"

theorem snapshots_keep_newest_witness:
  "snapshot_ring (fold cras_system_state_add_snapshot [1, 2] fresh_state) = replicate 8 0 @ [1, 2]"
proof -
  have "ring_ok fresh_state" "snapshot_ring fresh_state = replicate 10 0"
    by (simp_all add: ring_ok_def snapshot_ring_def fresh_state_def cras_system_state_init_def)
  with snapshots_keep_newest [of fresh_state "[1, 2]"] show ?thesis
    by (simp del: fold_simps)
qed

end
