(* ===== verification/Rstream.thy ===== *)
theory Rstream
  imports Audio_Shm Audio_Format Buffer_Share System_State
begin

text \<open>
  \<^verbatim>\<open>server/cras_rstream.c\<close>, \<^verbatim>\<open>cras_rstream.h\<close> and \<^verbatim>\<open>cras_rstream_config.c\<close>: one stream of a client.
  The results of system calls (creating and mapping shared memory, reading from and writing to the
  audio socket, polling it) are arguments.  A device pointer is a value of type \<open>'d\<close>, a client is
  its address.
\<close>

section \<open>Structures\<close>

record cras_rstream_config =
  rc_stream_id :: u32
  rc_stream_type :: u32
  rc_client_type :: u32
  rc_direction :: u32
  rc_dev_idx :: u32
  rc_flags :: u32
  rc_effects :: u32
  rc_format :: "cras_audio_format option"
  rc_buffer_frames :: u64
  rc_cb_threshold :: u64
  rc_audio_fd :: int
  rc_client_shm_fd :: int
  rc_client_shm_size :: u64
  rc_buffer_offsets :: "u32 list"
  rc_client :: nat

record 'd master_dev_info =
  m_dev_id :: u32
  m_dev_ptr :: "'d option"

record 'd cras_rstream =
  stream_id :: u32
  stream_type :: u32
  client_type :: u32
  direction :: u32
  flags :: u32
  fd :: int
  buffer_frames :: u64
  cb_threshold :: u64
  is_draining :: int
  master_dev :: "'d master_dev_info"
  client :: nat
  shm :: cras_audio_shm
  rs_format :: cras_audio_format
  next_cb_ts :: timespec
  sleep_interval_ts :: timespec
  last_fetch_ts :: timespec
  longest_fetch_interval :: timespec
  start_ts :: timespec
  first_missed_cb_ts :: timespec
  buf_state :: "'d buffer_share"
  num_attached_devs :: int
  num_missed_cb :: int
  queued_frames :: int
  is_pinned :: bool
  pinned_dev_idx :: u32
  triggered :: bool

section \<open>Configuration\<close>

record cras_connect_message =
  cm_proto_version :: u32
  cm_direction :: u32
  cm_stream_id :: u32
  cm_stream_type :: u32
  cm_buffer_frames :: u32
  cm_cb_threshold :: u32
  cm_flags :: u32
  cm_format :: cras_audio_format_packed
  cm_dev_idx :: u32
  cm_effects :: u64
  cm_client_type :: u32
  cm_client_shm_size :: u64
  cm_buffer_offsets :: "u64 list"

text \<open>The configuration keeps the buffer offsets and the effects in 32 bits.\<close>

definition cras_rstream_config_init_with_message :: "nat \<Rightarrow> cras_connect_message \<Rightarrow> int \<Rightarrow> int \<Rightarrow>
    cras_audio_format \<Rightarrow> cras_rstream_config" where
  "cras_rstream_config_init_with_message c msg aud_fd shm_fd fmt =
     \<lparr>rc_stream_id = cm_stream_id msg, rc_stream_type = cm_stream_type msg,
      rc_client_type = cm_client_type msg, rc_direction = cm_direction msg, rc_dev_idx = cm_dev_idx msg,
      rc_flags = cm_flags msg, rc_effects = ucast (cm_effects msg), rc_format = Some fmt,
      rc_buffer_frames = ucast (cm_buffer_frames msg), rc_cb_threshold = ucast (cm_cb_threshold msg),
      rc_audio_fd = aud_fd, rc_client_shm_fd = shm_fd, rc_client_shm_size = cm_client_shm_size msg,
      rc_buffer_offsets = [ucast (cm_buffer_offsets msg ! 0), ucast (cm_buffer_offsets msg ! 1)],
      rc_client = c\<rparr>"

definition cras_rstream_config_cleanup :: "cras_rstream_config \<Rightarrow> int list" where
  \<comment> \<open>the descriptors that are closed\<close>
  "cras_rstream_config_cleanup c =
     (if rc_audio_fd c \<ge> 0 then [rc_audio_fd c] else []) @
     (if rc_client_shm_fd c \<ge> 0 then [rc_client_shm_fd c] else [])"

definition cras_rstream_config_is_client_shm_stream :: "cras_rstream_config option \<Rightarrow> bool" where
  "cras_rstream_config_is_client_shm_stream c =
     (case c of None \<Rightarrow> False | Some c \<Rightarrow> rc_client_shm_fd c \<ge> 0 \<and> rc_client_shm_size c > 0)"

definition buffer_meets_size_limit :: "u64 \<Rightarrow> u64 \<Rightarrow> bool" where
  "buffer_meets_size_limit buffer_size rate \<longleftrightarrow>
     buffer_size < 10 * rate \<and> buffer_size > 1000 * rate div 1000000"

definition verify_rstream_parameters :: "cras_rstream_config \<Rightarrow> bool \<Rightarrow> int" where
  \<comment> \<open>the second argument: \<^verbatim>\<open>stream_out\<close> is a null pointer\<close>
  "verify_rstream_parameters c out_null =
     (if out_null then - EINVAL
      else case rc_format c of None \<Rightarrow> - EINVAL
      | Some fmt \<Rightarrow>
        if frame_rate fmt < 4000 \<or> frame_rate fmt > 192000 then - EINVAL
        else if \<not> buffer_meets_size_limit (rc_buffer_frames c) (frame_rate fmt) then - EINVAL
        else if \<not> buffer_meets_size_limit (rc_cb_threshold c) (frame_rate fmt) \<or>
                rc_cb_threshold c > rc_buffer_frames c then - EINVAL
        else if num_channels fmt < 0 \<or> num_channels fmt > of_nat CRAS_CH_MAX then - EINVAL
        else if pcm_format fmt \<noteq> S16_LE \<and> pcm_format fmt \<noteq> S32_LE \<and> pcm_format fmt \<noteq> U8 \<and>
                pcm_format fmt \<noteq> S24_LE then - EINVAL
        else if rc_direction c \<noteq> CRAS_STREAM_OUTPUT \<and> rc_direction c \<noteq> CRAS_STREAM_INPUT then - EINVAL
        else if rc_stream_type c < 0 \<or> rc_stream_type c \<ge> CRAS_STREAM_NUM_TYPES then - EINVAL
        else if rc_client_shm_size c > 0 \<and> rc_client_shm_fd c < 0 \<or>
                rc_client_shm_size c = 0 \<and> rc_client_shm_fd c \<ge> 0 then - EINVAL
        else if cras_rstream_config_is_client_shm_stream (Some c) \<and>
                (ucast (rc_buffer_offsets c ! 0) > rc_client_shm_size c \<or>
                 ucast (rc_buffer_offsets c ! 1) > rc_client_shm_size c) then - EINVAL
        else 0)"

section \<open>Creation\<close>

text \<open>The outcome of creating the shared memory: the results of \<^verbatim>\<open>cras_shm_info_init\<close> for the header,
  of the same for the samples and of mapping both, and the contents of the samples area.\<close>

record shm_env =
  header_rc :: int
  samples_rc :: int
  map_rc :: int
  area :: "u8 list"

definition cras_audio_shm_create :: "u64 \<Rightarrow> u8 list \<Rightarrow> cras_audio_shm" where
  \<comment> \<open>the header is a new shared memory object, which holds zero bytes\<close>
  "cras_audio_shm_create len mem = cras_shm_set_volume_scaler
     \<lparr>config = \<lparr>used_size = 0, frame_bytes = 0\<rparr>,
      header = \<lparr>hdr_config = \<lparr>used_size = 0, frame_bytes = 0\<rparr>, read_buf_idx = 0, write_buf_idx = 0,
        read_offset = [0, 0], write_offset = [0, 0], write_in_progress = [False, False],
        volume_scaler = Fin 0, mute = False, callback_pending = False, num_overruns = 0, ts = (0, 0),
        buffer_offset = [0, 0]\<rparr>,
      samples_length = len, samples = mem\<rparr> (Fin 1)"

definition stream_frame_bytes :: "(snd_pcm_format \<Rightarrow> nat) \<Rightarrow> cras_audio_format \<Rightarrow> u32" where
  "stream_frame_bytes phys_width fmt =
     ucast (of_nat (phys_width (pcm_format fmt) div 8) * num_channels fmt)"

definition setup_shm_area :: "(snd_pcm_format \<Rightarrow> nat) \<Rightarrow> shm_env \<Rightarrow> cras_audio_format \<Rightarrow> u64 \<Rightarrow>
    cras_rstream_config \<Rightarrow> int + cras_audio_shm" where
  "setup_shm_area phys_width env fmt frames c =
     (let client_shm = cras_rstream_config_is_client_shm_stream (Some c) in
      if header_rc env \<noteq> 0 then Inl (header_rc env)
      else let fb = stream_frame_bytes phys_width fmt;
               used = ucast (frames * ucast fb) :: u32;
               len = (if client_shm then rc_client_shm_size c
                      else ucast (cras_shm_calculate_samples_size used))
        in if samples_rc env \<noteq> 0 then Inl (samples_rc env)
           else if map_rc env \<noteq> 0 then Inl (map_rc env)
           else let s1 = cras_shm_set_used_size (cras_shm_set_frame_bytes (cras_audio_shm_create len (area env)) fb) used
             in Inr (if client_shm
                     then cras_shm_set_buffer_offset (cras_shm_set_buffer_offset s1 0 (rc_buffer_offsets c ! 0))
                       1 (rc_buffer_offsets c ! 1)
                     else s1))"

definition cras_rstream_create :: "(snd_pcm_format \<Rightarrow> nat) \<Rightarrow> shm_env \<Rightarrow> bool \<Rightarrow> timespec \<Rightarrow> bool \<Rightarrow>
    cras_rstream_config \<Rightarrow> ('h, 's) system_state \<Rightarrow>
    (int + 'd cras_rstream \<times> cras_rstream_config) \<times> ('h, 's) system_state" where
  \<comment> \<open>\<open>alloc\<close>: the allocation succeeds; \<open>locked\<close>: the lock of the system state is taken\<close>
  "cras_rstream_create phys_width env alloc now locked c sys =
     (let rc = verify_rstream_parameters c False in
      if rc < 0 then (Inl rc, sys)
      else if \<not> alloc then (Inl (- ENOMEM), sys)
      else case rc_format c of None \<Rightarrow> (Inl (- EINVAL), sys)
      | Some fmt \<Rightarrow>
        (case setup_shm_area phys_width env fmt (rc_buffer_frames c) c of
           Inl e \<Rightarrow> (Inl e, sys)
         | Inr s \<Rightarrow>
            (Inr (\<lparr>stream_id = rc_stream_id c, stream_type = rc_stream_type c, client_type = rc_client_type c,
               direction = rc_direction c, flags = rc_flags c, fd = rc_audio_fd c,
               buffer_frames = rc_buffer_frames c, cb_threshold = rc_cb_threshold c, is_draining = 0,
               master_dev = \<lparr>m_dev_id = NO_DEVICE, m_dev_ptr = None\<rparr>, client = rc_client c, shm = s,
               rs_format = fmt, next_cb_ts = Timespec 0 0, sleep_interval_ts = Timespec 0 0,
               last_fetch_ts = Timespec 0 0, longest_fetch_interval = Timespec 0 0, start_ts = now,
               first_missed_cb_ts = Timespec 0 0, buf_state = buffer_share_create (ucast (rc_buffer_frames c)),
               num_attached_devs = 0, num_missed_cb = 0, queued_frames = 0,
               is_pinned = (rc_dev_idx c \<noteq> NO_DEVICE), pinned_dev_idx = rc_dev_idx c, triggered = False\<rparr>,
              c\<lparr>rc_audio_fd := - 1\<rparr>),
             cras_system_state_stream_added locked (rc_direction c) sys)))"

definition cras_rstream_destroy :: "bool \<Rightarrow> timespec \<Rightarrow> 'd cras_rstream \<Rightarrow> ('h, 's) system_state \<Rightarrow>
    ('h, 's) system_state" where
  "cras_rstream_destroy locked now s sys = cras_system_state_stream_removed locked now (direction s) sys"

section \<open>Messages to and from the client\<close>

datatype audio_message_id = AUDIO_MESSAGE_REQUEST_DATA | AUDIO_MESSAGE_DATA_READY | AUDIO_MESSAGE_DATA_CAPTURED

record audio_message =
  msg_id :: audio_message_id
  msg_error :: int
  msg_frames :: u32

definition init_audio_message :: "audio_message_id \<Rightarrow> u32 \<Rightarrow> audio_message" where
  "init_audio_message i frames = \<lparr>msg_id = i, msg_error = 0, msg_frames = frames\<rparr>"

definition stream_is_server_only :: "'d cras_rstream \<Rightarrow> bool" where
  "stream_is_server_only s \<longleftrightarrow> flags s AND SERVER_ONLY \<noteq> 0"

definition set_pending_reply :: "'d cras_rstream \<Rightarrow> 'd cras_rstream" where
  "set_pending_reply s = s\<lparr>shm := cras_shm_set_callback_pending (shm s) 1\<rparr>"

definition clear_pending_reply :: "'d cras_rstream \<Rightarrow> 'd cras_rstream" where
  "clear_pending_reply s = s\<lparr>shm := cras_shm_set_callback_pending (shm s) 0\<rparr>"

definition cras_rstream_is_pending_reply :: "'d cras_rstream \<Rightarrow> bool" where
  "cras_rstream_is_pending_reply s = cras_shm_callback_pending (shm s)"

text \<open>The result of \<^verbatim>\<open>read\<close>: an error number, or the number of bytes and the message.\<close>

datatype read_result = ReadError int | ReadBytes int audio_message

fun get_audio_request_reply :: "read_result \<Rightarrow> int \<times> audio_message option" where
  "get_audio_request_reply (ReadError errno) = (- errno, None)"
| "get_audio_request_reply (ReadBytes rc msg) =
     (if rc = 0 then (rc, Some msg)
      else if msg_error msg < 0 then (msg_error msg, Some msg) else (rc, Some msg))"

definition read_and_handle_client_message :: "read_result \<Rightarrow> 'd cras_rstream \<Rightarrow> int \<times> 'd cras_rstream" where
  "read_and_handle_client_message r s =
     (case get_audio_request_reply r of (rc, m) \<Rightarrow>
        if rc \<le> 0 then (rc, clear_pending_reply s)
        else (case m of None \<Rightarrow> (rc, s)
          | Some msg \<Rightarrow>
              let s1 = (if direction s = CRAS_STREAM_INPUT \<and> msg_id msg = AUDIO_MESSAGE_DATA_CAPTURED
                        then clear_pending_reply s else s);
                  s2 = (if direction s1 = CRAS_STREAM_OUTPUT \<and> msg_id msg = AUDIO_MESSAGE_DATA_READY
                        then clear_pending_reply s1 else s1)
              in (rc, s2)))"

text \<open>\<open>write_rc\<close> is what \<^verbatim>\<open>write\<close> returns, \<open>- errno\<close> when it fails.  The second component is the
  message that was sent.\<close>

definition cras_rstream_request_audio :: "int \<Rightarrow> timespec \<Rightarrow> 'd cras_rstream \<Rightarrow>
    int \<times> audio_message option \<times> 'd cras_rstream" where
  "cras_rstream_request_audio write_rc now s =
     (if direction s \<noteq> CRAS_STREAM_OUTPUT then (0, None, s)
      else let s1 = s\<lparr>last_fetch_ts := now\<rparr>;
               msg = init_audio_message AUDIO_MESSAGE_REQUEST_DATA (ucast (cb_threshold s))
        in if write_rc < 0 then (write_rc, None, s1)
           else (write_rc, Some msg, set_pending_reply s1))"

definition cras_rstream_audio_ready :: "int \<Rightarrow> u64 \<Rightarrow> 'd cras_rstream \<Rightarrow>
    int \<times> audio_message option \<times> 'd cras_rstream" where
  "cras_rstream_audio_ready write_rc cnt s =
     (let s1 = s\<lparr>shm := cras_shm_buffer_write_complete (shm s)\<rparr> in
      if stream_is_server_only s1
      then (0, None, s1\<lparr>shm := cras_shm_buffer_read_current (shm s1) cnt\<rparr>)
      else let msg = init_audio_message AUDIO_MESSAGE_DATA_READY (ucast cnt)
        in if write_rc < 0 then (write_rc, None, s1) else (write_rc, Some msg, set_pending_reply s1))"

definition cras_rstream_record_fetch_interval :: "timespec \<Rightarrow> 'd cras_rstream \<Rightarrow> 'd cras_rstream" where
  "cras_rstream_record_fetch_interval now s =
     (if tv_sec (last_fetch_ts s) \<noteq> 0 \<or> tv_nsec (last_fetch_ts s) \<noteq> 0
      then let d = subtract_timespecs now (last_fetch_ts s)
        in if timespec_after d (longest_fetch_interval s) then s\<lparr>longest_fetch_interval := d\<rparr> else s
      else s)"

text \<open>One round of the loop of \<^verbatim>\<open>cras_rstream_flush_old_audio_messages\<close>: what \<^verbatim>\<open>poll\<close> returns, whether
  it reports data, and what a \<^verbatim>\<open>read\<close> would return.\<close>

record poll_round =
  poll_rc :: int
  pollin :: bool
  readable :: read_result

fun flush_loop :: "nat \<Rightarrow> (nat \<Rightarrow> poll_round) \<Rightarrow> 'd cras_rstream \<Rightarrow> 'd cras_rstream option" where
  "flush_loop 0 world s = None"
| "flush_loop (Suc fuel) world s =
     (let r = world 0;
          (err, s1) = (if pollin r then read_and_handle_client_message (readable r) s else (poll_rc r, s))
      in if err > 0 then flush_loop fuel (\<lambda>k. world (Suc k)) s1 else Some s1)"

definition cras_rstream_flush_old_audio_messages :: "nat \<Rightarrow> (nat \<Rightarrow> poll_round) \<Rightarrow> 'd cras_rstream \<Rightarrow>
    (int \<times> 'd cras_rstream) option" where
  "cras_rstream_flush_old_audio_messages fuel world s =
     (if fd s = 0 then Some (0, s)
      else if stream_is_server_only s then Some (0, s)
      else map_option (Pair 0) (flush_loop fuel world s))"

section \<open>Devices of the stream\<close>

definition cras_rstream_dev_attach :: "(nat \<Rightarrow> 'd id_offset) \<Rightarrow> u32 \<Rightarrow> 'd option \<Rightarrow> 'd cras_rstream \<Rightarrow>
    'd cras_rstream option" where
  "cras_rstream_dev_attach junk i ptr s =
     (case buffer_share_add_id junk (buf_state s) i ptr of None \<Rightarrow> None
      | Some (rc, bs) \<Rightarrow>
          let s1 = s\<lparr>buf_state := bs\<rparr>;
              s2 = (if rc = 0 then s1\<lparr>num_attached_devs := num_attached_devs s1 + 1\<rparr> else s1)
          in Some (if m_dev_id (master_dev s2) = NO_DEVICE
                   then s2\<lparr>master_dev := \<lparr>m_dev_id = i, m_dev_ptr = ptr\<rparr>\<rparr> else s2))"

definition cras_rstream_dev_detach :: "u32 \<Rightarrow> 'd cras_rstream \<Rightarrow> 'd cras_rstream" where
  "cras_rstream_dev_detach i s =
     (let (rc, bs) = buffer_share_rm_id (buf_state s) i;
          s1 = s\<lparr>buf_state := bs\<rparr>;
          s2 = (if rc = 0 then s1\<lparr>num_attached_devs := num_attached_devs s1 - 1\<rparr> else s1)
      in if m_dev_id (master_dev s2) = i
         then (case find used (wr_idx (buf_state s2)) of
             None \<Rightarrow> s2\<lparr>master_dev := \<lparr>m_dev_id = NO_DEVICE, m_dev_ptr = None\<rparr>\<rparr>
           | Some slot \<Rightarrow> s2\<lparr>master_dev := \<lparr>m_dev_id = dev_id slot, m_dev_ptr = data slot\<rparr>\<rparr>)
         else s2)"

definition cras_rstream_dev_ptr :: "'d cras_rstream \<Rightarrow> u32 \<Rightarrow> 'd option" where
  "cras_rstream_dev_ptr s i = buffer_share_get_data (buf_state s) i"

definition cras_rstream_dev_offset_update :: "u32 \<Rightarrow> u32 \<Rightarrow> 'd cras_rstream \<Rightarrow> 'd cras_rstream" where
  "cras_rstream_dev_offset_update frames i s =
     s\<lparr>buf_state := snd (buffer_share_offset_update (buf_state s) i frames)\<rparr>"

definition cras_rstream_dev_offset :: "'d cras_rstream \<Rightarrow> u32 \<Rightarrow> u32" where
  "cras_rstream_dev_offset s i = buffer_share_id_offset (buf_state s) i"

definition cras_rstream_update_input_write_pointer :: "'d cras_rstream \<Rightarrow> 'd cras_rstream" where
  "cras_rstream_update_input_write_pointer s =
     (let (n, bs) = buffer_share_get_new_write_point (buf_state s)
      in s\<lparr>buf_state := bs, shm := cras_shm_buffer_written (shm s) (ucast n)\<rparr>)"

definition cras_rstream_update_output_read_pointer :: "'d cras_rstream \<Rightarrow> 'd cras_rstream" where
  "cras_rstream_update_output_read_pointer s =
     (let (n, bs) = buffer_share_get_new_write_point (buf_state s)
      in s\<lparr>buf_state := bs, shm := cras_shm_buffer_read (shm s) (ucast n)\<rparr>)"

text \<open>\<^verbatim>\<open>MIN\<close> compares an \<^verbatim>\<open>int\<close> with a \<^verbatim>\<open>size_t\<close>: both are converted to 64 bits without sign, and the
  result is then an \<^verbatim>\<open>int\<close>.\<close>

definition cras_rstream_update_queued_frames :: "'d cras_rstream \<Rightarrow> 'd cras_rstream" where
  "cras_rstream_update_queued_frames s =
     (let f = (of_int (cras_shm_get_frames (shm s)) :: u64)
      in s\<lparr>queued_frames := sint (ucast (if f < buffer_frames s then f else buffer_frames s) :: u32)\<rparr>)"

definition cras_rstream_playable_frames :: "'d cras_rstream \<Rightarrow> u32 \<Rightarrow> u32" where
  "cras_rstream_playable_frames s i = of_int (queued_frames s) - cras_rstream_dev_offset s i"

definition cras_rstream_get_volume_scaler :: "'d cras_rstream \<Rightarrow> c_float" where
  "cras_rstream_get_volume_scaler s = cras_shm_get_volume_scaler (shm s)"

definition cras_rstream_get_readable_frames :: "'d cras_rstream \<Rightarrow> u32 \<Rightarrow> nat option \<times> u64" where
  "cras_rstream_get_readable_frames s offs = cras_shm_get_readable_frames (shm s) (ucast offs)"

definition cras_rstream_get_mute :: "'d cras_rstream \<Rightarrow> bool" where
  "cras_rstream_get_mute s = cras_shm_get_mute (shm s)"

definition cras_rstream_get_max_write_frames :: "'d cras_rstream \<Rightarrow> u64" where
  "cras_rstream_get_max_write_frames s =
     (if flags s AND BULK_AUDIO_OK \<noteq> 0 then buffer_frames s else cb_threshold s)"

definition cras_rstream_level :: "'d cras_rstream \<Rightarrow> u32" where
  "cras_rstream_level s = cras_shm_frames_written (shm s)"

definition cras_rstream_input_level_met :: "'d cras_rstream \<Rightarrow> bool" where
  "cras_rstream_input_level_met s \<longleftrightarrow> ucast (cras_shm_frames_written (shm s)) \<ge> cb_threshold s"

section \<open>The devices of a stream: invariant\<close>

text \<open>The count of attached devices is the number of slots in use, and the master device is an
  attached device with its pointer, or none when no device is attached.\<close>

definition dev_table :: "'d cras_rstream \<Rightarrow> u32 \<rightharpoonup> 'd option" where
  "dev_table s i = map_option data (bs_lookup (wr_idx (buf_state s)) i)"

definition rs_inv :: "'d cras_rstream \<Rightarrow> bool" where
  "rs_inv s \<longleftrightarrow> bs_inv (buf_state s) \<and> finite (dom (dev_table s)) \<and> NO_DEVICE \<notin> dom (dev_table s) \<and>
     num_attached_devs s = int (card (dom (dev_table s))) \<and>
     (if m_dev_id (master_dev s) = NO_DEVICE then dom (dev_table s) = {}
      else dev_table s (m_dev_id (master_dev s)) = Some (m_dev_ptr (master_dev s)))"

lemma attach_fields:
  assumes "cras_rstream_dev_attach junk i ptr s = Some s'"
    "buffer_share_add_id junk (buf_state s) i ptr = Some (rc, bs)"
  shows "buf_state s' = bs" "num_attached_devs s' = num_attached_devs s + of_bool (rc = 0)"
    "master_dev s' = (if m_dev_id (master_dev s) = NO_DEVICE then \<lparr>m_dev_id = i, m_dev_ptr = ptr\<rparr> else master_dev s)"
    "s' = s\<lparr>buf_state := bs, num_attached_devs := num_attached_devs s + of_bool (rc = 0),
       master_dev := (if m_dev_id (master_dev s) = NO_DEVICE then \<lparr>m_dev_id = i, m_dev_ptr = ptr\<rparr> else master_dev s)\<rparr>"
  using assms by (auto simp: cras_rstream_dev_attach_def Let_def split: if_splits)

lemma rs_inv_attach [cras_inv]:
  assumes inv: "rs_inv s" and i: "i \<noteq> NO_DEVICE" and at: "cras_rstream_dev_attach junk i ptr s = Some s'"
  shows "rs_inv s' \<and> dev_table s' = (if dev_table s i = None then (dev_table s)(i \<mapsto> ptr) else dev_table s)"
proof -
  obtain rc bs where add: "buffer_share_add_id junk (buf_state s) i ptr = Some (rc, bs)"
    using at by (auto simp: cras_rstream_dev_attach_def split: option.splits)
  have b: "bs_inv (buf_state s)" "bs_inv bs"
    using inv bs_inv_add [OF _ add] by (simp_all add: rs_inv_def)
  note L = add_id_lookup [OF b(1) add] and A = attach_fields [OF at add]
  show ?thesis
  proof (cases "dev_table s i = None")
    case True
    with L have rc: "rc = 0" and l: "bs_lookup (wr_idx bs) =
        (bs_lookup (wr_idx (buf_state s)))(i \<mapsto> \<lparr>used = True, dev_id = i, offset = 0, data = ptr\<rparr>)"
      by (simp_all add: dev_table_def)
    have t: "dev_table s' = (dev_table s)(i \<mapsto> ptr)"
      using A(1) l by (auto simp: dev_table_def fun_eq_iff)
    have "i \<notin> dom (dev_table s)" using True by (simp add: domIff)
    then have "card (dom (dev_table s')) = Suc (card (dom (dev_table s)))"
      using inv by (simp add: t rs_inv_def)
    then show ?thesis
      using inv A(1-3) rc b(2) t i True unfolding rs_inv_def by (auto simp: domIff)
  next
    case False
    with L have rc: "rc = - EEXIST" "bs = buf_state s" by (simp_all add: dev_table_def)
    have "dom (dev_table s) \<noteq> {}" using False by auto
    then have "s' = s"
      using inv A(4) rc by (simp add: rs_inv_def split: if_splits)
    then show ?thesis using inv False by auto
  qed
qed

lemma rs_inv_detach [cras_inv]:
  assumes inv: "rs_inv s"
  shows "rs_inv (cras_rstream_dev_detach i s) \<and> dev_table (cras_rstream_dev_detach i s) = (dev_table s)(i := None)"
proof -
  define s' where "s' = cras_rstream_dev_detach i s"
  define bs where "bs = snd (buffer_share_rm_id (buf_state s) i)"
  have b: "bs_inv (buf_state s)" "bs_inv bs"
    using inv bs_inv_rm by (auto simp: rs_inv_def bs_def)
  note L = rm_id_lookup [OF b(1), of i]
  have rc: "fst (buffer_share_rm_id (buf_state s) i) = 0 \<longleftrightarrow> dev_table s i \<noteq> None"
    using L(1) by (simp add: dev_table_def)
  have bs': "buf_state s' = bs" and n': "num_attached_devs s' = num_attached_devs s - of_bool (dev_table s i \<noteq> None)"
    and m': "master_dev s' = (if m_dev_id (master_dev s) = i then (case find used (wr_idx bs) of
        None \<Rightarrow> \<lparr>m_dev_id = NO_DEVICE, m_dev_ptr = None\<rparr>
      | Some slot \<Rightarrow> \<lparr>m_dev_id = dev_id slot, m_dev_ptr = data slot\<rparr>) else master_dev s)"
    by (auto simp: s'_def bs_def cras_rstream_dev_detach_def Let_def case_prod_beta rc
        split: option.splits)
  have t: "dev_table s' = (dev_table s)(i := None)"
    using L(2) by (auto simp: dev_table_def bs' bs_def fun_eq_iff)
  have "int (card (dom ((dev_table s)(i := None)))) = int (card (dom (dev_table s))) - of_bool (dev_table s i \<noteq> None)"
  proof (cases "i \<in> dom (dev_table s)")
    case True
    have "card (dom (dev_table s)) = Suc (card (dom (dev_table s) - {i}))"
      using inv True by (intro card.remove) (simp_all add: rs_inv_def)
    with True show ?thesis by (auto simp: domIff)
  next
    case False
    then have "(dev_table s)(i := None) = dev_table s" by (auto simp: domIff fun_eq_iff)
    with False show ?thesis by (auto simp: domIff)
  qed
  moreover have "if m_dev_id (master_dev s') = NO_DEVICE then dom (dev_table s') = {}
      else dev_table s' (m_dev_id (master_dev s')) = Some (m_dev_ptr (master_dev s'))"
  proof (cases "m_dev_id (master_dev s) = i")
    case True
    show ?thesis
    proof (cases "find used (wr_idx bs)")
      case None
      then have "bs_lookup (wr_idx bs) j = None" for j
        by (auto simp: find_None_iff bs_lookup_None)
      with None True show ?thesis by (simp add: m' dev_table_def bs' fun_eq_iff)
    next
      case (Some slot)
      then have "slot \<in> set (wr_idx bs)" "used slot"
        by (auto simp: find_Some_iff)
      then have "bs_lookup (wr_idx bs) (dev_id slot) = Some slot"
        using b(2) by (simp add: bs_lookup_iff bs_inv_def)
      then have "dev_table s' (dev_id slot) = Some (data slot)" by (simp add: dev_table_def bs')
      moreover from this have "dev_id slot \<noteq> NO_DEVICE"
        using inv t by (auto simp: rs_inv_def split: if_splits)
      ultimately show ?thesis using Some True by (simp add: m')
    qed
  next
    case False
    then show ?thesis using inv by (auto simp: m' t rs_inv_def)
  qed
  ultimately show ?thesis
    using inv b(2) n' unfolding s'_def [symmetric] rs_inv_def by (auto simp: bs' t)
qed

lemma rs_inv_frame:
  assumes "rs_inv s" "bs_inv (buf_state s')" "dev_table s' = dev_table s"
    "num_attached_devs s' = num_attached_devs s" "master_dev s' = master_dev s"
  shows "rs_inv s'"
  using assms by (simp add: rs_inv_def)

lemma dev_table_offset_update:
  assumes "rs_inv s"
  shows "dev_table (cras_rstream_dev_offset_update frames i s) = dev_table s"
  using assms by (auto simp: rs_inv_def cras_rstream_dev_offset_update_def buffer_share_offset_update_def dev_table_def
      fun_eq_iff bs_lookup_update_first_match bs_inv_def option.map_comp comp_def)

lemma rs_inv_offset_update [cras_inv]:
  assumes "rs_inv s"
  shows "rs_inv (cras_rstream_dev_offset_update frames i s)"
proof (rule rs_inv_frame [OF assms _ dev_table_offset_update [OF assms]])
  show "bs_inv (buf_state (cras_rstream_dev_offset_update frames i s))"
    using assms by (simp add: cras_rstream_dev_offset_update_def bs_inv_update rs_inv_def)
qed (simp_all add: cras_rstream_dev_offset_update_def)

lemma dev_table_new_write_point:
  "dev_table (s\<lparr>buf_state := snd (buffer_share_get_new_write_point (buf_state s)), shm := x\<rparr>) = dev_table s"
  by (simp add: dev_table_def fun_eq_iff buffer_share_get_new_write_point_def Let_def bs_lookup_map
      option.map_comp comp_def)

lemma rs_inv_new_write_point:
  assumes "rs_inv s"
  shows "rs_inv (s\<lparr>buf_state := snd (buffer_share_get_new_write_point (buf_state s)), shm := x\<rparr>)"
proof (rule rs_inv_frame [OF assms _ dev_table_new_write_point])
  show "bs_inv (buf_state (s\<lparr>buf_state := snd (buffer_share_get_new_write_point (buf_state s)), shm := x\<rparr>))"
    using assms by (simp add: bs_inv_new_write_point rs_inv_def)
qed simp_all

text \<open>The states of the bookkeeping of a stream, from its creation through every operation that
  changes it.\<close>

inductive rs_reach :: "'d cras_rstream \<Rightarrow> bool" where
  create: "cras_rstream_create phys_width env alloc now locked c (sys :: (unit, unit) system_state) =
     (Inr (s, c'), sys') \<Longrightarrow> rs_reach s"
| attach: "rs_reach s \<Longrightarrow> i \<noteq> NO_DEVICE \<Longrightarrow> cras_rstream_dev_attach junk i ptr s = Some s' \<Longrightarrow> rs_reach s'"
| detach: "rs_reach s \<Longrightarrow> rs_reach (cras_rstream_dev_detach i s)"
| advance: "rs_reach s \<Longrightarrow> rs_reach (cras_rstream_dev_offset_update frames i s)"
| commit_input: "rs_reach s \<Longrightarrow> rs_reach (cras_rstream_update_input_write_pointer s)"
| commit_output: "rs_reach s \<Longrightarrow> rs_reach (cras_rstream_update_output_read_pointer s)"

subsection \<open>Accepted configurations\<close>

lemma size_limit_nat:
  assumes "buffer_meets_size_limit n rate" "unat rate \<le> 192000"
  shows "unat n < 10 * unat rate" "1000 * unat rate div 1000000 < unat n"
proof -
  have "unat (10 * rate) = 10 * unat rate" "unat (1000 * rate) = 1000 * unat rate"
    using assms(2) by (simp_all add: unat_mult_small)
  with assms(1) show "unat n < 10 * unat rate" "1000 * unat rate div 1000000 < unat n"
    by (auto simp: buffer_meets_size_limit_def word_less_nat_alt unat_div)
qed

lemma verify_accepts:
  assumes "verify_rstream_parameters c False \<ge> 0"
  obtains fmt where "rc_format c = Some fmt" "4000 \<le> unat (frame_rate fmt)" "unat (frame_rate fmt) \<le> 192000"
    "unat (rc_buffer_frames c) < 10 * unat (frame_rate fmt)"
    "1000 * unat (frame_rate fmt) div 1000000 < unat (rc_cb_threshold c)"
    "unat (rc_cb_threshold c) \<le> unat (rc_buffer_frames c)" "unat (num_channels fmt) \<le> CRAS_CH_MAX"
    "pcm_format fmt \<in> {S16_LE, S32_LE, U8, S24_LE}"
    "rc_direction c = CRAS_STREAM_OUTPUT \<or> rc_direction c = CRAS_STREAM_INPUT"
proof -
  obtain fmt where fmt: "rc_format c = Some fmt"
    using assms by (auto simp: verify_rstream_parameters_def split: option.splits)
  have V: "\<not> frame_rate fmt < 4000" "\<not> frame_rate fmt > 192000"
    "buffer_meets_size_limit (rc_buffer_frames c) (frame_rate fmt)"
    "buffer_meets_size_limit (rc_cb_threshold c) (frame_rate fmt)"
    "\<not> rc_cb_threshold c > rc_buffer_frames c" "\<not> num_channels fmt > of_nat CRAS_CH_MAX"
    "pcm_format fmt \<in> {S16_LE, S32_LE, U8, S24_LE}"
    "rc_direction c = CRAS_STREAM_OUTPUT \<or> rc_direction c = CRAS_STREAM_INPUT"
    using assms fmt by (auto simp: verify_rstream_parameters_def split: if_splits)
  have r: "unat (frame_rate fmt) \<le> 192000" using V(2) by (simp add: word_less_nat_alt)
  show ?thesis
    using V fmt r size_limit_nat [OF V(3) r] size_limit_nat [OF V(4) r]
    by (intro that [of fmt]) (auto simp: word_less_nat_alt)
qed

text \<open>What ALSA documents of \<^verbatim>\<open>snd_pcm_format_physical_width\<close> for the supported formats.\<close>

definition alsa_widths :: "(snd_pcm_format \<Rightarrow> nat) \<Rightarrow> bool" where
  "alsa_widths w \<longleftrightarrow> w U8 = 8 \<and> w S16_LE = 16 \<and> w S24_LE = 32 \<and> w S32_LE = 32"

lemma frame_bytes_bound:
  assumes "alsa_widths w" "pcm_format fmt \<in> {S16_LE, S32_LE, U8, S24_LE}" "unat (num_channels fmt) \<le> CRAS_CH_MAX"
  shows "unat (stream_frame_bytes w fmt) = w (pcm_format fmt) div 8 * unat (num_channels fmt)"
    "unat (stream_frame_bytes w fmt) \<le> 44"
proof -
  let ?b = "w (pcm_format fmt) div 8"
  have b: "?b \<le> 4" using assms(1,2) by (auto simp: alsa_widths_def)
  then have p: "?b * unat (num_channels fmt) \<le> 4 * 11" using assms(3) by (intro mult_le_mono) auto
  have "unat (of_nat ?b :: u64) = ?b" using b by (intro unat_of_nat_u64) simp
  then have "unat (of_nat ?b * num_channels fmt) = ?b * unat (num_channels fmt)"
    using p by (subst unat_mult_small) simp_all
  then show "unat (stream_frame_bytes w fmt) = ?b * unat (num_channels fmt)"
    using p by (simp add: stream_frame_bytes_def unat_ucast_u32_u64)
  with p show "unat (stream_frame_bytes w fmt) \<le> 44" by simp
qed

lemma fresh_shm_inv:
  fixes fb used :: u32
  assumes "0 < unat fb" "unat used < 2 ^ 30" "length mem = 2 * unat used"
  defines "s \<equiv> cras_shm_set_used_size (cras_shm_set_frame_bytes
      (cras_audio_shm_create (ucast (cras_shm_calculate_samples_size used)) mem) fb) used"
  shows "shm_inv s" "shm_queue s = []" "cras_shm_callback_pending s = False"
proof -
  have len: "unat (used * 2) = 2 * unat used"
    using assms(2) by (simp add: unat_double_small)
  have h: "read_offset (header s) = [0, 0]" "write_offset (header s) = [0, 0]"
    "buffer_offset (header s) = [0, ucast used]" "write_in_progress (header s) = [False, False]"
    "read_buf_idx (header s) = 0" "write_buf_idx (header s) = 0" "used_size (config s) = used"
    "frame_bytes (config s) = fb" "samples s = mem" "unat (samples_length s) = 2 * unat used"
    "callback_pending (header s) = False"
    using len by (simp_all add: s_def cras_shm_set_used_size_def cras_shm_set_frame_bytes_def
        cras_audio_shm_create_def cras_shm_set_volume_scaler_def cras_shm_set_buffer_offset_def
        cras_shm_calculate_samples_size_def upt_rec)
  have "shm_layout s"
    using assms(1-3) by (simp add: shm_layout_def h ridx_def widx_def)
  moreover have "shm_offsets s"
    by (auto simp: shm_offsets_def h ridx_def dest!: less_2_cases_nat)
  moreover have "shm_turns s"
    by (simp add: shm_turns_def h ridx_def widx_def)
  ultimately show "shm_inv s" by (simp add: shm_inv_def)
  show "shm_queue s = []" by (simp add: shm_queue_def buf_data_def h ridx_def)
  show "cras_shm_callback_pending s = False" by (simp add: cras_shm_callback_pending_def h)
qed

lemma create_cases:
  assumes "cras_rstream_create phys_width env alloc now locked c sys = (Inr (s, c'), sys')"
  shows "verify_rstream_parameters c False \<ge> 0" "\<exists>fmt. rc_format c = Some fmt \<and>
      setup_shm_area phys_width env fmt (rc_buffer_frames c) c = Inr (shm s)"
    "buf_state s = buffer_share_create (ucast (rc_buffer_frames c))" "num_attached_devs s = 0"
    "m_dev_id (master_dev s) = NO_DEVICE" "buffer_frames s = rc_buffer_frames c"
    "direction s = rc_direction c" "sys' = cras_system_state_stream_added locked (rc_direction c) sys"
    "fd s = rc_audio_fd c" "stream_id s = rc_stream_id c"
  using assms by (auto simp: cras_rstream_create_def Let_def split: if_splits option.splits sum.splits)

lemma accepted_direction:
  assumes "verify_rstream_parameters c False \<ge> 0"
  shows "unat (rc_direction c) < CRAS_NUM_DIRECTIONS"
  using assms by (elim verify_accepts) auto

lemma buffer_frames_small:
  assumes "verify_rstream_parameters c False \<ge> 0"
  shows "unat (rc_buffer_frames c) < 1920000"
  using assms by (elim verify_accepts) linarith

lemma rs_inv_create:
  assumes "cras_rstream_create phys_width env alloc now locked c sys = (Inr (s, c'), sys')"
  shows "rs_inv s"
proof -
  note C = create_cases [OF assms]
  have "unat (ucast (rc_buffer_frames c) :: u32) < 1920000"
    using buffer_frames_small [OF C(1)] by (simp add: unat_ucast_u32_u64)
  then have "(ucast (rc_buffer_frames c) :: u32) \<noteq> - 1"
    by (auto simp: unsigned_minus_1_eq_mask mask_eq_exp_minus_1)
  then have "bs_inv (buf_state s)" by (simp add: C(3) bs_inv_create)
  moreover have "dev_table s = Map.empty"
    by (auto simp: dev_table_def C(3) buffer_share_create_def bs_lookup_None fun_eq_iff)
  ultimately show ?thesis using C by (simp add: rs_inv_def)
qed

section \<open>Properties\<close>

text \<open>Claim C23.  In every reachable state of a stream, the number of attached devices is the number
  of devices in the table, and the master device is an attached device together with its pointer, or
  none when no device is attached.\<close>

theorem rstream_master_attached:
  assumes "rs_reach s"
  shows "num_attached_devs s = int (card (dom (dev_table s))) \<and>
    (if m_dev_id (master_dev s) = NO_DEVICE then dom (dev_table s) = {}
     else cras_rstream_dev_ptr s (m_dev_id (master_dev s)) = m_dev_ptr (master_dev s) \<and>
       m_dev_id (master_dev s) \<in> dom (dev_table s))"
proof -
  have "rs_inv s"
    using assms
  proof (induction rule: rs_reach.induct)
    case (create phys_width env alloc now locked c sys s c' sys')
    then show ?case by (rule rs_inv_create)
  next
    case (attach s i junk ptr s')
    then show ?case using rs_inv_attach by blast
  next
    case (detach s i)
    then show ?case using rs_inv_detach by blast
  next
    case (advance s frames i)
    then show ?case by (simp add: rs_inv_offset_update)
  next
    case (commit_input s)
    then show ?case using rs_inv_new_write_point
      by (simp add: cras_rstream_update_input_write_pointer_def case_prod_beta)
  next
    case (commit_output s)
    then show ?case using rs_inv_new_write_point
      by (simp add: cras_rstream_update_output_read_pointer_def case_prod_beta)
  qed
  then show ?thesis
    by (auto simp: rs_inv_def cras_rstream_dev_ptr_def buffer_share_get_data_spec bs_data_def
        dev_table_def split: if_splits)
qed

definition sample_config :: "u64 \<Rightarrow> cras_rstream_config" where
  "sample_config ch =
     \<lparr>rc_stream_id = 0x10001, rc_stream_type = 0, rc_client_type = 0, rc_direction = CRAS_STREAM_INPUT,
      rc_dev_idx = 0, rc_flags = 0, rc_effects = 0,
      rc_format = Some \<lparr>pcm_format = S16_LE, frame_rate = 8000, num_channels = ch,
        channel_layout = replicate 11 (- 1)\<rparr>,
      rc_buffer_frames = 16, rc_cb_threshold = 16, rc_audio_fd = 5, rc_client_shm_fd = - 1,
      rc_client_shm_size = 0, rc_buffer_offsets = [0, 0], rc_client = 1\<rparr>"

fun sample_width :: "snd_pcm_format \<Rightarrow> nat" where
  "sample_width U8 = 8"
| "sample_width S16_LE = 16"
| "sample_width _ = 32"

definition sample_env :: "nat \<Rightarrow> shm_env" where
  "sample_env n = \<lparr>header_rc = 0, samples_rc = 0, map_rc = 0, area = replicate n 0\<rparr>"

lemma sample_config_accepted: "verify_rstream_parameters (sample_config 2) False = 0"
  by code_simp

lemma sample_create:
  "\<exists>s c' sys'. cras_rstream_create sample_width (sample_env 128) True (Timespec 1 0) True (sample_config 2)
     locked_state = (Inr (s :: unit cras_rstream, c'), sys')"
  by (simp add: cras_rstream_create_def sample_config_accepted)
    (simp add: sample_config_def setup_shm_area_def sample_env_def Let_def)

theorem rstream_master_attached_witness:
  "\<exists>s :: unit cras_rstream. rs_reach s \<and> num_attached_devs s = int (card (dom (dev_table s)))"
  using sample_create rs_reach.create rstream_master_attached by blast



text \<open>A stream without channels is accepted: the test \<^verbatim>\<open>num_channels < 0\<close> never holds for an
  unsigned number.  Its frames have zero bytes, by which the server later divides.\<close>

theorem rstream_zero_channels_accepted:
  "verify_rstream_parameters (sample_config 0) False = 0 \<and>
   stream_frame_bytes w (the (rc_format (sample_config 0))) = 0"
  by (rule conjI, code_simp) (simp add: sample_config_def stream_frame_bytes_def)

definition client_shm_config :: cras_rstream_config where
  "client_shm_config = (sample_config 2)\<lparr>rc_client_shm_fd := 7, rc_client_shm_size := 1\<rparr>"

lemma client_shm_accepted: "verify_rstream_parameters client_shm_config False = 0"
  by code_simp



definition sample_stream :: "unit cras_rstream" where
  "sample_stream =
     \<lparr>stream_id = 1, stream_type = 0, client_type = 0, direction = CRAS_STREAM_OUTPUT, flags = 0, fd = 5,
      buffer_frames = 2, cb_threshold = 2, is_draining = 0,
      master_dev = \<lparr>m_dev_id = 5, m_dev_ptr = Some ()\<rparr>, client = 1, shm = sample_shm 0,
      rs_format = stereo [0, 1, -1, -1, -1, -1, -1, -1, -1, -1, -1], next_cb_ts = Timespec 0 0,
      sleep_interval_ts = Timespec 0 0, last_fetch_ts = Timespec 0 0, longest_fetch_interval = Timespec 0 0,
      start_ts = Timespec 0 0, first_missed_cb_ts = Timespec 0 0,
      buf_state = \<lparr>buf_sz = 2, id_sz = 2, wr_idx = [\<lparr>used = True, dev_id = 5, offset = 1, data = Some ()\<rparr>,
        \<lparr>used = True, dev_id = 6, offset = 2, data = Some ()\<rparr>]\<rparr>,
      num_attached_devs = 2, num_missed_cb = 0, queued_frames = 0, is_pinned = False, pinned_dev_idx = 0,
      triggered = False\<rparr>"


text \<open>The messages that end the wait for a reply of a stream.\<close>

definition clears_pending :: "'d cras_rstream \<Rightarrow> audio_message \<Rightarrow> bool" where
  "clears_pending s msg \<longleftrightarrow>
     direction s = CRAS_STREAM_INPUT \<and> msg_id msg = AUDIO_MESSAGE_DATA_CAPTURED \<or>
     direction s = CRAS_STREAM_OUTPUT \<and> msg_id msg = AUDIO_MESSAGE_DATA_READY"

definition queued_msgs :: "audio_message list \<Rightarrow> nat \<Rightarrow> poll_round" where
  "queued_msgs msgs k = (if k < length msgs then \<lparr>poll_rc = 1, pollin = True, readable = ReadBytes 12 (msgs ! k)\<rparr>
     else \<lparr>poll_rc = 0, pollin = False, readable = ReadError EAGAIN\<rparr>)"

lemma queued_msgs_Cons: "(\<lambda>k. queued_msgs (m # msgs) (Suc k)) = queued_msgs msgs"
  by (simp add: queued_msgs_def fun_eq_iff)

lemma handle_message:
  assumes "0 \<le> msg_error m"
  shows "read_and_handle_client_message (ReadBytes 12 m) s = (12, if clears_pending s m then clear_pending_reply s else s)"
  using assms by (auto simp: read_and_handle_client_message_def clears_pending_def Let_def clear_pending_reply_def)

lemma flush_loop_queue:
  "list_all (\<lambda>m. 0 \<le> msg_error m) msgs \<Longrightarrow>
    \<exists>s'. flush_loop (Suc (length msgs)) (queued_msgs msgs) s = Some s' \<and> direction s' = direction s \<and>
      (cras_rstream_is_pending_reply s' \<longleftrightarrow>
        cras_rstream_is_pending_reply s \<and> \<not> list_ex (clears_pending s) msgs)"
proof (induction msgs arbitrary: s)
  case Nil
  then show ?case by (simp add: queued_msgs_def)
next
  case (Cons m msgs)
  let ?s = "if clears_pending s m then clear_pending_reply s else s"
  have d: "clears_pending ?s = clears_pending s" "direction ?s = direction s"
    by (auto simp: clears_pending_def fun_eq_iff clear_pending_reply_def)
  have p: "cras_rstream_is_pending_reply ?s \<longleftrightarrow> cras_rstream_is_pending_reply s \<and> \<not> clears_pending s m"
    by (simp add: cras_rstream_is_pending_reply_def clear_pending_reply_def
        cras_shm_set_callback_pending_def cras_shm_callback_pending_def)
  have "flush_loop (Suc (length (m # msgs))) (queued_msgs (m # msgs)) s =
      flush_loop (Suc (length msgs)) (queued_msgs msgs) ?s"
    using Cons.prems by (subst flush_loop.simps(2))
      (simp add: queued_msgs_def [of _ 0] handle_message Let_def queued_msgs_Cons del: flush_loop.simps)
  with Cons.IH [of ?s] Cons.prems d p show ?case by (simp del: flush_loop.simps)
qed



text \<open>The flush does not return when \<^verbatim>\<open>poll\<close> keeps reporting an event on the socket other
  than data, such as \<^verbatim>\<open>POLLNVAL\<close> or \<^verbatim>\<open>POLLERR\<close>: nothing is read and the loop polls again.\<close>

theorem rstream_flush_spins:
  "flush_loop fuel (\<lambda>k. \<lparr>poll_rc = 1, pollin = False, readable = r\<rparr>) s = None"
  by (induction fuel) simp_all

lemma new_write_point_le:
  assumes "bs_inv mix" "bs_offset mix i = Some x" "x \<le> buf_sz mix"
  shows "fst (buffer_share_get_new_write_point mix) \<le> x"
proof -
  have "bs_ready mix" using assms by (auto simp: bs_ready_iff)
  then show ?thesis
    using new_write_point_min(1) [OF assms(1)] bs_lower [OF assms(2)] by simp
qed



text \<open>The cached number of queued frames is the number of frames in the double buffer,
  limited to the buffer size, when the double buffer is well formed.\<close>

theorem rstream_queued_frames_spec:
  assumes "shm_inv (shm s)" "unat (buffer_frames s) < 2 ^ 31"
  shows "queued_frames (cras_rstream_update_queued_frames s) =
    int (min (length (shm_queue (shm s)) div fby (shm s)) (unat (buffer_frames s)))"
proof -
  let ?n = "length (shm_queue (shm s)) div fby (shm s)"
  have n: "?n < 2147483648"
    using shm_queue_bound [OF assms(1)] by (meson div_le_dividend le_less_trans)
  have f: "cras_shm_get_frames (shm s) = int ?n" by (rule get_frames_queue [OF assms(1)])
  have un: "unat (of_nat ?n :: u64) = ?n" using n by (intro unat_of_nat_u64) simp
  let ?m = "if (of_nat ?n :: u64) < buffer_frames s then of_nat ?n else buffer_frames s"
  have m: "unat ?m = min ?n (unat (buffer_frames s))"
    using un by (auto simp: word_less_nat_alt)
  then have "unat (ucast ?m :: u32) = min ?n (unat (buffer_frames s))"
    using n by (simp add: unat_ucast_u32_u64 min_less_iff_disj)
  moreover from this have "sint (ucast ?m :: u32) = int (min ?n (unat (buffer_frames s)))"
    using n by (subst sint_small_u32) (simp_all add: min_less_iff_disj)
  ultimately show ?thesis
    by (simp add: cras_rstream_update_queued_frames_def f)
qed

theorem rstream_queued_frames_spec_witness:
  "queued_frames (cras_rstream_update_queued_frames sample_stream) =
    int (min (length (shm_queue (shm sample_stream)) div fby (shm sample_stream)) (unat (buffer_frames sample_stream)))"
  by (rule rstream_queued_frames_spec) (simp_all add: sample_stream_def sample_shm_inv)

text \<open>A client can make the double buffer hold a broken frame, which \<^verbatim>\<open>cras_shm_get_frames\<close>
  reports as \<^verbatim>\<open>-EIO\<close>; compared without sign, that error counts as more frames than the buffer holds,
  and the stream is taken to be full.\<close>

theorem rstream_queued_frames_error:
  assumes "cras_shm_get_frames (shm s) = - EIO" "unat (buffer_frames s) < 2 ^ 31"
  shows "queued_frames (cras_rstream_update_queued_frames s) = int (unat (buffer_frames s))"
proof -
  have "unat (of_int (- EIO) :: u64) = 18446744073709551611" by simp
  then have "\<not> (of_int (- EIO) :: u64) < buffer_frames s"
    using assms(2) by (simp only: word_less_nat_alt) simp
  moreover have "sint (ucast (buffer_frames s) :: u32) = int (unat (buffer_frames s))"
    using assms(2) by (subst sint_small_u32) (simp_all add: unat_ucast_u32_u64)
  ultimately show ?thesis
    using assms(1) by (simp add: cras_rstream_update_queued_frames_def)
qed

definition broken_stream :: "unit cras_rstream" where
  "broken_stream = sample_stream\<lparr>shm := upd_header (\<lambda>h. h\<lparr>write_offset := [3, 0]\<rparr>) (sample_shm 0)\<rparr>"

theorem rstream_queued_frames_error_witness:
  "queued_frames (cras_rstream_update_queued_frames broken_stream) = int (unat (buffer_frames broken_stream))"
proof (rule rstream_queued_frames_error)
  show "cras_shm_get_frames (shm broken_stream) = - EIO"
    by (simp add: broken_stream_def sample_shm_def cras_shm_get_frames_def cras_shm_get_bytes_queued_def
        bytes_queued_in_def)
qed (simp add: broken_stream_def sample_stream_def)

end
