(* ===== verification/Stream_List.thy ===== *)
theory Stream_List
  imports Rstream "HOL-Library.Multiset"
begin

text \<open>
  \<^verbatim>\<open>server/stream_list.c\<close>: the list of all streams and the streams that drain before they are
  destroyed.  The four callbacks are function pointers that \<^verbatim>\<open>cras_iodev_list.c\<close> sets; here they are
  functions on the rest of the server's state \<open>'w\<close>.  The address that \<^verbatim>\<open>calloc\<close> returns for a new
  timer and the current time are arguments.
\<close>

record ('d, 'w) stream_callbacks =
  stream_added_cb :: "'d cras_rstream \<Rightarrow> 'w \<Rightarrow> int \<times> 'w"
  stream_removed_cb :: "'d cras_rstream \<Rightarrow> 'w \<Rightarrow> int \<times> 'w"
  stream_create_cb :: "cras_rstream_config \<Rightarrow> 'w \<Rightarrow> (int + 'd cras_rstream \<times> cras_rstream_config) \<times> 'w"
  stream_destroy_cb :: "'d cras_rstream \<Rightarrow> 'w \<Rightarrow> 'w"

record 'd stream_list =
  streams :: "'d cras_rstream list"
  streams_to_delete :: "'d cras_rstream list"
  drain_timer :: "nat option"
  timer_manager :: "unit cras_tm"

definition stream_list_create :: "unit cras_tm \<Rightarrow> 'd stream_list" where
  "stream_list_create tm = \<lparr>streams = [], streams_to_delete = [], drain_timer = None, timer_manager = tm\<rparr>"

text \<open>The loop of \<^verbatim>\<open>delete_streams\<close>: the streams that stay, the largest delay and the state.\<close>

fun delete_loop :: "('d, 'w) stream_callbacks \<Rightarrow> 'd cras_rstream list \<Rightarrow> int \<Rightarrow> 'w \<Rightarrow>
    'd cras_rstream list \<times> int \<times> 'w" where
  "delete_loop cbs [] mx w = ([], mx, w)"
| "delete_loop cbs (s # ss) mx w =
     (let (drain_delay, w1) = stream_removed_cb cbs s w in
      if drain_delay \<noteq> 0
      then let (kept, mx', w') = delete_loop cbs ss (max mx drain_delay) w1 in (s # kept, mx', w')
      else delete_loop cbs ss mx (stream_destroy_cb cbs s w1))"

definition delete_streams :: "('d, 'w) stream_callbacks \<Rightarrow> nat option \<Rightarrow> timespec \<Rightarrow>
    'd stream_list \<times> 'w \<Rightarrow> 'd stream_list \<times> 'w" where
  "delete_streams cbs addr now st =
     (let (list, w) = st;
          (kept, max_drain_delay, w') = delete_loop cbs (streams_to_delete list) 0 w;
          list1 = list\<lparr>streams_to_delete := kept, drain_timer := None\<rparr>
      in if max_drain_delay \<noteq> 0
         then let (t, tm) = cras_tm_create_timer addr now (timer_manager list1)
                (of_int (max max_drain_delay 10)) ()
           in (list1\<lparr>drain_timer := t, timer_manager := tm\<rparr>, w')
         else (list1, w'))"

definition cancel_drain_timer :: "'d stream_list \<Rightarrow> 'd stream_list" where
  "cancel_drain_timer list =
     (case drain_timer list of None \<Rightarrow> list
      | Some t \<Rightarrow> list\<lparr>timer_manager := cras_tm_cancel_timer (timer_manager list) t, drain_timer := None\<rparr>)"

definition stream_list_add :: "('d, 'w) stream_callbacks \<Rightarrow> cras_rstream_config \<Rightarrow>
    'd stream_list \<times> 'w \<Rightarrow> (int \<times> 'd cras_rstream option) \<times> 'd stream_list \<times> 'w" where
  "stream_list_add cbs cfg st =
     (let (list, w) = st in
      case stream_create_cb cbs cfg w of
        (Inl rc, w1) \<Rightarrow> ((rc, None), list, w1)
      | (Inr (s, _), w1) \<Rightarrow>
          let list1 = list\<lparr>streams := streams list @ [s]\<rparr>;
              (rc, w2) = stream_added_cb cbs s w1
          in if rc \<noteq> 0 then ((rc, Some s), list, stream_destroy_cb cbs s w2)
             else ((0, Some s), list1, w2))"

definition stream_list_rm :: "('d, 'w) stream_callbacks \<Rightarrow> nat option \<Rightarrow> timespec \<Rightarrow> u32 \<Rightarrow>
    'd stream_list \<times> 'w \<Rightarrow> int \<times> 'd stream_list \<times> 'w" where
  "stream_list_rm cbs addr now i st =
     (let (list, w) = st in
      case find (\<lambda>s. stream_id s = i) (streams list) of
        None \<Rightarrow> (- EINVAL, list, w)
      | Some s \<Rightarrow>
          let list1 = list\<lparr>streams := remove1 s (streams list),
                streams_to_delete := streams_to_delete list @ [s]\<rparr>
          in (0, delete_streams cbs addr now (cancel_drain_timer list1, w)))"

definition stream_list_rm_all_client_streams :: "('d, 'w) stream_callbacks \<Rightarrow> nat option \<Rightarrow> timespec \<Rightarrow> nat \<Rightarrow>
    'd stream_list \<times> 'w \<Rightarrow> int \<times> 'd stream_list \<times> 'w" where
  "stream_list_rm_all_client_streams cbs addr now c st =
     (let (list, w) = st;
          list1 = list\<lparr>streams := filter (\<lambda>s. client s \<noteq> c) (streams list),
            streams_to_delete := streams_to_delete list @ filter (\<lambda>s. client s = c) (streams list)\<rparr>
      in (0, delete_streams cbs addr now (cancel_drain_timer list1, w)))"

definition stream_list_has_pinned_stream :: "'d stream_list \<Rightarrow> u32 \<Rightarrow> bool" where
  "stream_list_has_pinned_stream list dev_idx \<longleftrightarrow>
     list_ex (\<lambda>s. is_pinned s \<and> pinned_dev_idx s = dev_idx) (streams list)"

section \<open>No stream is lost or destroyed twice\<close>

text \<open>The callbacks as far as the list cares: \<open>destroyed\<close> reads from the state which streams have been
  destroyed; only the destroy callback adds one.\<close>

locale stream_owner =
  fixes cbs :: "('d, 'w) stream_callbacks"
    and destroyed :: "'w \<Rightarrow> 'd cras_rstream multiset"
  assumes added_keeps: "destroyed (snd (stream_added_cb cbs s w)) = destroyed w"
    and removed_keeps: "destroyed (snd (stream_removed_cb cbs s w)) = destroyed w"
    and create_keeps: "destroyed (snd (stream_create_cb cbs c w)) = destroyed w"
    and destroy_adds: "destroyed (stream_destroy_cb cbs s w) = add_mset s (destroyed w)"
begin

definition owned :: "'d stream_list \<times> 'w \<Rightarrow> 'd cras_rstream multiset" where
  "owned st = mset (streams (fst st)) + mset (streams_to_delete (fst st)) + destroyed (snd st)"

lemma delete_loop_owned:
  "delete_loop cbs ss mx w = (kept, mx', w') \<Longrightarrow> mset kept + destroyed w' = mset ss + destroyed w"
proof (induction ss arbitrary: mx w kept mx' w')
  case (Cons s ss)
  obtain dd w1 where r: "stream_removed_cb cbs s w = (dd, w1)" by fastforce
  have w1: "destroyed w1 = destroyed w" using removed_keeps [of s w] r by simp
  show ?case
  proof (cases "dd = 0")
    case True
    with Cons.prems r have "delete_loop cbs ss mx (stream_destroy_cb cbs s w1) = (kept, mx', w')" by simp
    from Cons.IH [OF this] show ?thesis by (simp add: destroy_adds w1)
  next
    case False
    obtain kept1 where "delete_loop cbs ss (max mx dd) w1 = (kept1, mx', w')" "kept = s # kept1"
      using Cons.prems r False by (auto split: prod.splits)
    with Cons.IH [OF this(1)] show ?thesis by (simp add: w1)
  qed
qed simp

lemma delete_streams_owned: "owned (delete_streams cbs addr now st) = owned st"
proof -
  obtain kept mx w' where l: "delete_loop cbs (streams_to_delete (fst st)) 0 (snd st) = (kept, mx, w')"
    using prod_cases3 by blast
  from delete_loop_owned [OF l] l show ?thesis
    by (cases st) (auto simp: owned_def delete_streams_def Let_def ac_simps split: prod.splits)
qed

lemma cancel_drain_owned: "owned (cancel_drain_timer list, w) = owned (list, w)"
  by (simp add: owned_def cancel_drain_timer_def split: option.splits)

lemma rm_owned: "owned (snd (stream_list_rm cbs addr now i st)) = owned st"
proof (cases "find (\<lambda>s. stream_id s = i) (streams (fst st))")
  case None
  then show ?thesis by (cases st) (simp add: stream_list_rm_def)
next
  case (Some s)
  then have "s \<in> set (streams (fst st))" by (auto simp: find_Some_iff)
  then have "owned (fst st\<lparr>streams := remove1 s (streams (fst st)),
      streams_to_delete := streams_to_delete (fst st) @ [s]\<rparr>, snd st) = owned st"
    by (simp add: owned_def)
  with Some show ?thesis
    by (cases st) (simp add: stream_list_rm_def delete_streams_owned cancel_drain_owned)
qed

lemma rm_all_owned: "owned (snd (stream_list_rm_all_client_streams cbs addr now c st)) = owned st"
proof -
  have "mset (filter (\<lambda>s. client s \<noteq> c) xs) + mset (filter (\<lambda>s. client s = c) xs) = mset xs"
    for xs :: "'d cras_rstream list"
    by (induction xs) simp_all
  then show ?thesis
    by (cases st) (simp add: stream_list_rm_all_client_streams_def Let_def delete_streams_owned
        cancel_drain_owned, simp add: owned_def ac_simps)
qed

lemma add_owned:
  "owned (snd (stream_list_add cbs cfg st)) =
    (case fst (stream_create_cb cbs cfg (snd st)) of Inl _ \<Rightarrow> owned st | Inr (s, _) \<Rightarrow> add_mset s (owned st))"
proof -
  have "destroyed w2 = destroyed w1" if "stream_added_cb cbs s w1 = (rc, w2)" for s w1 rc w2
    using added_keeps [of s w1] that by simp
  moreover have "destroyed w1 = destroyed w" if "stream_create_cb cbs cfg w = (r, w1)" for w r w1
    using create_keeps [of cfg w] that by simp
  ultimately show ?thesis
    by (cases st) (auto simp: stream_list_add_def Let_def owned_def destroy_adds split: prod.splits sum.splits)
qed

end

section \<open>The callbacks of the server\<close>

text \<open>\<^verbatim>\<open>cras_iodev_list_init\<close> creates the list with \<^verbatim>\<open>cras_rstream_create\<close> and \<^verbatim>\<open>cras_rstream_destroy\<close>.  The
  state is the system state, the streams destroyed so far, and the rest, which the callbacks for
  added and removed streams may change.\<close>

type_synonym ('h, 's, 'd, 'r) world = "('h, 's) system_state \<times> 'd cras_rstream multiset \<times> 'r"

definition server_callbacks :: "(snd_pcm_format \<Rightarrow> nat) \<Rightarrow> shm_env \<Rightarrow> bool \<Rightarrow> timespec \<Rightarrow>
    ('d cras_rstream \<Rightarrow> 'r \<Rightarrow> int \<times> 'r) \<Rightarrow> ('d cras_rstream \<Rightarrow> 'r \<Rightarrow> int \<times> 'r) \<Rightarrow>
    ('d, ('h, 's, 'd, 'r) world) stream_callbacks" where
  "server_callbacks pw env alloc now added removed =
     \<lparr>stream_added_cb = (\<lambda>s (sys, gone, r). let (rc, r') = added s r in (rc, sys, gone, r')),
      stream_removed_cb = (\<lambda>s (sys, gone, r). let (rc, r') = removed s r in (rc, sys, gone, r')),
      stream_create_cb = (\<lambda>c (sys, gone, r).
        let (res, sys') = cras_rstream_create pw env alloc now True c sys in (res, sys', gone, r)),
      stream_destroy_cb = (\<lambda>s (sys, gone, r). (cras_rstream_destroy True now s sys, add_mset s gone, r))\<rparr>"

interpretation srv: stream_owner "server_callbacks pw env alloc now added removed" "\<lambda>(sys, gone, r). gone"
  for pw env alloc now added removed
  by unfold_locales (auto simp: server_callbacks_def Let_def split: prod.splits)

section \<open>The exported counts follow the list\<close>

definition live_dirs :: "'d stream_list \<Rightarrow> u32 list" where
  "live_dirs list = map direction (streams list @ streams_to_delete list)"

lemma counts_ok_mset: "mset live = mset live' \<Longrightarrow> counts_ok live s = counts_ok live' s"
  by (metis counts_ok_def count_mset set_mset_mset)

definition list_counted :: "'d stream_list \<times> ('h, 's, 'd, 'r) world \<Rightarrow> bool" where
  "list_counted st \<longleftrightarrow> counts_ok (live_dirs (fst st)) (fst (snd st))"

lemma delete_loop_counts:
  assumes "delete_loop (server_callbacks pw env alloc now added removed) ss mx w = (kept, mx', w')"
    "counts_ok (pre @ map direction ss) (fst w)"
  shows "counts_ok (pre @ map direction kept) (fst w')"
  using assms
proof (induction ss arbitrary: pre mx w kept mx' w')
  case (Cons s ss)
  let ?cbs = "server_callbacks pw env alloc now added removed"
  obtain dd w1 where r: "stream_removed_cb ?cbs s w = (dd, w1)" by (rule prod.exhaust)
  have sys: "fst w1 = fst w" using r by (auto simp: server_callbacks_def split: prod.splits)
  show ?case
  proof (cases "dd = 0")
    case True
    let ?w = "stream_destroy_cb ?cbs s w1"
    have "delete_loop ?cbs ss mx ?w = (kept, mx', w')"
      using Cons.prems(1) r True by simp
    moreover have "fst ?w = cras_system_state_stream_removed True now (direction s) (fst w)"
      using sys by (auto simp: server_callbacks_def cras_rstream_destroy_def split: prod.splits)
    moreover have "counts_ok (remove1 (direction s) (pre @ map direction (s # ss)))
        (cras_system_state_stream_removed True now (direction s) (fst w))"
      using Cons.prems(2) by (rule counts_ok_removed) simp
    moreover have "mset (remove1 (direction s) (pre @ map direction (s # ss))) = mset (pre @ map direction ss)"
      by simp
    ultimately show ?thesis
      using Cons.IH [of mx ?w kept mx' w' pre] counts_ok_mset by (metis (no_types, lifting))
  next
    case False
    obtain kept1 where k: "delete_loop ?cbs ss (max mx dd) w1 = (kept1, mx', w')" "kept = s # kept1"
      using Cons.prems(1) r False by (auto split: prod.splits)
    have "counts_ok ((pre @ [direction s]) @ map direction ss) (fst w1)"
      using Cons.prems(2) sys by simp
    from Cons.IH [OF k(1) this] k(2) show ?thesis by simp
  qed
qed simp

lemma list_counted_delete:
  assumes "list_counted st"
  shows "list_counted (delete_streams (server_callbacks pw env alloc now added removed) addr tnow st)"
proof -
  obtain kept mx w' where l: "delete_loop (server_callbacks pw env alloc now added removed)
      (streams_to_delete (fst st)) 0 (snd st) = (kept, mx, w')"
    by (rule prod_cases3)
  have "counts_ok (map direction (streams (fst st)) @ map direction kept) (fst w')"
    using delete_loop_counts [OF l] assms by (simp add: list_counted_def live_dirs_def)
  with l show ?thesis
    by (cases st) (auto simp: delete_streams_def Let_def list_counted_def live_dirs_def split: prod.splits)
qed

lemma list_counted_perm:
  assumes "list_counted (list, w)" "mset (live_dirs list') = mset (live_dirs list)"
  shows "list_counted (list', w)"
  using assms counts_ok_mset by (auto simp: list_counted_def)

lemma live_dirs_mset:
  "mset (streams l @ streams_to_delete l) = mset (streams l' @ streams_to_delete l') \<Longrightarrow>
    mset (live_dirs l) = mset (live_dirs l')"
  by (metis live_dirs_def mset_map)

lemma live_dirs_cancel [simp]: "live_dirs (cancel_drain_timer list) = live_dirs list"
  by (simp add: live_dirs_def cancel_drain_timer_def split: option.splits)

lemma list_counted_rm:
  assumes "list_counted st"
  shows "list_counted (snd (stream_list_rm (server_callbacks pw env alloc now added removed) addr tnow i st))"
proof (cases "find (\<lambda>s. stream_id s = i) (streams (fst st))")
  case None
  then show ?thesis using assms by (cases st) (simp add: stream_list_rm_def)
next
  case (Some s)
  let ?l = "fst st\<lparr>streams := remove1 s (streams (fst st)), streams_to_delete := streams_to_delete (fst st) @ [s]\<rparr>"
  have "s \<in> set (streams (fst st))" using Some by (auto simp: find_Some_iff)
  then have "mset (streams ?l @ streams_to_delete ?l) = mset (streams (fst st) @ streams_to_delete (fst st))"
    by simp
  then have "mset (live_dirs (cancel_drain_timer ?l)) = mset (live_dirs (fst st))"
    unfolding live_dirs_cancel by (rule live_dirs_mset)
  then have "list_counted (cancel_drain_timer ?l, snd st)"
    using list_counted_perm [of "fst st" "snd st"] assms by simp
  with Some show ?thesis
    by (cases st) (simp add: stream_list_rm_def list_counted_delete)
qed

lemma list_counted_rm_all:
  assumes "list_counted st"
  shows "list_counted (snd (stream_list_rm_all_client_streams
    (server_callbacks pw env alloc now added removed) addr tnow c st))"
proof -
  let ?l = "fst st\<lparr>streams := filter (\<lambda>s. client s \<noteq> c) (streams (fst st)),
      streams_to_delete := streams_to_delete (fst st) @ filter (\<lambda>s. client s = c) (streams (fst st))\<rparr>"
  have "mset (filter (\<lambda>s. client s \<noteq> c) xs) + mset (filter (\<lambda>s. client s = c) xs) = mset xs"
    for xs :: "'a cras_rstream list"
    by (induction xs) simp_all
  then have "mset (streams ?l @ streams_to_delete ?l) = mset (streams (fst st) @ streams_to_delete (fst st))"
    by (simp add: ac_simps)
  then have "mset (live_dirs (cancel_drain_timer ?l)) = mset (live_dirs (fst st))"
    unfolding live_dirs_cancel by (rule live_dirs_mset)
  then have "list_counted (cancel_drain_timer ?l, snd st)"
    using list_counted_perm [of "fst st" "snd st"] assms by simp
  then show ?thesis
    by (cases st) (simp add: stream_list_rm_all_client_streams_def list_counted_delete)
qed

lemma list_counted_add:
  fixes st :: "'d stream_list \<times> ('h, 's, 'd, 'r) world"
  assumes "list_counted st"
  shows "list_counted (snd (stream_list_add (server_callbacks pw env alloc now added removed) c st))"
proof -
  obtain list sys gone r where st: "st = (list, sys, gone, r)" by (cases st) auto
  obtain res :: "int + 'd cras_rstream \<times> cras_rstream_config" and sys1 where cr: "cras_rstream_create pw env alloc now True c sys = (res, sys1)"
    by (rule prod.exhaust)
  show ?thesis
  proof (cases res)
    case (Inl e)
    then have "sys1 = sys"
      using cr by (auto simp: cras_rstream_create_def Let_def split: if_splits option.splits sum.splits)
    with assms Inl st cr show ?thesis
      by (simp add: stream_list_add_def server_callbacks_def list_counted_def)
  next
    case (Inr p)
    then obtain s c' where p: "res = Inr (s, c')" by (cases p) auto
    note K = create_cases [OF cr [unfolded p]]
    have d: "direction s = rc_direction c" "sys1 = cras_system_state_stream_added True (rc_direction c) sys"
      "unat (rc_direction c) < CRAS_NUM_DIRECTIONS"
      using K accepted_direction [OF K(1)] by simp_all
    have added: "counts_ok (direction s # live_dirs list) sys1"
      using assms st d by (simp add: list_counted_def counts_ok_added)
    obtain rc r1 where ad: "added s r = (rc, r1)" by (rule prod.exhaust)
    show ?thesis
    proof (cases "rc = 0")
      case True
      have "counts_ok (live_dirs (list\<lparr>streams := streams list @ [s]\<rparr>)) sys1"
        using added counts_ok_mset [of "live_dirs (list\<lparr>streams := streams list @ [s]\<rparr>)" "direction s # live_dirs list" sys1]
        by (simp add: live_dirs_def)
      with True st cr p ad show ?thesis
        by (simp add: stream_list_add_def server_callbacks_def list_counted_def)
    next
      case False
      have "counts_ok (live_dirs list) (cras_system_state_stream_removed True now (direction s) sys1)"
        using counts_ok_removed [OF added, of "direction s" now] by simp
      with False st cr p ad show ?thesis
        by (simp add: stream_list_add_def server_callbacks_def list_counted_def cras_rstream_destroy_def)
    qed
  qed
qed

lemma delete_loop_delay:
  assumes "\<And>s w. 0 \<le> fst (stream_removed_cb cbs s w)"
  shows "delete_loop cbs ss mx w = (kept, mx', w') \<Longrightarrow> 0 \<le> mx \<Longrightarrow>
    mx \<le> mx' \<and> (mx' = 0 \<longrightarrow> kept = []) \<and> (kept = [] \<longrightarrow> mx' = mx)"
proof (induction ss arbitrary: mx w kept mx' w')
  case (Cons s ss)
  obtain dd w1 where r: "stream_removed_cb cbs s w = (dd, w1)" by (rule prod.exhaust)
  have dd: "0 \<le> dd" using assms [of s w] r by simp
  show ?case
  proof (cases "dd = 0")
    case True
    with Cons.prems r have "delete_loop cbs ss mx (stream_destroy_cb cbs s w1) = (kept, mx', w')" by simp
    from Cons.IH [OF this Cons.prems(2)] show ?thesis .
  next
    case False
    obtain kept1 where k: "delete_loop cbs ss (max mx dd) w1 = (kept1, mx', w')" "kept = s # kept1"
      using Cons.prems(1) r False by (auto split: prod.splits)
    have "0 \<le> max mx dd" using dd by simp
    from Cons.IH [OF k(1) this] k(2) False dd show ?thesis by auto
  qed
qed simp

section \<open>Properties\<close>

datatype list_op = AddStream shm_env bool timespec cras_rstream_config
  | RmStream "nat option" timespec u32 | RmClient "nat option" timespec nat

definition no_env :: shm_env where
  "no_env = \<lparr>header_rc = 0, samples_rc = 0, map_rc = 0, area = []\<rparr>"

fun list_step :: "(snd_pcm_format \<Rightarrow> nat) \<Rightarrow> ('d cras_rstream \<Rightarrow> 'r \<Rightarrow> int \<times> 'r) \<Rightarrow>
    ('d cras_rstream \<Rightarrow> 'r \<Rightarrow> int \<times> 'r) \<Rightarrow> list_op \<Rightarrow>
    'd stream_list \<times> ('h, 's, 'd, 'r) world \<Rightarrow> 'd stream_list \<times> ('h, 's, 'd, 'r) world" where
  "list_step pw added removed (AddStream env alloc now c) st =
     snd (stream_list_add (server_callbacks pw env alloc now added removed) c st)"
| "list_step pw added removed (RmStream addr now i) st =
     snd (stream_list_rm (server_callbacks pw no_env True now added removed) addr now i st)"
| "list_step pw added removed (RmClient addr now cl) st =
     snd (stream_list_rm_all_client_streams (server_callbacks pw no_env True now added removed) addr now cl st)"

lemma list_counted_step: "list_counted st \<Longrightarrow> list_counted (list_step pw added removed op st)"
  by (cases op) (simp_all add: list_counted_add list_counted_rm list_counted_rm_all)

lemma list_counted_run: "list_counted st \<Longrightarrow> list_counted (fold (list_step pw added removed) ops st)"
  by (induction ops arbitrary: st) (simp_all add: list_counted_step)

text \<open>Claim C2.  From the start of the server, over any sequence of added streams, removed streams and
  disconnected clients, whatever the devices answer, the counts exported to clients are the numbers
  of streams of each direction that exist, those that still drain included.\<close>

theorem stream_list_counts:
  fixes r :: 'r and added removed :: "'d cras_rstream \<Rightarrow> 'r \<Rightarrow> int \<times> 'r" and z :: 's
  shows "list_counted (fold (list_step pw added removed) ops
    (stream_list_create tm, (cras_system_state_init z b :: ('h, 's) system_state), {#}, r))"
  by (rule list_counted_run)
    (simp add: list_counted_def live_dirs_def stream_list_create_def counts_ok_def cras_system_state_init_def
      direction_cases nth_replicate)

text \<open>Claim C25.  Removing streams neither loses one nor destroys one twice: the streams in use, those
  that drain and those destroyed are together the same before and after.\<close>

theorem stream_list_conserves:
  fixes st :: "'d stream_list \<times> ('h, 's, 'd, 'r) world"
  assumes "op = RmStream addr now i \<or> op = RmClient addr now cl"
  shows "(case list_step pw added removed op st of (list', sys', gone', r') \<Rightarrow>
      mset (streams list') + mset (streams_to_delete list') + gone') =
    (case st of (list, sys, gone, r) \<Rightarrow> mset (streams list) + mset (streams_to_delete list) + gone)"
  using assms srv.rm_owned [of pw no_env True now added removed addr now i st]
    srv.rm_all_owned [of pw no_env True now added removed addr now cl st]
  by (auto simp: srv.owned_def split: prod.splits)

theorem stream_list_conserves_witness:
  "(case list_step sample_width (\<lambda>s r. (0, r)) (\<lambda>s r. (r, r)) (RmStream (Some 3) (Timespec 1 0) 1)
      (\<lparr>streams = [sample_stream], streams_to_delete = [], drain_timer = None, timer_manager = cras_tm_init\<rparr>,
        locked_state, {#}, 0) of (list', sys', gone', r') \<Rightarrow>
      mset (streams list') + mset (streams_to_delete list') + gone') = {#sample_stream#}"
  using stream_list_conserves [of "RmStream (Some 3) (Timespec 1 0) 1" "Some 3" "Timespec 1 0" 1 0 sample_width
      "\<lambda>s r. (0, r)" "\<lambda>s r. (r, r)"
      "(\<lparr>streams = [sample_stream], streams_to_delete = [], drain_timer = None, timer_manager = cras_tm_init\<rparr>,
        locked_state, {#}, 0)"] by simp


definition drain_cbs :: "int \<Rightarrow> (unit, unit) stream_callbacks" where
  "drain_cbs delay = \<lparr>stream_added_cb = (\<lambda>s w. (0, w)), stream_removed_cb = (\<lambda>s w. (delay, w)),
     stream_create_cb = (\<lambda>c w. (Inl (- EINVAL), w)), stream_destroy_cb = (\<lambda>s w. w)\<rparr>"

definition one_stream :: "unit stream_list" where
  "one_stream = \<lparr>streams = [], streams_to_delete = [sample_stream], drain_timer = None, timer_manager = cras_tm_init\<rparr>"


text \<open>When the audio thread cannot be reached, the callback returns a negative error; the
  stream then stays among those that drain, and no timer is armed to try again.\<close>

theorem drain_error_strands_stream:
  assumes "delay < 0"
  shows "fst (delete_streams (drain_cbs delay) (Some 4) now (one_stream, ())) = one_stream"
  using assms by (simp add: delete_streams_def drain_cbs_def one_stream_def)

theorem drain_error_strands_stream_witness:
  "fst (delete_streams (drain_cbs (- EIO)) (Some 4) (Timespec 0 0) (one_stream, ())) = one_stream"
  by (rule drain_error_strands_stream) simp

end
