(* ===== verification/Rclient.thy ===== *)
theory Rclient
  imports Stream_List
begin

text \<open>
  \<^verbatim>\<open>server/cras_rclient_util.c\<close>, the entry points of \<^verbatim>\<open>cras_rclient.c\<close> and the receiving function of
  \<^verbatim>\<open>cras_server.c\<close>: messages of a client that connect and disconnect streams.  A message carries up to
  two file descriptors; the model lists every descriptor the server closes, so that ownership can be
  checked.  What \<^verbatim>\<open>send_message_to_client\<close> returns is an argument.
\<close>

abbreviation EBADF :: int where "EBADF \<equiv> 9"

record cras_rclient =
  rclient_id :: u64
  rclient_addr :: nat
  supported_directions :: int

datatype server_message_id = CRAS_SERVER_CONNECT_STREAM | CRAS_SERVER_DISCONNECT_STREAM
  | CRAS_SERVER_SET_AEC_DUMP | OtherMessage nat

text \<open>A message is its length, its identifier, and what a cast of its bytes to each type of message
  gives.\<close>

record cras_server_message =
  srv_length :: u32
  srv_id :: server_message_id
  as_connect :: cras_connect_message
  as_connect_old :: cras_connect_message
  as_disconnect :: u32

abbreviation sizeof_server_message :: nat where "sizeof_server_message \<equiv> 8"
abbreviation sizeof_connect_message :: nat where "sizeof_connect_message \<equiv> 99"
abbreviation sizeof_connect_message_old :: nat where "sizeof_connect_message_old \<equiv> 79"
abbreviation sizeof_disconnect_stream_message :: nat where "sizeof_disconnect_stream_message \<equiv> 12"
abbreviation CRAS_PROTO_VER :: u32 where "CRAS_PROTO_VER \<equiv> 7"

definition MSG_LEN_VALID :: "cras_server_message \<Rightarrow> nat \<Rightarrow> bool" where
  "MSG_LEN_VALID msg sz \<longleftrightarrow> unat (srv_length msg) \<ge> sz"

text \<open>\<open>as_connect_old\<close> holds the fields that the old message has; its offsets are not used.\<close>

definition convert_connect_message_old :: "cras_server_message \<Rightarrow> int + cras_connect_message" where
  "convert_connect_message_old msg =
     (if \<not> MSG_LEN_VALID msg sizeof_connect_message_old then Inl (- EINVAL)
      else let old = as_connect_old msg in
        if cm_proto_version old \<noteq> 5 \<or> CRAS_PROTO_VER \<noteq> 7 then Inl (- EINVAL)
        else Inr (old\<lparr>cm_buffer_offsets := [0, 0]\<rparr>))"

definition rclient_validate_message_fds :: "cras_server_message \<Rightarrow> u32 \<Rightarrow> int" where
  "rclient_validate_message_fds msg num_fds =
     (case srv_id msg of
        CRAS_SERVER_CONNECT_STREAM \<Rightarrow> if num_fds > 2 then - EINVAL else 0
      | CRAS_SERVER_SET_AEC_DUMP \<Rightarrow> if num_fds > 1 then - EINVAL else 0
      | _ \<Rightarrow> if num_fds > 0 then - EINVAL else 0)"

definition dir_supported :: "int \<Rightarrow> int \<Rightarrow> bool" where
  "dir_supported dirs d \<longleftrightarrow> dirs AND d \<noteq> 0"

definition rclient_validate_stream_connect_message :: "cras_rclient \<Rightarrow> cras_connect_message \<Rightarrow> int" where
  "rclient_validate_stream_connect_message cl msg =
     (if \<not> cras_valid_stream_id (cm_stream_id msg) (ucast (rclient_id cl)) then - EINVAL
      else let d = cras_stream_direction_mask (cm_direction msg)
        in if d < 0 \<or> \<not> dir_supported (supported_directions cl) d then - EINVAL else 0)"

definition rclient_validate_stream_connect_fds :: "int \<Rightarrow> int \<Rightarrow> u64 \<Rightarrow> int" where
  "rclient_validate_stream_connect_fds audio_fd client_shm_fd client_shm_size =
     (if audio_fd < 0 then - EBADF
      else if client_shm_size > 0 \<and> client_shm_fd < 0 then - EBADF
      else if client_shm_size = 0 \<and> client_shm_fd \<ge> 0 then - EINVAL
      else 0)"

definition rclient_validate_stream_connect_params ::
    "cras_rclient \<Rightarrow> cras_connect_message \<Rightarrow> int \<Rightarrow> int \<Rightarrow> int" where
  "rclient_validate_stream_connect_params cl msg audio_fd client_shm_fd =
     (let rc = rclient_validate_stream_connect_message cl msg in
      if rc \<noteq> 0 then rc
      else let rc = rclient_validate_stream_connect_fds audio_fd client_shm_fd (cm_client_shm_size msg)
        in if rc \<noteq> 0 then rc else 0)"

definition valid_fds :: "int list \<Rightarrow> int list" where
  "valid_fds fds = filter (\<lambda>f. f \<ge> 0) fds"

text \<open>The replies to the client: the error code, and the size of the samples when it is 0.\<close>

datatype client_reply = StreamConnected int u64

definition rclient_handle_client_stream_connect :: "('d, 'w) stream_callbacks \<Rightarrow> nat option \<Rightarrow> timespec \<Rightarrow> int \<Rightarrow>
    cras_rclient \<Rightarrow> cras_connect_message \<Rightarrow> int \<Rightarrow> int \<Rightarrow> 'd stream_list \<times> 'w \<Rightarrow>
    int \<times> int list \<times> client_reply list \<times> 'd stream_list \<times> 'w" where
  \<comment> \<open>the result, the descriptors closed, the replies and the state; \<open>send_rc\<close>: the result of sending\<close>
  "rclient_handle_client_stream_connect cbs addr now send_rc cl msg aud_fd client_shm_fd st =
     (let rc = rclient_validate_stream_connect_params cl msg aud_fd client_shm_fd;
          remote_fmt = unpack_cras_audio_format (cm_format msg);
          rc1 = (if rc = 0 \<and> \<not> cras_audio_format_valid remote_fmt then - EINVAL else rc)
      in if rc1 \<noteq> 0 then (rc1, valid_fds [client_shm_fd, aud_fd], [StreamConnected rc1 0], st)
         else let cfg = cras_rstream_config_init_with_message (rclient_addr cl) msg aud_fd client_shm_fd remote_fmt
           in case stream_list_add cbs cfg st of
                ((rc2, out), st2) \<Rightarrow>
                  let cfg2 = (if out = None then cfg else cfg\<lparr>rc_audio_fd := - 1\<rparr>)
                  in if rc2 \<noteq> 0
                     then (rc2, cras_rstream_config_cleanup cfg2, [StreamConnected rc2 0], st2)
                     else case out of None \<Rightarrow> (rc2, cras_rstream_config_cleanup cfg2, [StreamConnected rc2 0], st2)
                     | Some s \<Rightarrow>
                         let sz = cras_shm_samples_size (shm s) in
                         if sz > 0xffffffff \<and> rc_client_shm_fd cfg2 < 0
                         then (- EINVAL, cras_rstream_config_cleanup cfg2, [StreamConnected (- EINVAL) 0], st2)
                         else if send_rc < 0
                         then (send_rc, cras_rstream_config_cleanup cfg2, [StreamConnected 0 sz, StreamConnected send_rc 0],
                               snd (stream_list_rm cbs addr now (stream_id s) st2))
                         else (0, cras_rstream_config_cleanup cfg2, [StreamConnected 0 sz], st2))"

definition rclient_handle_client_stream_disconnect :: "('d, 'w) stream_callbacks \<Rightarrow> nat option \<Rightarrow> timespec \<Rightarrow>
    cras_rclient \<Rightarrow> u32 \<Rightarrow> 'd stream_list \<times> 'w \<Rightarrow> int \<times> 'd stream_list \<times> 'w" where
  "rclient_handle_client_stream_disconnect cbs addr now cl i st =
     (if \<not> cras_valid_stream_id i (ucast (rclient_id cl)) then (- EINVAL, st)
      else stream_list_rm cbs addr now i st)"

definition rclient_handle_message_from_client :: "('d, 'w) stream_callbacks \<Rightarrow> nat option \<Rightarrow> timespec \<Rightarrow> int \<Rightarrow>
    cras_rclient \<Rightarrow> cras_server_message \<Rightarrow> int list \<Rightarrow> 'd stream_list \<times> 'w \<Rightarrow>
    int \<times> int list \<times> 'd stream_list \<times> 'w" where
  \<comment> \<open>the result, the descriptors closed and the state\<close>
  "rclient_handle_message_from_client cbs addr now send_rc cl msg fds st =
     (let rc = rclient_validate_message_fds msg (of_nat (length fds)) in
      if rc < 0 then (rc, valid_fds fds, st)
      else let fd = (if fds \<noteq> [] then fds ! 0 else - 1);
               connect = (\<lambda>cmsg. case rclient_handle_client_stream_connect cbs addr now send_rc cl cmsg fd
                   (if length fds > 1 then fds ! 1 else - 1) st of (_, shut, _, st') \<Rightarrow> (rc, shut, st'))
        in case srv_id msg of
             CRAS_SERVER_CONNECT_STREAM \<Rightarrow>
               if MSG_LEN_VALID msg sizeof_connect_message then connect (as_connect msg)
               else (case convert_connect_message_old msg of
                   Inr cmsg \<Rightarrow> connect cmsg | Inl e \<Rightarrow> (- EINVAL, [], st))
           | CRAS_SERVER_DISCONNECT_STREAM \<Rightarrow>
               if \<not> MSG_LEN_VALID msg sizeof_disconnect_stream_message then (- EINVAL, [], st)
               else (rc, [], snd (rclient_handle_client_stream_disconnect cbs addr now cl (as_disconnect msg) st))
           | _ \<Rightarrow> (rc, [], st))"

definition cras_rclient_buffer_from_client :: "('d, 'w) stream_callbacks \<Rightarrow> nat option \<Rightarrow> timespec \<Rightarrow> int \<Rightarrow>
    cras_rclient \<Rightarrow> cras_server_message \<Rightarrow> nat \<Rightarrow> int list \<Rightarrow> 'd stream_list \<times> 'w \<Rightarrow>
    int \<times> int list \<times> 'd stream_list \<times> 'w" where
  "cras_rclient_buffer_from_client cbs addr now send_rc cl msg buf_len fds st =
     (if buf_len < sizeof_server_message then (- EINVAL, [], st)
      else if unat (srv_length msg) \<noteq> buf_len then (- EINVAL, [], st)
      else rclient_handle_message_from_client cbs addr now send_rc cl msg fds st)"

text \<open>\<^verbatim>\<open>handle_message_from_client\<close> of \<^verbatim>\<open>cras_server.c\<close>: \<open>nread\<close> bytes were received together with the
  descriptors \<open>fds\<close>.  The result says whether the client is kept.\<close>

definition handle_message_from_client :: "('d, 'w) stream_callbacks \<Rightarrow> nat option \<Rightarrow> timespec \<Rightarrow> int \<Rightarrow>
    cras_rclient \<Rightarrow> int \<Rightarrow> cras_server_message \<Rightarrow> int list \<Rightarrow> 'd stream_list \<times> 'w \<Rightarrow>
    bool \<times> int list \<times> 'd stream_list \<times> 'w" where
  "handle_message_from_client cbs addr now send_rc cl nread msg fds st =
     (if nread < 0 then (False, valid_fds fds, st)
      else case cras_rclient_buffer_from_client cbs addr now send_rc cl msg (nat nread) fds st of
        (rc, shut, st') \<Rightarrow> if rc < 0 then (False, shut @ valid_fds fds, st') else (True, shut, st'))"

section \<open>Lemmas\<close>

text \<open>The streams that exist or have existed.\<close>

definition known_streams :: "'d stream_list \<times> ('h, 's, 'd, 'r) world \<Rightarrow> 'd cras_rstream multiset" where
  "known_streams st = mset (streams (fst st)) + mset (streams_to_delete (fst st)) + fst (snd (snd st))"

lemma known_streams_owned: "known_streams = srv.owned"
  by (simp add: fun_eq_iff known_streams_def srv.owned_def split: prod.splits)

lemma create_error_nonzero:
  assumes "cras_rstream_create pw env alloc now locked cfg sys = (Inl e, sys')"
  shows "e \<noteq> 0"
  using assms by (auto simp: cras_rstream_create_def setup_shm_area_def Let_def
      split: if_splits option.splits sum.splits)

lemma add_known:
  fixes st :: "'d stream_list \<times> ('h, 's, 'd, 'r) world"
  assumes "stream_list_add (server_callbacks pw env alloc now added removed) cfg st = ((rc, out), st')"
  shows "(case out of None \<Rightarrow> rc \<noteq> 0 \<and> known_streams st' = known_streams st
    | Some s \<Rightarrow> known_streams st' = add_mset s (known_streams st) \<and> fd s = rc_audio_fd cfg \<and>
        stream_id s = rc_stream_id cfg)"
proof -
  obtain list sys gone r where st: "st = (list, sys, gone, r)" by (cases st) auto
  obtain res :: "int + 'd cras_rstream \<times> cras_rstream_config" and sys1 where
    cr: "cras_rstream_create pw env alloc now True cfg sys = (res, sys1)"
    by (rule prod.exhaust)
  show ?thesis
  proof (cases res)
    case (Inl e)
    with assms st cr create_error_nonzero [of pw env alloc now True cfg sys e sys1] show ?thesis
      by (auto simp: stream_list_add_def server_callbacks_def known_streams_def)
  next
    case (Inr p)
    then obtain s c' where p: "res = Inr (s, c')" by (cases p) auto
    note K = create_cases [OF cr [unfolded p]]
    obtain rc' r1 where ad: "added s r = (rc', r1)" by (rule prod.exhaust)
    show ?thesis
      using assms st cr p ad K(9,10)
      by (auto simp: stream_list_add_def server_callbacks_def known_streams_def split: if_splits)
  qed
qed

lemma cleanup_fds:
  "mset (cras_rstream_config_cleanup c) = mset (valid_fds [rc_client_shm_fd c, rc_audio_fd c])"
  by (simp add: cras_rstream_config_cleanup_def valid_fds_def)

lemma rm_known:
  "known_streams (snd (stream_list_rm (server_callbacks pw env alloc now added removed) addr tnow i st)) = known_streams st"
  unfolding known_streams_owned by (rule srv.rm_owned)

section \<open>Properties\<close>

text \<open>Claim C4.  Whatever a client sends with a request to connect a stream, every valid descriptor
  that came with it is closed exactly once or has become the audio descriptor of the new stream, and
  a new stream carries an identifier that is valid for the client.\<close>

theorem connect_fd_ownership:
  fixes st :: "'d stream_list \<times> ('h, 's, 'd, 'r) world"
  assumes "rclient_handle_client_stream_connect (server_callbacks pw env alloc now added removed) addr tnow send_rc
    cl msg aud_fd client_shm_fd st = (rc, shut, replies, st')"
  shows "\<exists>new. known_streams st' = known_streams st + new \<and>
    mset shut + image_mset fd new = mset (valid_fds [client_shm_fd, aud_fd]) \<and>
    (\<forall>s \<in># new. cras_valid_stream_id (stream_id s) (ucast (rclient_id cl)))"
proof -
  let ?cbs = "server_callbacks pw env alloc now added removed :: ('d, ('h, 's, 'd, 'r) world) stream_callbacks"
  let ?fmt = "unpack_cras_audio_format (cm_format msg)"
  let ?v = "rclient_validate_stream_connect_params cl msg aud_fd client_shm_fd"
  show ?thesis
  proof (cases "?v = 0 \<and> cras_audio_format_valid ?fmt")
    case False
    then show ?thesis
      using assms by (auto simp: rclient_handle_client_stream_connect_def Let_def intro!: exI [of _ "{#}"] split: if_splits)
  next
    case True
    define cfg where "cfg = cras_rstream_config_init_with_message (rclient_addr cl) msg aud_fd client_shm_fd ?fmt"
    have cfg: "rc_audio_fd cfg = aud_fd" "rc_client_shm_fd cfg = client_shm_fd" "rc_stream_id cfg = cm_stream_id msg"
      by (simp_all add: cfg_def cras_rstream_config_init_with_message_def)
    have v: "0 \<le> aud_fd" "cras_valid_stream_id (cm_stream_id msg) (ucast (rclient_id cl))"
      using True by (auto simp: rclient_validate_stream_connect_params_def rclient_validate_stream_connect_fds_def
          rclient_validate_stream_connect_message_def Let_def split: if_splits)
    obtain rc2 out st2 where add: "stream_list_add ?cbs cfg st = ((rc2, out), st2)"
      by (metis prod.collapse)
    note A = add_known [OF add]
    show ?thesis
    proof (cases out)
      case None
      then have "st' = st2" "shut = cras_rstream_config_cleanup cfg"
        using assms True add A
        by (auto simp: rclient_handle_client_stream_connect_def Let_def simp flip: cfg_def split: if_splits)
      with A None cfg show ?thesis by (intro exI [of _ "{#}"]) (simp add: cleanup_fds)
    next
      case (Some s)
      have "shut = cras_rstream_config_cleanup (cfg\<lparr>rc_audio_fd := - 1\<rparr>)"
        "st' = st2 \<or> st' = snd (stream_list_rm ?cbs addr tnow (stream_id s) st2)"
        using assms True add Some
        by (auto simp: rclient_handle_client_stream_connect_def Let_def simp flip: cfg_def split: if_splits)
      with A Some cfg v show ?thesis
        by (intro exI [of _ "{#s#}"]) (auto simp: cleanup_fds valid_fds_def rm_known)
    qed
  qed
qed

definition sample_connect :: cras_connect_message where
  "sample_connect = \<lparr>cm_proto_version = 7, cm_direction = CRAS_STREAM_OUTPUT, cm_stream_id = 0x10002,
     cm_stream_type = 0, cm_buffer_frames = 480, cm_cb_threshold = 240, cm_flags = 0,
     cm_format = \<lparr>p_format = S16_LE, p_frame_rate = 48000, p_num_channels = 2,
       p_channel_layout = [0, 1, -1, -1, -1, -1, -1, -1, -1, -1, -1]\<rparr>,
     cm_dev_idx = 0, cm_effects = 0, cm_client_type = 0, cm_client_shm_size = 0, cm_buffer_offsets = [0, 0]\<rparr>"

definition sample_client :: cras_rclient where
  "sample_client = \<lparr>rclient_id = 1, rclient_addr = 100, supported_directions = 1\<rparr>"

definition sample_cbs :: "(unit, (unit, unit, unit, unit) world) stream_callbacks" where
  "sample_cbs = server_callbacks sample_width (sample_env 3840) True (Timespec 1 0) (\<lambda>s r. (0, r)) (\<lambda>s r. (0, r))"

definition sample_server :: "unit stream_list \<times> (unit, unit, unit, unit) world" where
  "sample_server = (stream_list_create cras_tm_init, locked_state, {#}, ())"

lemma quadruple: "x = (fst x, fst (snd x), fst (snd (snd x)), snd (snd (snd x)))"
  by simp

theorem connect_fd_ownership_witness:
  "\<exists>new :: unit cras_rstream multiset. mset (fst (snd (rclient_handle_client_stream_connect sample_cbs None (Timespec 1 0) 0 sample_client
      sample_connect 5 (- 1) sample_server))) + image_mset fd new = mset (valid_fds [- 1, 5])"
proof -
  let ?x = "rclient_handle_client_stream_connect sample_cbs None (Timespec 1 0) 0 sample_client
      sample_connect 5 (- 1) sample_server"
  have "?x = (fst ?x, fst (snd ?x), fst (snd (snd ?x)), snd (snd (snd ?x)))"
    by (rule quadruple)
  from connect_fd_ownership [OF this [unfolded sample_cbs_def]] obtain new :: "unit cras_rstream multiset" where
    "mset (fst (snd ?x)) + image_mset fd new = mset (valid_fds [- 1, 5])"
    unfolding sample_cbs_def by blast
  then show ?thesis ..
qed

text \<open>A message with more descriptors than its kind allows is refused, but its descriptors
  are closed twice: by the handler of the client and again by the function that received them.\<close>

theorem excess_fds_closed_twice:
  assumes "rclient_validate_message_fds msg (of_nat (length fds)) < 0"
    "sizeof_server_message \<le> nat nread" "unat (srv_length msg) = nat nread"
  shows "handle_message_from_client cbs addr now send_rc cl nread msg fds st =
    (False, valid_fds fds @ valid_fds fds, st)"
proof -
  have "\<not> nread < 0" using assms(2) by auto
  with assms show ?thesis
    by (simp add: handle_message_from_client_def cras_rclient_buffer_from_client_def
        rclient_handle_message_from_client_def Let_def)
qed

theorem excess_fds_closed_twice_witness:
  "handle_message_from_client sample_cbs None (Timespec 1 0) 0 sample_client 12
     \<lparr>srv_length = 12, srv_id = CRAS_SERVER_DISCONNECT_STREAM, as_connect = sample_connect,
       as_connect_old = sample_connect, as_disconnect = 0x10002\<rparr> [5] sample_server =
   (False, [5, 5], sample_server)"
proof -
  have "valid_fds [5] @ valid_fds [5] = [5, 5]" by (simp add: valid_fds_def)
  then show ?thesis
    using excess_fds_closed_twice [of "\<lparr>srv_length = 12, srv_id = CRAS_SERVER_DISCONNECT_STREAM,
        as_connect = sample_connect, as_connect_old = sample_connect, as_disconnect = 0x10002\<rparr>" "[5]" 12
        sample_cbs None "Timespec 1 0" 0 sample_client sample_server]
    by (simp add: rclient_validate_message_fds_def)
qed

lemma delete_streams_streams: "streams (fst (delete_streams cbs addr now st)) = streams (fst st)"
  by (cases st) (auto simp: delete_streams_def Let_def split: prod.splits)

lemma cancel_drain_streams: "streams (cancel_drain_timer list) = streams list"
  by (simp add: cancel_drain_timer_def split: option.splits)



end
