(* ===== verification/Alert.thy ===== *)
theory Alert
  imports CRAS_Prelude "HOL-Library.Monad_Syntax"
begin

text \<open>
  \<^verbatim>\<open>server/cras_alert.c\<close>: alerts tell the observers that a part of the system state has changed.  Changes
  mark an alert as pending; at the end of a turn of the main loop the callbacks of the pending alerts
  are called.

  An alert is named by its address, a callback by the pair the code compares.  The preparation
  functions and callbacks are code of other components: \<open>env\<close> gives the effect of a call on the rest
  of the server \<open>'w\<close> and the alerts it marks as pending, again through this interface.  \<open>None\<close> is a run
  that touches freed memory or that does not return.
\<close>

unbundle bit_operations_syntax

section \<open>Alerts\<close>

record cras_alert_cb_list =
  callback :: nat
  cb_arg :: nat

record cras_alert =
  alert_id :: nat
  pending :: bool
  alert_flags :: u32
  has_prepare :: bool
  callbacks :: "cras_alert_cb_list list"
  alert_data :: "u8 list list"

record alerts =
  all_alerts :: "cras_alert list"
  has_alert_pending :: bool

definition CRAS_ALERT_FLAG_KEEP_ALL_DATA :: u32 where
  "CRAS_ALERT_FLAG_KEEP_ALL_DATA = 1"

definition keeps_all :: "cras_alert \<Rightarrow> bool" where
  "keeps_all x \<longleftrightarrow> alert_flags x AND CRAS_ALERT_FLAG_KEEP_ALL_DATA \<noteq> 0"

definition find_alert :: "alerts \<Rightarrow> nat \<Rightarrow> cras_alert option" where
  "find_alert st a = find (\<lambda>x. alert_id x = a) (all_alerts st)"

definition upd_alert :: "nat \<Rightarrow> (cras_alert \<Rightarrow> cras_alert) \<Rightarrow> alerts \<Rightarrow> alerts" where
  "upd_alert a f st = st\<lparr>all_alerts := map (\<lambda>x. if alert_id x = a then f x else x) (all_alerts st)\<rparr>"

definition cras_alert_create :: "nat option \<Rightarrow> bool \<Rightarrow> u32 \<Rightarrow> alerts \<Rightarrow> nat option \<times> alerts" where
  \<comment> \<open>the first argument is the result of \<^verbatim>\<open>calloc\<close>\<close>
  "cras_alert_create addr prepare flags st =
     (case addr of None \<Rightarrow> (None, st)
      | Some a \<Rightarrow> (Some a, st\<lparr>all_alerts := all_alerts st @
          [\<lparr>alert_id = a, pending = False, alert_flags = flags, has_prepare = prepare,
            callbacks = [], alert_data = []\<rparr>]\<rparr>))"

definition cras_alert_add_callback :: "bool \<Rightarrow> nat option \<Rightarrow> nat \<Rightarrow> cras_alert \<Rightarrow> int \<times> cras_alert" where
  \<comment> \<open>the first argument: memory can be allocated; \<open>None\<close>: the null pointer\<close>
  "cras_alert_add_callback mem cb arg x =
     (case cb of None \<Rightarrow> (- EINVAL, x)
      | Some c \<Rightarrow>
          if \<exists>e \<in> set (callbacks x). callback e = c \<and> cb_arg e = arg then (- EEXIST, x)
          else if \<not> mem then (- ENOMEM, x)
          else (0, x\<lparr>callbacks := callbacks x @ [\<lparr>callback = c, cb_arg = arg\<rparr>]\<rparr>))"

fun remove_first :: "('a \<Rightarrow> bool) \<Rightarrow> 'a list \<Rightarrow> 'a list" where
  "remove_first P [] = []"
| "remove_first P (x # xs) = (if P x then xs else x # remove_first P xs)"

definition cras_alert_rm_callback :: "nat \<Rightarrow> nat \<Rightarrow> cras_alert \<Rightarrow> int \<times> cras_alert" where
  "cras_alert_rm_callback c arg x =
     (if \<exists>e \<in> set (callbacks x). callback e = c \<and> cb_arg e = arg
      then (0, x\<lparr>callbacks := remove_first (\<lambda>e. callback e = c \<and> cb_arg e = arg) (callbacks x)\<rparr>)
      else (- ENOENT, x))"

definition cras_alert_pending :: "nat \<Rightarrow> alerts \<Rightarrow> alerts" where
  "cras_alert_pending a st =
     (upd_alert a (\<lambda>x. x\<lparr>pending := True\<rparr>) st)\<lparr>has_alert_pending := True\<rparr>"

definition append_data :: "u8 list \<Rightarrow> cras_alert \<Rightarrow> cras_alert" where
  "append_data d x =
     (let kept = (if \<not> keeps_all x \<and> alert_data x \<noteq> [] then [] else alert_data x)
      in x\<lparr>pending := True, alert_data := kept @ [d]\<rparr>)"

definition cras_alert_pending_data :: "nat \<Rightarrow> u8 list \<Rightarrow> alerts \<Rightarrow> alerts" where
  "cras_alert_pending_data a d st = (upd_alert a (append_data d) st)\<lparr>has_alert_pending := True\<rparr>"

definition cras_alert_destroy :: "nat option \<Rightarrow> alerts \<Rightarrow> alerts" where
  "cras_alert_destroy a st =
     (case a of None \<Rightarrow> st
      | Some i \<Rightarrow> st\<lparr>all_alerts := filter (\<lambda>x. alert_id x \<noteq> i) (all_alerts st)\<rparr>)"

definition cras_alert_destroy_all :: "alerts \<Rightarrow> alerts" where
  "cras_alert_destroy_all st = fold (\<lambda>x. cras_alert_destroy (Some (alert_id x))) (all_alerts st) st"

section \<open>Processing\<close>

datatype alert_event = Prepare nat | Call nat cras_alert_cb_list "u8 list option"

datatype alert_request = Pending nat | Pending_data nat "u8 list"

fun request_target :: "alert_request \<Rightarrow> nat" where
  "request_target (Pending a) = a"
| "request_target (Pending_data a d) = a"

fun perform :: "alert_request \<Rightarrow> alerts \<Rightarrow> alerts" where
  "perform (Pending a) = cras_alert_pending a"
| "perform (Pending_data a d) = cras_alert_pending_data a d"

type_synonym 'w alert_env = "alert_event \<Rightarrow> 'w \<Rightarrow> alert_request list \<times> 'w"

fun run_event :: "'w alert_env \<Rightarrow> alert_event \<Rightarrow> alerts \<times> 'w \<Rightarrow> alert_request list \<times> alerts \<times> 'w" where
  "run_event env ev (st, w) = (let (rs, w') = env ev w in (rs, fold perform rs st, w'))"

text \<open>A callback that gets a data item and replaces the data of its own alert frees the item that is
  being delivered.\<close>

definition frees_data :: "cras_alert \<Rightarrow> alert_request list \<Rightarrow> bool" where
  "frees_data x rs \<longleftrightarrow> \<not> keeps_all x \<and>
     (\<exists>r \<in> set rs. case r of Pending_data a d \<Rightarrow> a = alert_id x | Pending a \<Rightarrow> False)"

fun call_callbacks :: "'w alert_env \<Rightarrow> cras_alert \<Rightarrow> u8 list option \<Rightarrow> cras_alert_cb_list list \<Rightarrow>
    alerts \<times> 'w \<Rightarrow> (alerts \<times> 'w) option" where
  "call_callbacks env x d [] s = Some s"
| "call_callbacks env x d (cb # cbs) s =
     (let (rs, s') = run_event env (Call (alert_id x) cb d) s in
      if d \<noteq> None \<and> frees_data x rs then None else call_callbacks env x d cbs s')"

partial_function (option) deliver_data :: "'w alert_env \<Rightarrow> nat \<Rightarrow> alerts \<times> 'w \<Rightarrow> (alerts \<times> 'w) option" where
  "deliver_data env a s =
     do { x \<leftarrow> find_alert (fst s) a;
          if alert_data x = [] then Some s
          else do { s1 \<leftarrow> call_callbacks env x (Some (hd (alert_data x))) (callbacks x) s;
                    let s2 = (upd_alert a (\<lambda>x. x\<lparr>alert_data := tl (alert_data x)\<rparr>) (fst s1), snd s1);
                    if tl (alert_data x) = [] then Some s2 else deliver_data env a s2 } }"

declare deliver_data.simps [code]

definition cras_alert_process :: "'w alert_env \<Rightarrow> nat \<Rightarrow> alerts \<times> 'w \<Rightarrow> (alerts \<times> 'w) option" where
  "cras_alert_process env a s =
     do { x \<leftarrow> find_alert (fst s) a;
          if \<not> pending x then Some s
          else do {
            let s1 = (upd_alert a (\<lambda>x. x\<lparr>pending := False\<rparr>) (fst s), snd s);
            let s2 = (if has_prepare x then snd (run_event env (Prepare a) s1) else s1);
            x2 \<leftarrow> find_alert (fst s2) a;
            s3 \<leftarrow> (if alert_data x2 = [] then call_callbacks env x2 None (callbacks x2) s2 else Some s2);
            deliver_data env a s3 } }"

fun process_each :: "'w alert_env \<Rightarrow> nat list \<Rightarrow> alerts \<times> 'w \<Rightarrow> (alerts \<times> 'w) option" where
  "process_each env [] s = Some s"
| "process_each env (a # as) s = do { s' \<leftarrow> cras_alert_process env a s; process_each env as s' }"

partial_function (option) cras_alert_process_all_pending_alerts :: "'w alert_env \<Rightarrow> alerts \<times> 'w \<Rightarrow>
    (alerts \<times> 'w) option" where
  "cras_alert_process_all_pending_alerts env s =
     (if \<not> has_alert_pending (fst s) then Some s
      else do { s' \<leftarrow> process_each env (map alert_id (all_alerts (fst s))) ((fst s)\<lparr>has_alert_pending := False\<rparr>, snd s);
                cras_alert_process_all_pending_alerts env s' })"

declare cras_alert_process_all_pending_alerts.simps [code]

section \<open>What the operations keep\<close>

lemma find_alert_upd:
  assumes "\<And>x. alert_id (f x) = alert_id x"
  shows "find_alert (upd_alert b f st) a = (if a = b then map_option f (find_alert st a) else find_alert st a)"
proof -
  have "find (\<lambda>x. alert_id x = a) (map (\<lambda>x. if alert_id x = b then f x else x) xs) =
     (if a = b then map_option f (find (\<lambda>x. alert_id x = a) xs) else find (\<lambda>x. alert_id x = a) xs)" for xs
    by (induction xs) (auto simp: assms)
  then show ?thesis by (simp add: find_alert_def upd_alert_def)
qed

lemma find_alert_flag [simp]: "find_alert (st\<lparr>has_alert_pending := v\<rparr>) a = find_alert st a"
  by (simp add: find_alert_def)

definition alert_ids :: "alerts \<Rightarrow> nat list" where
  "alert_ids st = map alert_id (all_alerts st)"

lemma alert_ids_upd:
  assumes "\<And>x. alert_id (f x) = alert_id x"
  shows "alert_ids (upd_alert b f st) = alert_ids st"
  by (simp add: alert_ids_def upd_alert_def assms)

lemma alert_ids_flag [simp]: "alert_ids (st\<lparr>has_alert_pending := v\<rparr>) = alert_ids st"
  by (simp add: alert_ids_def)

lemma find_alert_in_ids: "find_alert st a = Some x \<Longrightarrow> a \<in> set (alert_ids st) \<and> alert_id x = a"
  by (auto simp: find_alert_def alert_ids_def find_Some_iff)

lemma in_ids_find_alert: "a \<in> set (alert_ids st) \<Longrightarrow> \<exists>x. find_alert st a = Some x"
  by (cases "find_alert st a") (auto simp: find_alert_def alert_ids_def find_None_iff)

lemma append_data_id [simp]: "alert_id (append_data d x) = alert_id x"
  by (simp add: append_data_def Let_def)

lemma append_data_pending [simp]: "pending (append_data d x)"
  by (simp add: append_data_def Let_def)

text \<open>From \<open>st\<close> to \<open>st'\<close>, outside the alerts of \<open>A\<close>, alerts of a rank below \<open>k\<close> may have been marked as
  pending, and nothing else has happened.\<close>

definition raises :: "(nat \<Rightarrow> nat) \<Rightarrow> nat set \<Rightarrow> nat \<Rightarrow> alerts \<Rightarrow> alerts \<Rightarrow> bool" where
  "raises rank A k st st' \<longleftrightarrow> alert_ids st' = alert_ids st \<and>
     (has_alert_pending st \<longrightarrow> has_alert_pending st') \<and>
     (\<forall>b. b \<notin> A \<longrightarrow> find_alert st' b = find_alert st b \<or>
        (rank b < k \<and> has_alert_pending st' \<and> (\<exists>y. find_alert st' b = Some y \<and> pending y)))"

lemma raises_refl [intro, simp]: "raises rank A k st st"
  by (simp add: raises_def)

lemma raises_trans [trans]: "raises rank A k s s' \<Longrightarrow> raises rank A k s' s'' \<Longrightarrow> raises rank A k s s''"
  unfolding raises_def by metis

lemma raises_mono: "raises rank A k s s' \<Longrightarrow> A \<subseteq> B \<Longrightarrow> raises rank B k s s'"
  unfolding raises_def by blast

lemma raises_keeps: "raises rank A k s s' \<Longrightarrow> b \<notin> A \<Longrightarrow> k \<le> rank b \<Longrightarrow> find_alert s' b = find_alert s b"
  unfolding raises_def by (metis not_less)

lemma upd_raises:
  assumes "\<And>x. alert_id (f x) = alert_id x"
  shows "raises rank {a} k st (upd_alert a f st)"
  using alert_ids_upd [of f, OF assms]
  by (auto simp: raises_def find_alert_upd [of f, OF assms]) (simp add: upd_alert_def)

lemma perform_raises:
  assumes "rank (request_target r) < k"
  shows "raises rank {} k st (perform r st)"
proof (cases r)
  case (Pending a)
  then show ?thesis using assms
    by (cases "find_alert st a") (auto simp: raises_def cras_alert_pending_def find_alert_upd alert_ids_upd)
next
  case (Pending_data a d)
  then show ?thesis using assms
    by (cases "find_alert st a") (auto simp: raises_def cras_alert_pending_data_def find_alert_upd alert_ids_upd)
qed

lemma fold_perform_raises:
  "\<forall>r \<in> set rs. rank (request_target r) < k \<Longrightarrow> raises rank {} k st (fold perform rs st)"
proof (induction rs arbitrary: st)
  case (Cons r rs)
  have "raises rank {} k st (perform r st)" using Cons.prems by (simp add: perform_raises)
  also have "raises rank {} k (perform r st) (fold perform rs (perform r st))" using Cons by simp
  finally show ?case by simp
qed simp

text \<open>The alert a call belongs to, and environments whose calls only mark alerts of a lower rank.\<close>

fun event_alert :: "alert_event \<Rightarrow> nat" where
  "event_alert (Prepare a) = a"
| "event_alert (Call a cb d) = a"

definition ranked :: "(nat \<Rightarrow> nat) \<Rightarrow> 'w alert_env \<Rightarrow> bool" where
  "ranked rank env \<longleftrightarrow> (\<forall>ev w. \<forall>r \<in> set (fst (env ev w)). rank (request_target r) < rank (event_alert ev))"

lemma run_event_raises:
  assumes "ranked rank env" and "run_event env ev s = (rs, s')"
  shows "raises rank {} (rank (event_alert ev)) (fst s) (fst s') \<and>
    (\<forall>r \<in> set rs. rank (request_target r) < rank (event_alert ev))"
  using assms by (cases s) (auto simp: ranked_def split: prod.splits intro!: fold_perform_raises; metis fst_conv)

lemma call_callbacks_raises:
  assumes "ranked rank env"
  shows "\<exists>s'. call_callbacks env x d cbs s = Some s' \<and> raises rank {} (rank (alert_id x)) (fst s) (fst s')"
proof (induction cbs arbitrary: s)
  case (Cons cb cbs)
  obtain rs s1 where e: "run_event env (Call (alert_id x) cb d) s = (rs, s1)" by (rule prod.exhaust)
  have r: "raises rank {} (rank (alert_id x)) (fst s) (fst s1)"
    and t: "\<forall>r \<in> set rs. rank (request_target r) < rank (alert_id x)"
    using run_event_raises [OF assms e] by simp_all
  have f: "\<not> frees_data x rs" using t by (auto simp: frees_data_def split: alert_request.splits)
  obtain s2 where "call_callbacks env x d cbs s1 = Some s2" "raises rank {} (rank (alert_id x)) (fst s1) (fst s2)"
    using Cons.IH by blast
  then show ?case using e f raises_trans [OF r] by simp
qed simp

lemma deliver_data_raises:
  assumes "ranked rank env" and "find_alert (fst s) a = Some x"
  shows "\<exists>s'. deliver_data env a s = Some s' \<and> raises rank {a} (rank a) (fst s) (fst s') \<and>
    find_alert (fst s') a = Some (x\<lparr>alert_data := []\<rparr>)"
  using assms(2)
proof (induction "alert_data x" arbitrary: x s)
  case Nil
  then show ?case by (subst deliver_data.simps) simp
next
  case (Cons d ds)
  have i: "alert_id x = a" using Cons.prems find_alert_in_ids by blast
  obtain s1 where c: "call_callbacks env x (Some d) (callbacks x) s = Some s1"
    and r: "raises rank {} (rank a) (fst s) (fst s1)"
    using call_callbacks_raises [OF assms(1)] i by metis
  define f :: "cras_alert \<Rightarrow> cras_alert" where "f = (\<lambda>x. x\<lparr>alert_data := tl (alert_data x)\<rparr>)"
  have fi: "alert_id (f y) = alert_id y" for y by (simp add: f_def)
  define s2 where "s2 = (upd_alert a f (fst s1), snd s1)"
  have r2: "raises rank {a} (rank a) (fst s) (fst s2)"
    using raises_trans [OF raises_mono [OF r] upd_raises [of f, OF fi]] by (simp add: s2_def)
  have x2: "find_alert (fst s2) a = Some (x\<lparr>alert_data := ds\<rparr>)"
    using raises_keeps [OF r, of a] Cons.prems Cons.hyps(2) [symmetric]
    by (simp add: s2_def f_def find_alert_upd)
  have eq: "deliver_data env a s = (if ds = [] then Some s2 else deliver_data env a s2)"
    using c Cons.prems Cons.hyps(2) [symmetric]
    by (subst deliver_data.simps) (simp add: s2_def f_def Let_def)
  show ?case
  proof (cases "ds = []")
    case True
    then show ?thesis using eq r2 x2 by simp
  next
    case False
    obtain s3 where "deliver_data env a s2 = Some s3" "raises rank {a} (rank a) (fst s2) (fst s3)"
      "find_alert (fst s3) a = Some (x\<lparr>alert_data := []\<rparr>)"
      using Cons.hyps(1) [OF _ x2] by auto
    then show ?thesis using eq r2 False raises_trans by (metis (full_types))
  qed
qed

lemma process_raises:
  assumes "ranked rank env" and "find_alert (fst s) a = Some x" and "pending x"
  shows "\<exists>s'. cras_alert_process env a s = Some s' \<and> raises rank {a} (rank a) (fst s) (fst s') \<and>
    find_alert (fst s') a = Some (x\<lparr>pending := False, alert_data := []\<rparr>)"
proof -
  define f :: "cras_alert \<Rightarrow> cras_alert" where "f = (\<lambda>x. x\<lparr>pending := False\<rparr>)"
  define s1 where "s1 = (upd_alert a f (fst s), snd s)"
  define s2 where "s2 = (if has_prepare x then snd (run_event env (Prepare a) s1) else s1)"
  have r1: "raises rank {a} (rank a) (fst s) (fst s1)" by (simp add: s1_def upd_raises f_def)
  have x1: "find_alert (fst s1) a = Some (f x)" using assms(2) by (simp add: s1_def f_def find_alert_upd)
  obtain rs s0 where "run_event env (Prepare a) s1 = (rs, s0)" by (rule prod.exhaust)
  then have r2: "raises rank {} (rank a) (fst s1) (fst s2)"
    using run_event_raises [OF assms(1)] by (fastforce simp: s2_def)
  have x2: "find_alert (fst s2) a = Some (f x)" using raises_keeps [OF r2] x1 by simp
  have i: "alert_id (f x) = a" using find_alert_in_ids [OF x2] by simp
  obtain s3 where c: "(if alert_data (f x) = [] then call_callbacks env (f x) None (callbacks (f x)) s2 else Some s2) = Some s3"
    and r3: "raises rank {} (rank a) (fst s2) (fst s3)"
    using call_callbacks_raises [OF assms(1), of "f x" None "callbacks (f x)" s2] i
    by (cases "alert_data (f x) = []") auto
  have x3: "find_alert (fst s3) a = Some (f x)" using raises_keeps [OF r3] x2 by simp
  obtain s4 where d: "deliver_data env a s3 = Some s4" and r4: "raises rank {a} (rank a) (fst s3) (fst s4)"
    and x4: "find_alert (fst s4) a = Some ((f x)\<lparr>alert_data := []\<rparr>)"
    using deliver_data_raises [OF assms(1) x3] by blast
  have "cras_alert_process env a s = Some s4"
    using assms(2,3) x2 c d
    by (simp add: cras_alert_process_def s2_def [symmetric] s1_def [symmetric] f_def [symmetric] Let_def
        split: if_splits)
  moreover have "raises rank {a} (rank a) (fst s) (fst s4)"
    using raises_trans [OF raises_trans [OF raises_trans [OF r1 raises_mono [OF r2]] raises_mono [OF r3]] r4] by simp
  ultimately show ?thesis using x4 by (simp add: f_def)
qed

section \<open>Every alert is delivered\<close>

definition data_pending :: "alerts \<Rightarrow> bool" where
  "data_pending st \<longleftrightarrow> (\<forall>a x. find_alert st a = Some x \<longrightarrow> alert_data x \<noteq> [] \<longrightarrow> pending x)"

definition pending_below :: "(nat \<Rightarrow> nat) \<Rightarrow> nat \<Rightarrow> alerts \<Rightarrow> bool" where
  "pending_below rank k st \<longleftrightarrow> (\<forall>a x. find_alert st a = Some x \<longrightarrow> pending x \<longrightarrow> rank a < k)"

lemma process_idle: "find_alert (fst s) a = Some x \<Longrightarrow> \<not> pending x \<Longrightarrow> cras_alert_process env a s = Some s"
  by (simp add: cras_alert_process_def)

lemma raises_data_pending:
  assumes "raises rank {a} k st st'" and "data_pending st" and "find_alert st' a = Some x" and "alert_data x = []"
  shows "data_pending st'"
  unfolding data_pending_def
proof (intro allI impI)
  fix b y assume "find_alert st' b = Some y" "alert_data y \<noteq> []"
  then show "pending y" using assms by (cases "b = a") (fastforce simp: raises_def data_pending_def)+
qed

lemma raises_pending_below:
  assumes "raises rank {a} k' st st'" and "pending_below rank k st" and "k' \<le> k"
    and "find_alert st' a = Some x" and "\<not> pending x"
  shows "pending_below rank k st'"
  unfolding pending_below_def
proof (intro allI impI)
  fix b y assume y: "find_alert st' b = Some y" "pending y"
  then have "b \<noteq> a" using assms(4,5) by auto
  then show "rank b < k" using y assms(1-3) by (force simp: raises_def pending_below_def)
qed

lemma process_each_round:
  assumes "ranked rank env"
  shows "set as \<subseteq> set (alert_ids (fst s)) \<Longrightarrow> data_pending (fst s) \<Longrightarrow> pending_below rank (Suc k) (fst s) \<Longrightarrow>
    \<exists>s'. process_each env as s = Some s' \<and> alert_ids (fst s') = alert_ids (fst s) \<and> data_pending (fst s') \<and>
      (has_alert_pending (fst s) \<longrightarrow> has_alert_pending (fst s')) \<and>
      (\<forall>b y. find_alert (fst s') b = Some y \<longrightarrow> pending y \<longrightarrow>
         (has_alert_pending (fst s') \<and> rank b < k) \<or> (b \<notin> set as \<and> find_alert (fst s) b = Some y))"
proof (induction as arbitrary: s)
  case (Cons a as)
  obtain x where x: "find_alert (fst s) a = Some x" using Cons.prems(1) in_ids_find_alert [of a "fst s"] by auto
  show ?case
  proof (cases "pending x")
    case False
    then have "process_each env (a # as) s = process_each env as s" using process_idle [OF x] by simp
    then show ?thesis using Cons.IH [of s] Cons.prems x False by fastforce
  next
    case True
    obtain s1 where p: "cras_alert_process env a s = Some s1" and r: "raises rank {a} (rank a) (fst s) (fst s1)"
      and x1: "find_alert (fst s1) a = Some (x\<lparr>pending := False, alert_data := []\<rparr>)"
      using process_raises [OF assms x True] by blast
    have a: "rank a \<le> k" using Cons.prems(3) x True by (fastforce simp: pending_below_def)
    have ids: "alert_ids (fst s1) = alert_ids (fst s)" using r by (simp add: raises_def)
    have dp: "data_pending (fst s1)" using raises_data_pending [OF r Cons.prems(2) x1] by simp
    have pb: "pending_below rank (Suc k) (fst s1)"
      using raises_pending_below [OF r Cons.prems(3) _ x1] a by simp
    obtain s2 where q: "process_each env as s1 = Some s2" "alert_ids (fst s2) = alert_ids (fst s)" "data_pending (fst s2)"
      and l: "\<And>b y. find_alert (fst s2) b = Some y \<Longrightarrow> pending y \<Longrightarrow>
         (has_alert_pending (fst s2) \<and> rank b < k) \<or> (b \<notin> set as \<and> find_alert (fst s1) b = Some y)"
      and h: "has_alert_pending (fst s1) \<Longrightarrow> has_alert_pending (fst s2)"
      using Cons.IH [of s1] Cons.prems(1) ids dp pb by fastforce
    have "(has_alert_pending (fst s2) \<and> rank b < k) \<or> (b \<notin> set (a # as) \<and> find_alert (fst s) b = Some y)"
      if y: "find_alert (fst s2) b = Some y" "pending y" for b y
    proof (rule disjE [OF l [OF y]])
      assume n: "b \<notin> set as \<and> find_alert (fst s1) b = Some y"
      then have "b \<noteq> a" using x1 y(2) by auto
      then show ?thesis using n r a h by (auto simp: raises_def)
    qed simp
    then show ?thesis using p q h r by (auto simp: raises_def)
  qed
qed simp

lemma process_each_idle:
  assumes "pending_below rank 0 (fst s)"
  shows "set as \<subseteq> set (alert_ids (fst s)) \<Longrightarrow> process_each env as s = Some s"
proof (induction as)
  case (Cons a as)
  then obtain x where "find_alert (fst s) a = Some x" using in_ids_find_alert [of a "fst s"] by auto
  then have "cras_alert_process env a s = Some s" using assms by (auto simp: pending_below_def intro: process_idle)
  then show ?case using Cons by simp
qed simp

definition quiet :: "alerts \<Rightarrow> bool" where
  "quiet st \<longleftrightarrow> \<not> has_alert_pending st \<and> (\<forall>x \<in> set (all_alerts st). \<not> pending x \<and> alert_data x = [])"

definition pending_seen :: "alerts \<Rightarrow> bool" where
  "pending_seen st \<longleftrightarrow> (\<forall>x \<in> set (all_alerts st). pending x \<longrightarrow> has_alert_pending st)"

lemma find_alert_distinct:
  assumes "distinct (alert_ids st)" and "x \<in> set (all_alerts st)"
  shows "find_alert st (alert_id x) = Some x"
proof -
  have "distinct (map alert_id xs) \<Longrightarrow> x \<in> set xs \<Longrightarrow> find (\<lambda>y. alert_id y = alert_id x) xs = Some x" for xs
    by (induction xs) force+
  then show ?thesis using assms by (simp add: find_alert_def alert_ids_def)
qed

lemma process_all_quiet:
  assumes "ranked rank env"
  shows "distinct (alert_ids (fst s)) \<Longrightarrow> data_pending (fst s) \<Longrightarrow> pending_below rank k (fst s) \<Longrightarrow>
    pending_seen (fst s) \<Longrightarrow>
    \<exists>s'. cras_alert_process_all_pending_alerts env s = Some s' \<and> quiet (fst s') \<and> alert_ids (fst s') = alert_ids (fst s)"
proof (induction k arbitrary: s)
  case 0
  define s0 where "s0 = ((fst s)\<lparr>has_alert_pending := False\<rparr>, snd s)"
  have pb: "pending_below rank 0 (fst s0)" using "0.prems"(3) by (simp add: s0_def pending_below_def)
  have n: "\<not> pending x \<and> alert_data x = []" if "x \<in> set (all_alerts (fst s))" for x
    using find_alert_distinct [OF "0.prems"(1) that] "0.prems"(2,3) by (auto simp: pending_below_def data_pending_def)
  have e: "process_each env (alert_ids (fst s)) s0 = Some s0"
    by (rule process_each_idle [OF pb]) (simp add: s0_def)
  have q: "quiet (fst s0)" using n by (simp add: quiet_def s0_def)
  have i: "cras_alert_process_all_pending_alerts env s0 = Some s0"
    by (subst cras_alert_process_all_pending_alerts.simps) (simp add: s0_def)
  show ?case
  proof (cases "has_alert_pending (fst s)")
    case True
    have "cras_alert_process_all_pending_alerts env s = Some s0"
      using True e i by (subst cras_alert_process_all_pending_alerts.simps) (simp add: s0_def [symmetric] alert_ids_def)
    then show ?thesis using q by (simp add: s0_def)
  next
    case False
    then show ?thesis using n by (subst cras_alert_process_all_pending_alerts.simps) (simp add: quiet_def)
  qed
next
  case (Suc k)
  show ?case
  proof (cases "has_alert_pending (fst s)")
    case True
    define s0 where "s0 = ((fst s)\<lparr>has_alert_pending := False\<rparr>, snd s)"
    obtain s1 where p: "process_each env (alert_ids (fst s)) s0 = Some s1"
      and ids: "alert_ids (fst s1) = alert_ids (fst s)" and dp: "data_pending (fst s1)"
      and l: "\<And>b y. find_alert (fst s1) b = Some y \<Longrightarrow> pending y \<Longrightarrow>
        (has_alert_pending (fst s1) \<and> rank b < k) \<or> b \<notin> set (alert_ids (fst s))"
      using process_each_round [OF assms, of "alert_ids (fst s)" s0 k] Suc.prems(2,3)
      by (fastforce simp: s0_def data_pending_def pending_below_def)
    have l': "has_alert_pending (fst s1) \<and> rank b < k" if "find_alert (fst s1) b = Some y" "pending y" for b y
      using l [OF that] find_alert_in_ids [OF that(1)] ids by auto
    have "pending_below rank k (fst s1)" using l' by (simp add: pending_below_def)
    moreover have "pending_seen (fst s1)"
      using l' find_alert_distinct [of "fst s1"] ids Suc.prems(1) by (auto simp: pending_seen_def)
    ultimately show ?thesis
      using Suc.IH [of s1] ids dp Suc.prems(1) True p
      by (subst cras_alert_process_all_pending_alerts.simps) (simp add: s0_def [symmetric] alert_ids_def)
  next
    case False
    have "\<not> pending x \<and> alert_data x = []" if "x \<in> set (all_alerts (fst s))" for x
      using find_alert_distinct [OF Suc.prems(1) that] Suc.prems(2,4) False that
      by (auto simp: data_pending_def pending_seen_def)
    then show ?thesis using False by (subst cras_alert_process_all_pending_alerts.simps) (simp add: quiet_def)
  qed
qed

text \<open>The states the server reaches: alerts are created at new addresses and destroyed, callbacks are
  added and removed, alerts are marked, and pending alerts are processed.\<close>

definition alerts_inv :: "alerts \<Rightarrow> bool" where
  "alerts_inv st \<longleftrightarrow> distinct (alert_ids st) \<and>
     (\<forall>x \<in> set (all_alerts st). (pending x \<longrightarrow> has_alert_pending st) \<and> (alert_data x \<noteq> [] \<longrightarrow> pending x))"

inductive alerts_reach :: "alerts \<Rightarrow> bool" where
  start: "alerts_reach \<lparr>all_alerts = [], has_alert_pending = False\<rparr>"
| create: "alerts_reach st \<Longrightarrow> a \<notin> set (alert_ids st) \<Longrightarrow> alerts_reach (snd (cras_alert_create (Some a) p fl st))"
| add: "alerts_reach st \<Longrightarrow> alerts_reach (upd_alert a (\<lambda>x. snd (cras_alert_add_callback mem cb arg x)) st)"
| rm: "alerts_reach st \<Longrightarrow> alerts_reach (upd_alert a (\<lambda>x. snd (cras_alert_rm_callback c arg x)) st)"
| mark: "alerts_reach st \<Longrightarrow> alerts_reach (perform r st)"
| destroy: "alerts_reach st \<Longrightarrow> alerts_reach (cras_alert_destroy i st)"
| destroy_all: "alerts_reach st \<Longrightarrow> alerts_reach (cras_alert_destroy_all st)"
| process: "alerts_reach st \<Longrightarrow> ranked rank (env :: unit alert_env) \<Longrightarrow>
    cras_alert_process_all_pending_alerts env (st, ()) = Some (st', ()) \<Longrightarrow> alerts_reach st'"

lemma alerts_inv_upd:
  assumes "alerts_inv st" and "\<And>x. alert_id (f x) = alert_id x \<and> pending (f x) = pending x \<and> alert_data (f x) = alert_data x"
  shows "alerts_inv (upd_alert a f st)"
  using assms alert_ids_upd [of f a st] by (auto simp: alerts_inv_def upd_alert_def)

lemma alerts_inv_perform: "alerts_inv st \<Longrightarrow> alerts_inv (perform r st)"
  using alert_ids_upd [of "append_data d" a st for a d] alert_ids_upd [of "\<lambda>x. x\<lparr>pending := True\<rparr>" a st for a]
  by (cases r) (auto simp: alerts_inv_def cras_alert_pending_def cras_alert_pending_data_def upd_alert_def)

lemma alerts_inv_destroy: "alerts_inv st \<Longrightarrow> alerts_inv (cras_alert_destroy i st)"
  by (auto simp: alerts_inv_def alert_ids_def cras_alert_destroy_def distinct_map_filter split: option.splits)

lemma alerts_inv_start_process:
  assumes "alerts_inv st"
  shows "data_pending st \<and> pending_seen st \<and> distinct (alert_ids st)"
  using assms by (auto simp: alerts_inv_def data_pending_def pending_seen_def find_alert_def find_Some_iff)

lemma pending_below_Max: "pending_below rank (Suc (Max (insert 0 (rank ` set (alert_ids st))))) st"
  unfolding pending_below_def using find_alert_in_ids by (fastforce intro: Max_ge le_imp_less_Suc)

lemma process_all_returns:
  assumes "alerts_inv st" and "ranked rank env"
  shows "\<exists>st' w'. cras_alert_process_all_pending_alerts env (st, w) = Some (st', w') \<and> quiet st' \<and> alert_ids st' = alert_ids st"
  using process_all_quiet [OF assms(2), of "(st, w)"] alerts_inv_start_process [OF assms(1)] pending_below_Max
  by fastforce

lemma alerts_reach_inv: "alerts_reach st \<Longrightarrow> alerts_inv st"
proof (induction rule: alerts_reach.induct)
  case (process st rank env st')
  then show ?case using process_all_returns [of st rank env "()"] by (auto simp: alerts_inv_def quiet_def)
next
  case (destroy_all st)
  have "alerts_inv s \<Longrightarrow> alerts_inv (fold (\<lambda>x. cras_alert_destroy (Some (alert_id x))) xs s)" for xs s
    by (induction xs arbitrary: s) (simp_all add: alerts_inv_destroy)
  then show ?case using destroy_all by (simp add: cras_alert_destroy_all_def)
next
  case start
  then show ?case by (simp add: alerts_inv_def alert_ids_def)
next
  case (create st a p fl)
  then show ?case by (auto simp: alerts_inv_def alert_ids_def cras_alert_create_def)
next
  case (add st a mem cb arg)
  then show ?case by (intro alerts_inv_upd) (auto simp: cras_alert_add_callback_def split: option.splits)
next
  case (rm st a c arg)
  then show ?case by (intro alerts_inv_upd) (auto simp: cras_alert_rm_callback_def)
qed (auto intro: alerts_inv_perform alerts_inv_destroy)

section \<open>What is delivered\<close>

text \<open>The environment that only records the calls.\<close>

definition record_calls :: "alert_event list alert_env" where
  "record_calls ev w = ([], w @ [ev])"

definition deliveries :: "cras_alert \<Rightarrow> u8 list list \<Rightarrow> alert_event list" where
  "deliveries x ds =
     (if ds = [] then map (\<lambda>cb. Call (alert_id x) cb None) (callbacks x)
      else concat (map (\<lambda>d. map (\<lambda>cb. Call (alert_id x) cb (Some d)) (callbacks x)) ds))"

definition alert_calls :: "cras_alert \<Rightarrow> alert_event list" where
  "alert_calls x =
     (if pending x then (if has_prepare x then [Prepare (alert_id x)] else []) @ deliveries x (alert_data x) else [])"

definition settled :: "cras_alert \<Rightarrow> cras_alert" where
  "settled x = (if pending x then x\<lparr>pending := False, alert_data := []\<rparr> else x)"

lemma call_callbacks_record:
  "call_callbacks record_calls x d cbs (st, w) = Some (st, w @ map (\<lambda>cb. Call (alert_id x) cb d) cbs)"
  by (induction cbs arbitrary: w) (simp_all add: record_calls_def frees_data_def)

lemma upd_alert_comp:
  assumes "\<And>x. alert_id (f x) = alert_id x"
  shows "upd_alert a g (upd_alert a f st) = upd_alert a (\<lambda>x. g (f x)) st"
  by (simp add: upd_alert_def assms)

lemma upd_alert_cong_found:
  assumes "distinct (alert_ids st)" and "find_alert st a = Some x" and "f x = g x"
  shows "upd_alert a f st = upd_alert a g st"
proof -
  have "y = x" if "y \<in> set (all_alerts st)" "alert_id y = a" for y
    using find_alert_distinct [OF assms(1) that(1)] that(2) assms(2) by simp
  then show ?thesis using assms(3) by (auto simp: upd_alert_def intro!: arg_cong [where f = "\<lambda>l. st\<lparr>all_alerts := l\<rparr>"])
qed

lemma deliver_data_record:
  assumes "distinct (alert_ids st)" and "find_alert st a = Some x"
  shows "deliver_data record_calls a (st, w) = Some (upd_alert a (\<lambda>x. x\<lparr>alert_data := []\<rparr>) st,
    w @ concat (map (\<lambda>d. map (\<lambda>cb. Call a cb (Some d)) (callbacks x)) (alert_data x)))"
  using assms
proof (induction "alert_data x" arbitrary: x st w)
  case Nil
  have "upd_alert a (\<lambda>x. x\<lparr>alert_data := []\<rparr>) st = upd_alert a (\<lambda>x. x) st"
    using Nil by (intro upd_alert_cong_found [OF Nil.prems]) simp
  then show ?case using Nil by (subst deliver_data.simps) (simp add: upd_alert_def)
next
  case (Cons d ds)
  define f :: "cras_alert \<Rightarrow> cras_alert" where "f = (\<lambda>x. x\<lparr>alert_data := tl (alert_data x)\<rparr>)"
  have i: "alert_id x = a" using Cons.prems find_alert_in_ids by blast
  have x1: "find_alert (upd_alert a f st) a = Some (x\<lparr>alert_data := ds\<rparr>)"
    using Cons.prems(2) Cons.hyps(2) [symmetric] by (simp add: f_def find_alert_upd)
  have d1: "distinct (alert_ids (upd_alert a f st))" using Cons.prems(1) by (simp add: f_def alert_ids_upd)
  have c: "upd_alert a (\<lambda>x. x\<lparr>alert_data := []\<rparr>) (upd_alert a f st) = upd_alert a (\<lambda>x. x\<lparr>alert_data := []\<rparr>) st"
    by (simp add: upd_alert_comp f_def)
  have e: "deliver_data record_calls a (st, w) =
      (if ds = [] then Some (upd_alert a f st, w @ map (\<lambda>cb. Call a cb (Some d)) (callbacks x))
       else deliver_data record_calls a (upd_alert a f st, w @ map (\<lambda>cb. Call a cb (Some d)) (callbacks x)))"
    using Cons.prems(2) Cons.hyps(2) [symmetric] i
    by (subst deliver_data.simps) (simp add: call_callbacks_record f_def Let_def)
  show ?case
  proof (cases "ds = []")
    case True
    have "upd_alert a f st = upd_alert a (\<lambda>x. x\<lparr>alert_data := []\<rparr>) st"
      using True Cons.hyps(2) [symmetric] by (intro upd_alert_cong_found [OF Cons.prems]) (simp add: f_def)
    then show ?thesis using e True Cons.hyps(2) [symmetric] by simp
  next
    case False
    have "deliver_data record_calls a (upd_alert a f st, w') =
        Some (upd_alert a (\<lambda>x. x\<lparr>alert_data := []\<rparr>) st,
          w' @ concat (map (\<lambda>d. map (\<lambda>cb. Call a cb (Some d)) (callbacks x)) ds))" for w'
      using Cons.hyps(1) [OF _ d1 x1] c by simp
    then show ?thesis using e False Cons.hyps(2) [symmetric] by simp
  qed
qed

lemma process_record:
  assumes "distinct (alert_ids st)" and "find_alert st a = Some x"
  shows "cras_alert_process record_calls a (st, w) = Some (upd_alert a settled st, w @ alert_calls x)"
proof (cases "pending x")
  case False
  have "upd_alert a settled st = upd_alert a (\<lambda>x. x) st"
    using False by (intro upd_alert_cong_found [OF assms]) (simp add: settled_def)
  then show ?thesis using False assms by (simp add: cras_alert_process_def alert_calls_def upd_alert_def)
next
  case True
  define f :: "cras_alert \<Rightarrow> cras_alert" where "f = (\<lambda>x. x\<lparr>pending := False\<rparr>)"
  define w1 where "w1 = w @ (if has_prepare x then [Prepare a] else [])"
  have i: "alert_id x = a" using assms find_alert_in_ids by blast
  have x1: "find_alert (upd_alert a f st) a = Some (f x)" using assms by (simp add: f_def find_alert_upd)
  have d1: "distinct (alert_ids (upd_alert a f st))" using assms by (simp add: f_def alert_ids_upd)
  have u: "upd_alert a (\<lambda>x. x\<lparr>alert_data := []\<rparr>) (upd_alert a f st) = upd_alert a settled st"
    by (subst upd_alert_comp) (auto simp: f_def settled_def True intro!: upd_alert_cong_found [OF assms])
  have "cras_alert_process record_calls a (st, w) =
      do { s3 \<leftarrow> (if alert_data x = [] then call_callbacks record_calls (f x) None (callbacks x) (upd_alert a f st, w1)
              else Some (upd_alert a f st, w1)); deliver_data record_calls a s3 }"
    using True assms(2) x1 by (simp add: cras_alert_process_def Let_def record_calls_def f_def w1_def)
  then show ?thesis
    using i True u deliver_data_record [OF d1 x1]
    by (simp add: call_callbacks_record alert_calls_def deliveries_def w1_def) (simp add: f_def)
qed

lemma settled_id [simp]: "alert_id (settled x) = alert_id x" by (simp add: settled_def)

lemma process_each_record:
  "distinct (map alert_id (pre @ xs)) \<Longrightarrow> all_alerts st = map settled pre @ xs \<Longrightarrow>
   process_each record_calls (map alert_id xs) (st, w) =
     Some (st\<lparr>all_alerts := map settled (pre @ xs)\<rparr>, w @ concat (map alert_calls xs))"
proof (induction xs arbitrary: pre st w)
  case (Cons x xs)
  have d: "distinct (alert_ids st)" using Cons.prems by (simp add: alert_ids_def comp_def)
  have x: "find_alert st (alert_id x) = Some x" using Cons.prems(2) by (intro find_alert_distinct [OF d]) simp
  define g where "g = (\<lambda>y. if alert_id y = alert_id x then settled y else y)"
  have g: "g y = y" if "alert_id y \<noteq> alert_id x" for y using that by (simp add: g_def)
  have "map g (map settled pre) = map settled pre"
    by (rule map_idI) (use Cons.prems(1) in \<open>auto intro!: g dest: sym\<close>)
  moreover have "map g xs = xs" by (rule map_idI) (use Cons.prems(1) in \<open>auto intro!: g dest: sym\<close>)
  ultimately   have "map g (all_alerts st) = map settled (pre @ [x]) @ xs" using Cons.prems(2) by (simp add: g_def)
  then have "upd_alert (alert_id x) settled st = st\<lparr>all_alerts := map settled (pre @ [x]) @ xs\<rparr>"
    by (simp add: upd_alert_def g_def)
  then show ?case
    using process_record [OF d x] Cons.IH [of "pre @ [x]" "st\<lparr>all_alerts := map settled (pre @ [x]) @ xs\<rparr>"] Cons.prems(1)
    by simp
qed simp

lemma process_all_record:
  assumes "distinct (alert_ids st)" and "has_alert_pending st"
  shows "cras_alert_process_all_pending_alerts record_calls (st, w) =
    Some (\<lparr>all_alerts = map settled (all_alerts st), has_alert_pending = False\<rparr>, w @ concat (map alert_calls (all_alerts st)))"
proof -
  have "process_each record_calls (map alert_id (all_alerts st)) (st\<lparr>has_alert_pending := False\<rparr>, w) =
     Some (st\<lparr>has_alert_pending := False, all_alerts := map settled (all_alerts st)\<rparr>, w @ concat (map alert_calls (all_alerts st)))"
    using process_each_record [of "[]" "all_alerts st" "st\<lparr>has_alert_pending := False\<rparr>"] assms(1)
    by (simp add: alert_ids_def)
  moreover have "cras_alert_process_all_pending_alerts record_calls (st\<lparr>has_alert_pending := False, all_alerts := l\<rparr>, w') =
     Some (\<lparr>all_alerts = l, has_alert_pending = False\<rparr>, w')" for l w'
    by (subst cras_alert_process_all_pending_alerts.simps) simp
  ultimately show ?thesis
    using assms(2) by (subst cras_alert_process_all_pending_alerts.simps) simp
qed

text \<open>The data a sequence of requests leaves with an alert: all of it, or the latest.\<close>

fun request_data :: "nat \<Rightarrow> alert_request \<Rightarrow> u8 list list" where
  "request_data a (Pending b) = []"
| "request_data a (Pending_data b d) = (if a = b then [d] else [])"

lemma request_data_target: "d \<in> set (request_data a r) \<Longrightarrow> request_target r = a"
  by (cases r) (simp_all split: if_splits)

definition expected_data :: "alert_request list \<Rightarrow> cras_alert \<Rightarrow> u8 list list" where
  "expected_data rs x =
     (let ds = concat (map (request_data (alert_id x)) rs) in if keeps_all x \<or> ds = [] then ds else [last ds])"

definition requested :: "alert_request list \<Rightarrow> cras_alert \<Rightarrow> bool" where
  "requested rs x \<longleftrightarrow> alert_id x \<in> set (map request_target rs)"

definition marked :: "alert_request list \<Rightarrow> cras_alert \<Rightarrow> cras_alert" where
  "marked rs x = x\<lparr>pending := requested rs x, alert_data := expected_data rs x\<rparr>"

lemma keeps_all_marked [simp]: "keeps_all (x\<lparr>pending := p, alert_data := d\<rparr>) = keeps_all x"
  by (simp add: keeps_all_def)

lemma perform_marked:
  "all_alerts (perform r st) = map (\<lambda>x. if alert_id x = request_target r then
      (case r of Pending a \<Rightarrow> x\<lparr>pending := True\<rparr> | Pending_data a d \<Rightarrow> append_data d x) else x) (all_alerts st)"
  by (cases r) (simp_all add: cras_alert_pending_def cras_alert_pending_data_def upd_alert_def)

lemma marked_snoc:
  "(if alert_id (marked rs x) = request_target r then
      (case r of Pending a \<Rightarrow> (marked rs x)\<lparr>pending := True\<rparr> | Pending_data a d \<Rightarrow> append_data d (marked rs x))
    else marked rs x) = marked (rs @ [r]) x"
  by (cases r) (auto simp: marked_def requested_def expected_data_def append_data_def Let_def)

lemma fold_perform_marked:
  assumes "\<forall>x \<in> set (all_alerts st). \<not> pending x \<and> alert_data x = []"
  shows "all_alerts (fold perform rs st) = map (marked rs) (all_alerts st)"
proof (induction rs rule: rev_induct)
  case Nil
  then show ?case using assms by (simp add: marked_def requested_def expected_data_def map_idI)
next
  case (snoc r rs)
  then show ?case by (simp add: perform_marked marked_snoc)
qed

lemma fold_perform_flag: "has_alert_pending (fold perform rs st) \<longleftrightarrow> has_alert_pending st \<or> rs \<noteq> []"
proof (induction rs rule: rev_induct)
  case (snoc r rs)
  then show ?case by (cases r) (simp_all add: cras_alert_pending_def cras_alert_pending_data_def)
qed simp

lemma expected_data_none: "\<not> requested rs x \<Longrightarrow> expected_data rs x = []"
proof -
  assume "\<not> requested rs x"
  then have "request_data (alert_id x) r = []" if "r \<in> set rs" for r
    using that by (cases r) (force simp: requested_def)+
  then show ?thesis by (simp add: expected_data_def)
qed

lemma settled_marked:
  "\<not> pending x \<Longrightarrow> alert_data x = [] \<Longrightarrow> settled (marked rs x) = x"
  by (auto simp: settled_def marked_def expected_data_none)

text \<open>Claim C19.  In every state the server reaches, processing the pending alerts returns and leaves no alert
  pending and no data queued, also when preparation functions and callbacks mark further alerts, as
  long as they do so downwards in some ranking of the alerts.\<close>

theorem alerts_all_delivered:
  assumes "alerts_reach st" and "ranked rank env"
  shows "\<exists>st' w'. cras_alert_process_all_pending_alerts env (st, w) = Some (st', w') \<and>
    \<not> has_alert_pending st' \<and> map alert_id (all_alerts st') = map alert_id (all_alerts st) \<and>
    (\<forall>x \<in> set (all_alerts st'). \<not> pending x \<and> alert_data x = [])"
  using process_all_returns [OF alerts_reach_inv [OF assms(1)] assms(2), of w] by (auto simp: quiet_def alert_ids_def)

definition two_alerts :: alerts where
  "two_alerts = perform (Pending 2) (snd (cras_alert_create (Some 1) False 0 (snd (cras_alert_create (Some 2) True 0
     \<lparr>all_alerts = [], has_alert_pending = False\<rparr>))))"

definition chain_env :: "unit alert_env" where
  "chain_env ev w = (case ev of Prepare a \<Rightarrow> (if a = 2 then [Pending_data 1 [7]] else [], w) | Call a cb d \<Rightarrow> ([], w))"

lemma two_alerts_reach: "alerts_reach two_alerts" and chain_env_ranked: "ranked id chain_env"
  unfolding two_alerts_def
  by (intro alerts_reach.intros; simp add: alert_ids_def cras_alert_create_def)
     (auto simp: ranked_def chain_env_def split: alert_event.splits)

theorem alerts_all_delivered_witness:
  "\<exists>st' w'. cras_alert_process_all_pending_alerts chain_env (two_alerts, ()) = Some (st', w') \<and>
    \<not> has_alert_pending st' \<and> map alert_id (all_alerts st') = map alert_id (all_alerts two_alerts) \<and>
    (\<forall>x \<in> set (all_alerts st'). \<not> pending x \<and> alert_data x = [])"
  by (rule alerts_all_delivered [OF two_alerts_reach chain_env_ranked])

text \<open>Claim C18.  From a quiet state, whatever sequence of requests has marked alerts, processing calls each
  marked alert exactly once: its preparation function, then its callbacks in the order of registration,
  with no data if there was none, else once per data item in the order of arrival for an alert that
  keeps all data and only for the latest item for the others.  Unmarked alerts are not called, and the
  state is quiet again.\<close>

theorem alerts_collapsed_delivery:
  assumes "distinct (map alert_id (all_alerts st))"
    and "\<not> has_alert_pending st" and "\<forall>x \<in> set (all_alerts st). \<not> pending x \<and> alert_data x = []"
  shows "cras_alert_process_all_pending_alerts record_calls (fold perform rs st, []) =
    Some (st, concat (map (\<lambda>x. if requested rs x
      then (if has_prepare x then [Prepare (alert_id x)] else []) @ deliveries x (expected_data rs x) else []) (all_alerts st)))"
proof -
  define st1 where "st1 = fold perform rs st"
  have l: "all_alerts st1 = map (marked rs) (all_alerts st)" using fold_perform_marked [OF assms(3)] by (simp add: st1_def)
  have s: "map settled (all_alerts st1) = all_alerts st" using assms(3) by (simp add: l map_idI settled_marked)
  have i: "alert_id (marked rs x) = alert_id x" for x by (simp add: marked_def)
  have d: "distinct (alert_ids st1)" using assms(1) by (simp add: alert_ids_def l comp_def i)
  have c: "map alert_calls (all_alerts st1) = map (\<lambda>x. if requested rs x
      then (if has_prepare x then [Prepare (alert_id x)] else []) @ deliveries x (expected_data rs x) else []) (all_alerts st)"
    by (simp add: l alert_calls_def marked_def deliveries_def)
  have f: "has_alert_pending st1 \<longleftrightarrow> rs \<noteq> []" using assms(2) by (simp add: st1_def fold_perform_flag)
  show ?thesis
  proof (cases "rs = []")
    case True
    then show ?thesis using assms(2) by (subst cras_alert_process_all_pending_alerts.simps) (simp add: requested_def)
  next
    case False
    then show ?thesis
      using process_all_record [OF d, of "[]"] f s c assms(2) by (simp add: st1_def [symmetric])
  qed
qed

theorem alerts_collapsed_delivery_witness:
  "cras_alert_process_all_pending_alerts record_calls
     (fold perform [Pending_data 1 [7], Pending 2, Pending_data 1 [8]]
       \<lparr>all_alerts = [\<lparr>alert_id = 1, pending = False, alert_flags = 0, has_prepare = True,
           callbacks = [\<lparr>callback = 5, cb_arg = 6\<rparr>], alert_data = []\<rparr>], has_alert_pending = False\<rparr>, []) =
   Some (\<lparr>all_alerts = [\<lparr>alert_id = 1, pending = False, alert_flags = 0, has_prepare = True,
           callbacks = [\<lparr>callback = 5, cb_arg = 6\<rparr>], alert_data = []\<rparr>], has_alert_pending = False\<rparr>,
     [Prepare 1, Call 1 \<lparr>callback = 5, cb_arg = 6\<rparr> (Some [8])])"
  by (subst alerts_collapsed_delivery)
     (simp_all add: requested_def expected_data_def deliveries_def keeps_all_def)

end
