(* ===== verification/Fmt_Conv_Ops.thy ===== *)
theory Fmt_Conv_Ops
  imports Audio_Format "HOL-Library.Signed_Division"
begin

text \<open>
  \<^verbatim>\<open>server/cras_fmt_conv_ops.c\<close>: conversion of sample formats and of channel counts, on a little-endian
  machine.  A buffer of 16-bit or 32-bit samples is a list of words, read with \<open>sint\<close> where C reads a
  signed sample; a buffer of packed 24-bit samples is a list of bytes.  A store outside the output
  buffer is \<open>None\<close>.  The loops write the output one sample at a time, and are shown equal to maps over
  frames.
\<close>

type_synonym s16 = "16 word"

section \<open>Sample formats\<close>

definition s16_add_and_clip :: "s16 \<Rightarrow> s16 \<Rightarrow> s16" where
  "s16_add_and_clip a b = of_int (min (max (sint a + sint b) (- 32768)) 32767)"

definition convert_u8_to_s16le :: "u8 list \<Rightarrow> s16 list" where
  "convert_u8_to_s16le xs = map (\<lambda>x. push_bit 8 (ucast x - 0x80)) xs"

fun convert_s243le_to_s16le :: "u8 list \<Rightarrow> s16 list" where
  "convert_s243le_to_s16le (lo # mid # hi # xs) =
     (ucast mid OR push_bit 8 (ucast hi)) # convert_s243le_to_s16le xs"
| "convert_s243le_to_s16le xs = []"

definition convert_s24le_to_s16le :: "u32 list \<Rightarrow> s16 list" where
  "convert_s24le_to_s16le xs = map (\<lambda>x. ucast (signed_drop_bit 8 (x AND 0x00ffffff))) xs"

definition convert_s32le_to_s16le :: "u32 list \<Rightarrow> s16 list" where
  "convert_s32le_to_s16le xs = map (\<lambda>x. ucast (signed_drop_bit 16 x)) xs"

definition convert_s16le_to_u8 :: "s16 list \<Rightarrow> u8 list" where
  "convert_s16le_to_u8 xs = map (\<lambda>x. ucast (signed_drop_bit 8 x) + 128) xs"

definition convert_s16le_to_s243le :: "s16 list \<Rightarrow> u8 list" where
  "convert_s16le_to_s243le xs = concat (map (\<lambda>x. [0, ucast x, ucast (drop_bit 8 x)]) xs)"

definition convert_s16le_to_s24le :: "s16 list \<Rightarrow> u32 list" where
  "convert_s16le_to_s24le xs = map (\<lambda>x. push_bit 8 (scast x)) xs"

definition convert_s16le_to_s32le :: "s16 list \<Rightarrow> u32 list" where
  "convert_s16le_to_s32le xs = map (\<lambda>x. push_bit 16 (scast x)) xs"

section \<open>Channels\<close>

text \<open>\<^verbatim>\<open>out[i] = v\<close> and a loop over frames of such stores.  A position is a signed number, \<open>- 1\<close> for a
  channel that is missing: \<^verbatim>\<open>(size_t)-1\<close> in the code.\<close>

fun store :: "int \<times> s16 \<Rightarrow> s16 list option \<Rightarrow> s16 list option" where
  "store (i, v) None = None"
| "store (i, v) (Some xs) = (if 0 \<le> i \<and> i < int (length xs) then Some (xs[nat i := v]) else None)"

definition store_frames :: "nat \<Rightarrow> (nat \<Rightarrow> (int \<times> s16) list) \<Rightarrow> s16 list option \<Rightarrow> s16 list option" where
  "store_frames n ws out = fold store (concat (map ws [0..<n])) out"

definition mem_zero :: "nat \<Rightarrow> s16 list \<Rightarrow> s16 list option" where
  "mem_zero n out = (if n \<le> length out then Some (replicate n 0 @ drop n out) else None)"

definition half :: "s16 \<Rightarrow> s16" where
  "half x = of_int (sint x sdiv 2)"

definition quarter :: "s16 \<Rightarrow> s16" where
  "quarter x = of_int (sint x sdiv 4)"

definition s16_mono_to_stereo :: "s16 list \<Rightarrow> nat \<Rightarrow> s16 list \<Rightarrow> s16 list option" where
  "s16_mono_to_stereo inp n out =
     store_frames n (\<lambda>i. [(2 * int i, inp ! i), (2 * int i + 1, inp ! i)]) (Some out)"

definition s16_stereo_to_mono :: "s16 list \<Rightarrow> nat \<Rightarrow> s16 list \<Rightarrow> s16 list option" where
  "s16_stereo_to_mono inp n out =
     store_frames n (\<lambda>i. [(1 * int i, s16_add_and_clip (inp ! (2 * i)) (inp ! (2 * i + 1)))]) (Some out)"

definition s16_mono_to_51 :: "int \<Rightarrow> int \<Rightarrow> int \<Rightarrow> s16 list \<Rightarrow> nat \<Rightarrow> s16 list \<Rightarrow> s16 list option" where
  "s16_mono_to_51 left right center inp n out =
     store_frames n
       (if center \<noteq> - 1 then (\<lambda>i. [(6 * int i + center, inp ! i)])
        else if left \<noteq> - 1 \<and> right \<noteq> - 1
        then (\<lambda>i. [(6 * int i + right, half (inp ! i)), (6 * int i + left, half (inp ! i))])
        else (\<lambda>i. [(6 * int i, inp ! i)]))
       (mem_zero (6 * n) out)"

definition s16_stereo_to_51 :: "int \<Rightarrow> int \<Rightarrow> int \<Rightarrow> s16 list \<Rightarrow> nat \<Rightarrow> s16 list \<Rightarrow> s16 list option" where
  "s16_stereo_to_51 left right center inp n out =
     store_frames n
       (if left \<noteq> - 1 \<and> right \<noteq> - 1
        then (\<lambda>i. [(6 * int i + left, inp ! (2 * i)), (6 * int i + right, inp ! (2 * i + 1))])
        else if center \<noteq> - 1
        then (\<lambda>i. [(6 * int i + center, s16_add_and_clip (inp ! (2 * i)) (inp ! (2 * i + 1)))])
        else (\<lambda>i. [(6 * int i, inp ! (2 * i)), (6 * int i + 1, inp ! (2 * i + 1))]))
       (mem_zero (6 * n) out)"

definition s16_51_to_stereo :: "s16 list \<Rightarrow> nat \<Rightarrow> s16 list \<Rightarrow> s16 list option" where
  "s16_51_to_stereo inp n out =
     store_frames n (\<lambda>i. let half_center = half (inp ! (6 * i + 4)) in
       [(2 * int i, s16_add_and_clip (inp ! (6 * i)) half_center),
        (2 * int i + 1, s16_add_and_clip (inp ! (6 * i + 1)) half_center)]) (Some out)"

definition s16_stereo_to_quad :: "int \<Rightarrow> int \<Rightarrow> int \<Rightarrow> int \<Rightarrow> s16 list \<Rightarrow> nat \<Rightarrow> s16 list \<Rightarrow> s16 list option" where
  "s16_stereo_to_quad fl fr rl rr inp n out =
     store_frames n
       (if fl \<noteq> - 1 \<and> fr \<noteq> - 1 \<and> rl \<noteq> - 1 \<and> rr \<noteq> - 1
        then (\<lambda>i. [(4 * int i + fl, inp ! (2 * i)), (4 * int i + fr, inp ! (2 * i + 1)),
                   (4 * int i + rl, inp ! (2 * i)), (4 * int i + rr, inp ! (2 * i + 1))])
        else (\<lambda>i. [(4 * int i, inp ! (2 * i)), (4 * int i + 1, inp ! (2 * i + 1)),
                   (4 * int i + 2, inp ! (2 * i)), (4 * int i + 3, inp ! (2 * i + 1))])) (Some out)"

text \<open>The positions are also used to read, here with \<open>inp ! nat k\<close>.\<close>

definition s16_quad_to_stereo :: "int \<Rightarrow> int \<Rightarrow> int \<Rightarrow> int \<Rightarrow> s16 list \<Rightarrow> nat \<Rightarrow> s16 list \<Rightarrow> s16 list option" where
  "s16_quad_to_stereo fl fr rl rr inp n out =
     (let (fl, fr, rl, rr) = (if fl = - 1 \<or> fr = - 1 \<or> rl = - 1 \<or> rr = - 1 then (0, 1, 2, 3) else (fl, fr, rl, rr))
      in store_frames n (\<lambda>i.
        [(2 * int i, s16_add_and_clip (inp ! nat (4 * int i + fl)) (quarter (inp ! nat (4 * int i + rl)))),
         (2 * int i + 1, s16_add_and_clip (inp ! nat (4 * int i + fr)) (quarter (inp ! nat (4 * int i + rr))))]) (Some out))"

text \<open>\<^verbatim>\<open>in[..] / num_in_ch\<close> divides an \<^verbatim>\<open>int16_t\<close> by a \<^verbatim>\<open>size_t\<close>: the sample is converted to 64 bits
  without sign first, and the result is cut to 16 bits by the store.\<close>

definition channel_share :: "s16 \<Rightarrow> u64 \<Rightarrow> s16" where
  "channel_share x num_in_ch = ucast ((scast x :: u64) div num_in_ch)"

definition s16_default_all_to_all :: "nat \<Rightarrow> u64 \<Rightarrow> u64 \<Rightarrow> s16 list \<Rightarrow> nat \<Rightarrow> s16 list \<Rightarrow> s16 list option" where
  \<comment> \<open>the first argument is \<^verbatim>\<open>cras_get_format_bytes(out_fmt)\<close>, a multiple of two here\<close>
  "s16_default_all_to_all fb num_in_ch num_out_ch inp n out =
     fold (\<lambda>(out_ch, in_ch, i) acc. case acc of None \<Rightarrow> None
       | Some xs \<Rightarrow>
           let k = out_ch + i * unat num_out_ch
           in store (int k, xs ! k + channel_share (inp ! (in_ch + i * unat num_in_ch)) num_in_ch) (Some xs))
       (concat (map (\<lambda>out_ch. concat (map (\<lambda>in_ch. map (\<lambda>i. (out_ch, in_ch, i)) [0..<n])
          [0..<unat num_in_ch])) [0..<unat num_out_ch]))
       (mem_zero (n * fb div 2) out)"

text \<open>\<open>fmac s c x\<close> is the value of \<^verbatim>\<open>sum += coef[i] * buf[i]\<close>: a product and a sum of \<^verbatim>\<open>float\<close>s, cut to an
  integer.\<close>

definition s16_multiply_buf_with_coef :: "(int \<Rightarrow> 'f \<Rightarrow> int \<Rightarrow> int) \<Rightarrow> 'f list \<Rightarrow> s16 list \<Rightarrow> nat \<Rightarrow> s16" where
  "s16_multiply_buf_with_coef fmac coef buf sz =
     (let sum = fold (\<lambda>i s. fmac s (coef ! i) (sint (buf ! i))) [0..<sz] 0
      in of_int (min (max sum (- 0x8000)) 0x7fff))"

definition s16_convert_channels :: "(int \<Rightarrow> 'f \<Rightarrow> int \<Rightarrow> int) \<Rightarrow> 'f list list \<Rightarrow> nat \<Rightarrow> nat \<Rightarrow> s16 list \<Rightarrow> nat \<Rightarrow>
    s16 list \<Rightarrow> s16 list option" where
  "s16_convert_channels fmac mtx num_in_ch num_out_ch inp n out =
     store_frames n (\<lambda>fr. map (\<lambda>i. (int num_out_ch * int fr + int i,
       s16_multiply_buf_with_coef fmac (mtx ! i) (drop (num_in_ch * fr) inp) num_in_ch)) [0..<num_out_ch]) (Some out)"

section \<open>Sample formats: lemmas\<close>

lemma sint_s16_range: "- 32768 \<le> sint (x :: s16) \<and> sint x \<le> 32767"
  using sint_ge [of x] sint_lt [of x] by simp

lemma sint_of_int_s16: "- 32768 \<le> v \<Longrightarrow> v \<le> 32767 \<Longrightarrow> sint (of_int v :: s16) = v"
  by (simp add: signed_of_int signed_take_bit_int_eq_self)

lemma sint_add_and_clip: "sint (s16_add_and_clip a b) = min (max (sint a + sint b) (- 32768)) 32767"
  unfolding s16_add_and_clip_def by (rule sint_of_int_s16) simp_all

lemma s16_s24_s16: "ucast (signed_drop_bit 8 ((push_bit 8 (scast (x :: s16)) :: u32) AND 0x00ffffff)) = x"
proof (rule bit_word_eqI)
  fix n assume n: "n < LENGTH(16)"
  have m: "(0x00ffffff :: u32) = mask 24" by (simp add: mask_eq_exp_minus_1)
  show "bit (ucast (signed_drop_bit 8 ((push_bit 8 (scast x) :: u32) AND 0x00ffffff)) :: s16) n = bit x n"
    using n by (simp add: m bit_simps)
qed

lemma s16_s32_s16: "ucast (signed_drop_bit 16 (push_bit 16 (scast (x :: s16)) :: u32)) = x"
  by (rule bit_word_eqI) (simp add: bit_simps)

lemma s16_s243_s16: "(ucast (ucast x :: u8) OR push_bit 8 (ucast (ucast (drop_bit 8 x) :: u8))) = (x :: s16)"
  by (rule bit_word_eqI) (auto simp: bit_simps)

lemma u8_s16_u8: "ucast (signed_drop_bit 8 (push_bit 8 (ucast x - 0x80) :: s16)) + 128 = (x :: u8)"
proof -
  have "ucast (signed_drop_bit 8 (push_bit 8 y :: s16)) = (ucast y :: u8)" for y :: s16
    by (rule bit_word_eqI) (auto simp: bit_simps)
  moreover have "(ucast (ucast x - 0x80 :: s16) :: u8) = x - 0x80"
    using uint_bounded [of x] by (simp add: word_uint_eq_iff unsigned_ucast_eq uint_word_ariths take_bit_eq_mod mod_mod_cancel)
  ultimately show ?thesis by simp
qed

section \<open>Channels: loops and frames\<close>

definition out_frame :: "nat \<Rightarrow> s16 list \<Rightarrow> nat \<Rightarrow> s16 list" where
  "out_frame c out i = take c (drop (c * i) out)"

definition put_samples :: "(nat \<times> s16) list \<Rightarrow> s16 list \<Rightarrow> s16 list" where
  "put_samples ws fr = fold (\<lambda>(k, v) fr. fr[k := v]) ws fr"

lemma length_put_samples [simp]: "length (put_samples ws fr) = length fr"
  unfolding put_samples_def by (induction ws arbitrary: fr) auto

lemma store_in_frame:
  assumes "length pre = c * i" and "length fr = c" and "\<forall>(k, v) \<in> set ws. k < c"
  shows "fold store (map (\<lambda>(k, v). (int c * int i + int k, v)) ws) (Some (pre @ fr @ post)) =
    Some (pre @ put_samples ws fr @ post)"
  using assms(2,3)
proof (induction ws arbitrary: fr)
  case (Cons w ws)
  obtain k v where w: "w = (k, v)" by (rule prod.exhaust)
  have k: "k < c" using Cons.prems(2) by (simp add: w)
  have n: "int c * int i + int k = int (length pre + k)" by (simp add: assms(1))
  have "store (int c * int i + int k, v) (Some (pre @ fr @ post)) = Some (pre @ fr[k := v] @ post)"
    unfolding n store.simps nat_int using k Cons.prems(1) by (simp add: list_update_append)
  then show ?case using Cons.IH [of "fr[k := v]"] Cons.prems by (simp add: w put_samples_def)
qed (simp add: put_samples_def)

lemma store_frames_map:
  assumes "c * n \<le> length out" and "\<forall>i < n. \<forall>(k, v) \<in> set (ws i). k < c"
  shows "store_frames n (\<lambda>i. map (\<lambda>(k, v). (int c * int i + int k, v)) (ws i)) (Some out) =
    Some (concat (map (\<lambda>i. put_samples (ws i) (out_frame c out i)) [0..<n]) @ drop (c * n) out)"
  using assms
proof (induction n)
  case 0
  then show ?case by (simp add: store_frames_def)
next
  case (Suc n)
  define done_part where "done_part = concat (map (\<lambda>i. put_samples (ws i) (out_frame c out i)) [0..<n])"
  have l: "length (out_frame c out i) = c" if "i < Suc n" for i
  proof -
    have "c * Suc i \<le> c * Suc n" using that by (intro mult_le_mono2) simp
    then have "c + c * i \<le> length out" using Suc.prems(1) by (metis le_trans mult_Suc_right)
    then show ?thesis by (simp add: out_frame_def)
  qed
  have d: "length done_part = c * n"
  proof -
    have "map (\<lambda>i. length (put_samples (ws i) (out_frame c out i))) [0..<n] = map (\<lambda>i. c) [0..<n]"
      using l by (intro map_cong) simp_all
    then have "sum_list (map (\<lambda>i. length (put_samples (ws i) (out_frame c out i))) [0..<n]) = sum_list (map (\<lambda>i. c) [0..<n])"
      by (rule arg_cong)
    then show ?thesis by (simp add: done_part_def length_concat comp_def sum_list_triv)
  qed
  have split: "drop (c * n) out = out_frame c out n @ drop (c * Suc n) out"
    using append_take_drop_id [of c "drop (c * n) out"] by (simp add: out_frame_def add.commute)
  have "store_frames n (\<lambda>i. map (\<lambda>(k, v). (int c * int i + int k, v)) (ws i)) (Some out) = Some (done_part @ drop (c * n) out)"
    unfolding done_part_def using Suc.prems by (intro Suc.IH) (simp_all add: less_Suc_eq)
  then have "store_frames (Suc n) (\<lambda>i. map (\<lambda>(k, v). (int c * int i + int k, v)) (ws i)) (Some out) =
      fold store (map (\<lambda>(k, v). (int c * int n + int k, v)) (ws n)) (Some (done_part @ out_frame c out n @ drop (c * Suc n) out))"
    by (simp add: store_frames_def split)
  also have "\<dots> = Some (done_part @ put_samples (ws n) (out_frame c out n) @ drop (c * Suc n) out)"
    using Suc.prems(2) by (intro store_in_frame d l) auto
  finally show ?case by (simp add: done_part_def)
qed

text \<open>The stores of one converter, in the shape of the lemma above.\<close>

lemma store_frames_pos:
  assumes "c * n \<le> length out" and "\<And>i. i < n \<Longrightarrow> f i = map (\<lambda>(k, v). (int c * int i + int k, v)) (ws i)"
    and "\<And>i. i < n \<Longrightarrow> \<forall>(k, v) \<in> set (ws i). k < c"
  shows "store_frames n f (Some out) =
    Some (concat (map (\<lambda>i. put_samples (ws i) (out_frame c out i)) [0..<n]) @ drop (c * n) out)"
proof -
  have "store_frames n f (Some out) = store_frames n (\<lambda>i. map (\<lambda>(k, v). (int c * int i + int k, v)) (ws i)) (Some out)"
    unfolding store_frames_def using assms(2)
    by (intro arg_cong [where f = "\<lambda>l. fold store (concat l) (Some out)"] map_cong) auto
  then show ?thesis using store_frames_map [OF assms(1)] assms(3) by simp
qed

lemma out_frame_zero:
  "c * n \<le> length out \<Longrightarrow> i < n \<Longrightarrow> out_frame c (replicate (c * n) 0 @ drop (c * n) out) i = replicate c 0"
proof -
  assume "c * n \<le> length out" "i < n"
  then have "c * Suc i \<le> c * n" by (intro mult_le_mono2) simp
  then show ?thesis by (simp add: out_frame_def min_def)
qed

lemma store_zeroed_frames:
  assumes "c * n \<le> length out" and "\<And>i. i < n \<Longrightarrow> f i = map (\<lambda>(k, v). (int c * int i + int k, v)) (ws i)"
    and "\<And>i. i < n \<Longrightarrow> \<forall>(k, v) \<in> set (ws i). k < c"
  shows "store_frames n f (mem_zero (c * n) out) =
    Some (concat (map (\<lambda>i. put_samples (ws i) (replicate c 0)) [0..<n]) @ drop (c * n) out)"
proof -
  have "map (\<lambda>i. put_samples (ws i) (out_frame c (replicate (c * n) 0 @ drop (c * n) out) i)) [0..<n] =
      map (\<lambda>i. put_samples (ws i) (replicate c 0)) [0..<n]"
    using assms(1) by (intro map_cong) (auto simp: out_frame_zero)
  note z = this
  have "store_frames n f (Some (replicate (c * n) 0 @ drop (c * n) out)) =
      Some (concat (map (\<lambda>i. put_samples (ws i) (replicate c 0)) [0..<n]) @
        drop (c * n) (replicate (c * n) 0 @ drop (c * n) out))"
    unfolding z [symmetric] by (rule store_frames_pos) (use assms in auto)
  then show ?thesis using assms(1) by (simp add: mem_zero_def)
qed

definition surround_frame :: "int \<Rightarrow> int \<Rightarrow> int \<Rightarrow> s16 \<Rightarrow> s16 \<Rightarrow> s16 list" where
  "surround_frame left right center l r =
     (if left \<noteq> - 1 \<and> right \<noteq> - 1 then (replicate 6 0)[nat left := l, nat right := r]
      else if center \<noteq> - 1 then (replicate 6 0)[nat center := s16_add_and_clip l r]
      else [l, r, 0, 0, 0, 0])"

lemma stereo_to_51_frames:
  assumes "6 * n \<le> length out" and "left \<in> {-1..<6}" and "right \<in> {-1..<6}" and "center \<in> {-1..<6}"
  shows "s16_stereo_to_51 left right center inp n out =
    Some (concat (map (\<lambda>i. surround_frame left right center (inp ! (2 * i)) (inp ! (2 * i + 1))) [0..<n]) @ drop (6 * n) out)"
proof -
  define ws where "ws = (\<lambda>i. if left \<noteq> - 1 \<and> right \<noteq> - 1 then [(nat left, inp ! (2 * i)), (nat right, inp ! (2 * i + 1))]
      else if center \<noteq> - 1 then [(nat center, s16_add_and_clip (inp ! (2 * i)) (inp ! (2 * i + 1)))]
      else [(0, inp ! (2 * i)), (1, inp ! (2 * i + 1))])"
  have "s16_stereo_to_51 left right center inp n out =
      Some (concat (map (\<lambda>i. put_samples (ws i) (replicate 6 0)) [0..<n]) @ drop (6 * n) out)"
    unfolding s16_stereo_to_51_def using assms by (intro store_zeroed_frames) (auto simp: ws_def)
  moreover have "put_samples (ws i) (replicate 6 0) = surround_frame left right center (inp ! (2 * i)) (inp ! (2 * i + 1))" for i
    by (simp add: ws_def put_samples_def surround_frame_def numeral_eq_Suc)
  ultimately show ?thesis by simp
qed

definition mono_surround_frame :: "int \<Rightarrow> int \<Rightarrow> int \<Rightarrow> s16 \<Rightarrow> s16 list" where
  "mono_surround_frame left right center x =
     (if center \<noteq> - 1 then (replicate 6 0)[nat center := x]
      else if left \<noteq> - 1 \<and> right \<noteq> - 1 then (replicate 6 0)[nat right := half x, nat left := half x]
      else [x, 0, 0, 0, 0, 0])"

lemma mono_to_51_frames:
  assumes "6 * n \<le> length out" and "left \<in> {-1..<6}" and "right \<in> {-1..<6}" and "center \<in> {-1..<6}"
  shows "s16_mono_to_51 left right center inp n out =
    Some (concat (map (\<lambda>i. mono_surround_frame left right center (inp ! i)) [0..<n]) @ drop (6 * n) out)"
proof -
  define ws where "ws = (\<lambda>i. if center \<noteq> - 1 then [(nat center, inp ! i)]
      else if left \<noteq> - 1 \<and> right \<noteq> - 1 then [(nat right, half (inp ! i)), (nat left, half (inp ! i))]
      else [(0, inp ! i)])"
  have "s16_mono_to_51 left right center inp n out =
      Some (concat (map (\<lambda>i. put_samples (ws i) (replicate 6 0)) [0..<n]) @ drop (6 * n) out)"
    unfolding s16_mono_to_51_def using assms by (intro store_zeroed_frames) (auto simp: ws_def)
  moreover have "put_samples (ws i) (replicate 6 0) = mono_surround_frame left right center (inp ! i)" for i
    by (simp add: ws_def put_samples_def mono_surround_frame_def numeral_eq_Suc)
  ultimately show ?thesis by simp
qed

section \<open>Properties\<close>

text \<open>Claim C30.  Converting 16-bit samples to any wider format and back gives the same samples, and so does
  converting 8-bit samples to 16 bits and back.\<close>

theorem sample_formats_round_trip:
  "convert_s24le_to_s16le (convert_s16le_to_s24le xs) = xs \<and>
   convert_s32le_to_s16le (convert_s16le_to_s32le xs) = xs \<and>
   convert_s243le_to_s16le (convert_s16le_to_s243le xs) = xs \<and>
   convert_s16le_to_u8 (convert_u8_to_s16le ys) = ys"
proof (intro conjI)
  show "convert_s243le_to_s16le (convert_s16le_to_s243le xs) = xs"
    by (induction xs) (simp_all add: convert_s16le_to_s243le_def s16_s243_s16)
qed (simp_all add: convert_s24le_to_s16le_def convert_s16le_to_s24le_def s16_s24_s16 comp_def
    convert_s32le_to_s16le_def convert_s16le_to_s32le_def s16_s32_s16
    convert_s16le_to_u8_def convert_u8_to_s16le_def u8_s16_u8)

text \<open>Claim C29.  For a layout within the six channels the converters to 5.1 surround stay inside the output
  and write whole frames: a stereo frame goes to front left and right, else is mixed with saturation into
  the front centre, else to the first two channels; a mono sample goes to the centre, else halved to left
  and right, else to the first channel; the other channels are silent.\<close>

theorem surround_converters_frames:
  assumes "6 * n \<le> length out" and "left \<in> {-1..<6}" and "right \<in> {-1..<6}" and "center \<in> {-1..<6}"
  shows "s16_stereo_to_51 left right center inp n out =
      Some (concat (map (\<lambda>i. surround_frame left right center (inp ! (2 * i)) (inp ! (2 * i + 1))) [0..<n]) @ drop (6 * n) out) \<and>
    s16_mono_to_51 left right center inp n out =
      Some (concat (map (\<lambda>i. mono_surround_frame left right center (inp ! i)) [0..<n]) @ drop (6 * n) out) \<and>
    sint (s16_add_and_clip l r) = min (max (sint l + sint r) (- 32768)) 32767"
  using stereo_to_51_frames [OF assms] mono_to_51_frames [OF assms] sint_add_and_clip by simp

theorem surround_converters_frames_witness:
  "s16_stereo_to_51 (- 1) 1 4 [32767, 1, 3, 4] 2 (replicate 12 9) =
     Some [0, 0, 0, 0, 32767, 0, 0, 0, 0, 0, 7, 0] \<and>
   s16_mono_to_51 0 1 (- 1) [8] 1 (replicate 7 9) = Some [4, 4, 0, 0, 0, 0, 9] \<and>
   sint (s16_add_and_clip (32767 :: s16) 1) = 32767"
  using surround_converters_frames [of 2 "replicate 12 9" "- 1" 1 4 "[32767, 1, 3, 4]" 32767 1]
    surround_converters_frames [of 1 "replicate 7 9" 0 1 "- 1" "[8]" 0 0]
  by (simp add: surround_frame_def mono_surround_frame_def half_def s16_add_and_clip_def numeral_eq_Suc upt_rec)

text \<open>The default converter divides a signed sample by an unsigned channel count, so a negative sample
  in one of three channels comes out as a large positive one: minus three gives 21844 instead of minus
  one.\<close>

theorem default_all_to_all_negative:
  "s16_default_all_to_all 2 3 1 [- 3, 0, 0] 1 [0] = Some [21844] \<and> sint (- 3 :: s16) sdiv 3 = - 1"
  by code_simp

end
