(* ===== verification/Linear_Resampler.thy ===== *)
theory Linear_Resampler
  imports CRAS_Prelude "HOL-Library.Signed_Division"
begin

text \<open>
  \<^verbatim>\<open>server/linear_resampler.c\<close>: the resampler that follows the drift between the clocks of two devices by
  linear interpolation.  The values of \<^verbatim>\<open>float\<close> variables are rational numbers; every operation that gives a
  \<^verbatim>\<open>float\<close>, also the conversion of an integer, is followed by the rounding \<open>rnd\<close> of the machine, a parameter.
  What the proofs use of it is \<open>exact_rounding\<close>: the integers below two to the 24 are exact and rounding
  keeps the order, as IEEE 754 demands.
\<close>

type_synonym rounding = "rat \<Rightarrow> rat"

definition exact_rounding :: "rounding \<Rightarrow> bool" where
  "exact_rounding rnd \<longleftrightarrow> (\<forall>n. 0 \<le> n \<and> n \<le> 16777216 \<longrightarrow> rnd (of_int n) = of_int n) \<and> (\<forall>x y. x \<le> y \<longrightarrow> rnd x \<le> rnd y)"

record linear_resampler =
  lr_num_channels :: u32
  lr_format_bytes :: u32
  src_offset :: u32
  dst_offset :: u32
  to_times_100 :: u32
  from_times_100 :: u32
  lr_f :: rat

definition fl :: "rounding \<Rightarrow> u32 \<Rightarrow> rat" where
  \<comment> \<open>\<^verbatim>\<open>(float)x\<close>\<close>
  "fl rnd x = rnd (of_int (uint x))"

definition to_unsigned :: "rat \<Rightarrow> u32" where
  \<comment> \<open>\<^verbatim>\<open>(unsigned int)x\<close> of a \<^verbatim>\<open>float\<close> that is not negative\<close>
  "to_unsigned x = of_int \<lfloor>x\<rfloor>"

definition linear_resampler_set_rates :: "rounding \<Rightarrow> rat \<Rightarrow> rat \<Rightarrow> linear_resampler \<Rightarrow> linear_resampler" where
  "linear_resampler_set_rates rnd from to lr =
     lr\<lparr>lr_f := rnd (to / from), to_times_100 := to_unsigned (rnd (to * 100)),
        from_times_100 := to_unsigned (rnd (from * 100)), src_offset := 0, dst_offset := 0\<rparr>"

definition linear_resampler_create :: "rounding \<Rightarrow> bool \<Rightarrow> u32 \<Rightarrow> u32 \<Rightarrow> rat \<Rightarrow> rat \<Rightarrow> linear_resampler option" where
  \<comment> \<open>the second argument: \<^verbatim>\<open>calloc\<close> returned memory\<close>
  "linear_resampler_create rnd alloc num_channels format_bytes src_rate dst_rate =
     (if \<not> alloc then None
      else Some (linear_resampler_set_rates rnd src_rate dst_rate
        \<lparr>lr_num_channels = num_channels, lr_format_bytes = format_bytes, src_offset = 0, dst_offset = 0,
         to_times_100 = 0, from_times_100 = 0, lr_f = 0\<rparr>))"

definition linear_resampler_out_frames_to_in :: "rounding \<Rightarrow> linear_resampler \<Rightarrow> u32 \<Rightarrow> u32" where
  "linear_resampler_out_frames_to_in rnd lr frames =
     (if frames = 0 then 0
      else let in_frames = rnd (fl rnd (dst_offset lr + frames) / lr_f lr)
        in if in_frames > fl rnd (src_offset lr)
           then 1 + to_unsigned (rnd (in_frames - fl rnd (src_offset lr))) else 1)"

definition linear_resampler_in_frames_to_out :: "rounding \<Rightarrow> linear_resampler \<Rightarrow> u32 \<Rightarrow> u32" where
  "linear_resampler_in_frames_to_out rnd lr frames =
     (if frames = 0 then 0
      else let out_frames = rnd (lr_f lr * fl rnd (src_offset lr + frames - 1))
        in if out_frames > fl rnd (dst_offset lr)
           then 1 + to_unsigned (rnd (out_frames - fl rnd (dst_offset lr))) else 1)"

definition linear_resampler_needed :: "linear_resampler \<Rightarrow> bool" where
  "linear_resampler_needed lr \<longleftrightarrow> from_times_100 lr \<noteq> to_times_100 lr"

text \<open>The position in the source that belongs to frame \<open>k\<close> of the destination.\<close>

definition src_pos :: "rounding \<Rightarrow> linear_resampler \<Rightarrow> u32 \<Rightarrow> rat" where
  "src_pos rnd lr k =
     (let p = rnd (fl rnd (dst_offset lr + k) / lr_f lr)
      in if p > fl rnd (src_offset lr) then rnd (p - fl rnd (src_offset lr)) else 0)"

text \<open>One frame of output from the two neighbours in the source; the last frame is copied.\<close>

definition lerp_frame :: "rounding \<Rightarrow> rat \<Rightarrow> int list \<Rightarrow> int list \<Rightarrow> int list" where
  "lerp_frame rnd t fr0 fr1 = map2 (\<lambda>a b. let v = rnd (rnd (of_int a) + rnd (t * rnd (of_int (b - a))))
     in if v \<ge> 0 then \<lfloor>v\<rfloor> else - \<lfloor>- v\<rfloor>) fr0 fr1"

definition resample_frame :: "rounding \<Rightarrow> linear_resampler \<Rightarrow> int list list \<Rightarrow> u32 \<Rightarrow> u32 \<Rightarrow> int list option" where
  \<comment> \<open>\<open>None\<close>: the source is read out of bounds\<close>
  "resample_frame rnd lr src src_frames k =
     (let i = unat (to_unsigned (src_pos rnd lr k)) in
      if i = unat src_frames - 1 then (if i < length src then Some (src ! i) else None)
      else if i + 1 < length src
      then Some (lerp_frame rnd (rnd (src_pos rnd lr k - fl rnd (of_nat i))) (src ! i) (src ! (i + 1)))
      else None)"

text \<open>The loop over the destination: it stops at the first frame past the source or the destination, with
  the index into the source and the number of frames written.\<close>

function resample_loop :: "rounding \<Rightarrow> linear_resampler \<Rightarrow> int list list \<Rightarrow> u32 \<Rightarrow> nat \<Rightarrow> nat \<Rightarrow>
    (nat \<times> nat \<times> int list list) option" where
  "resample_loop rnd lr src src_frames dst_frames k =
     (let pos = src_pos rnd lr (of_nat k) in
      if pos > fl rnd (src_frames - 1) \<or> k \<ge> dst_frames
      then Some (if pos > fl rnd (src_frames - 1) then unat src_frames - 1 else unat (to_unsigned pos), k, [])
      else case resample_frame rnd lr src src_frames (of_nat k) of None \<Rightarrow> None
        | Some fr \<Rightarrow> map_option (\<lambda>(i, d, frs). (i, d, fr # frs)) (resample_loop rnd lr src src_frames dst_frames (Suc k)))"
  by auto
termination
  by (relation "measure (\<lambda>(rnd, lr, src, src_frames, dst_frames, k). dst_frames - k)") auto

declare resample_loop.simps [simp del]

text \<open>The offsets are kept small by taking off whole periods.  With both rates zero this does not end.\<close>

partial_function (option) wrap_offsets :: "u32 \<Rightarrow> u32 \<Rightarrow> u32 \<times> u32 \<Rightarrow> (u32 \<times> u32) option" where
  "wrap_offsets from to s =
     (if fst s > from \<and> snd s > to then wrap_offsets from to (fst s - from, snd s - to) else Some s)"

declare wrap_offsets.simps [code]

definition linear_resampler_resample :: "rounding \<Rightarrow> linear_resampler \<Rightarrow> int list list \<Rightarrow> u32 \<Rightarrow> u32 \<Rightarrow>
    (u32 \<times> u32 \<times> int list list \<times> linear_resampler) option" where
  \<comment> \<open>the frames used of the source, the frames written and the frames themselves\<close>
  "linear_resampler_resample rnd lr src src_frames dst_frames =
     (if dst_frames = 0 \<or> src_frames = 0 then Some (0, 0, [], lr)
      else case resample_loop rnd lr src src_frames (unat dst_frames) 0 of None \<Rightarrow> None
      | Some (i, d, frs) \<Rightarrow>
          let used = of_nat i + 1
          in map_option (\<lambda>(so, do'). (used, of_nat d, frs, lr\<lparr>src_offset := so, dst_offset := do'\<rparr>))
               (wrap_offsets (from_times_100 lr) (to_times_100 lr) (src_offset lr + used, dst_offset lr + of_nat d)))"

section \<open>Bounds\<close>

lemma fl_exact:
  assumes "exact_rounding rnd" and "unat x \<le> 16777216"
  shows "fl rnd x = of_nat (unat x)"
proof -
  have u: "uint x = int (unat x)" by simp
  have "0 \<le> int (unat x) \<and> int (unat x) \<le> 16777216" using assms(2) by linarith
  then have "rnd (of_int (int (unat x))) = of_int (int (unat x))"
    using assms(1) unfolding exact_rounding_def by blast
  then show ?thesis by (simp only: fl_def u of_int_of_nat_eq)
qed

lemma src_pos_nonneg:
  assumes "exact_rounding rnd"
  shows "0 \<le> src_pos rnd lr k"
proof -
  have "rnd 0 = 0" using assms by (auto simp: exact_rounding_def dest: spec [of _ 0])
  then have "x > 0 \<Longrightarrow> 0 \<le> rnd x" for x using assms by (metis exact_rounding_def less_imp_le)
  then show ?thesis by (simp add: src_pos_def Let_def)
qed

lemma to_unsigned_le:
  assumes "0 \<le> x" and "x \<le> of_nat n" and "n < 4294967296"
  shows "unat (to_unsigned x) \<le> n"
proof -
  define m where "m = nat \<lfloor>x\<rfloor>"
  have m: "\<lfloor>x\<rfloor> = int m" using assms(1) by (simp add: m_def)
  have "\<lfloor>x\<rfloor> \<le> int n" using assms(2) by linarith
  then have "m \<le> n" using m by simp
  then show ?thesis using assms(3) by (simp add: to_unsigned_def m unat_of_nat)
qed

lemma resample_index:
  assumes "exact_rounding rnd" and "0 < src_frames" and "unat src_frames \<le> 16777216"
    and "\<not> src_pos rnd lr k > fl rnd (src_frames - 1)"
  shows "unat (to_unsigned (src_pos rnd lr k)) < unat src_frames"
proof -
  have u: "unat (src_frames - 1) = unat src_frames - 1" and p: "0 < unat src_frames"
    using assms(2) by (simp_all add: unat_gt_0 unat_minus_one)
  have "src_pos rnd lr k \<le> of_nat (unat src_frames - 1)"
    using assms(3,4) fl_exact [OF assms(1), of "src_frames - 1"] u by simp
  then have "unat (to_unsigned (src_pos rnd lr k)) \<le> unat src_frames - 1"
    using src_pos_nonneg [OF assms(1)] assms(3) by (intro to_unsigned_le) simp_all
  then show ?thesis using p by simp
qed

lemma resample_frame_bounds:
  assumes "exact_rounding rnd" and "0 < src_frames" and "unat src_frames \<le> 16777216" and "unat src_frames \<le> length src"
    and "\<not> src_pos rnd lr k > fl rnd (src_frames - 1)"
  shows "\<exists>fr. resample_frame rnd lr src src_frames k = Some fr"
  using resample_index [OF assms(1-3,5)] assms(4) by (auto simp: resample_frame_def Let_def)

lemma resample_loop_bounds:
  assumes r: "exact_rounding rnd" and sf: "0 < src_frames" "unat src_frames \<le> 16777216" "unat src_frames \<le> length src"
  shows "k \<le> dst_frames \<Longrightarrow> \<exists>i d frs. resample_loop rnd lr src src_frames dst_frames k = Some (i, d, frs) \<and>
    i < unat src_frames \<and> k \<le> d \<and> d \<le> dst_frames \<and> length frs = d - k"
proof (induction "dst_frames - k" arbitrary: k)
  case 0
  then show ?case
    using resample_index [OF r sf(1,2)] sf(1)
    by (subst resample_loop.simps) (auto simp: Let_def unat_gt_0 not_less)
next
  case (Suc n)
  show ?case
  proof (cases "src_pos rnd lr (of_nat k) > fl rnd (src_frames - 1)")
    case True
    then show ?thesis using Suc.prems sf(1) by (subst resample_loop.simps) (auto simp: Let_def unat_gt_0)
  next
    case False
    obtain fr where fr: "resample_frame rnd lr src src_frames (of_nat k) = Some fr"
      using resample_frame_bounds [OF r sf False] by blast
    have k: "Suc k \<le> dst_frames" and n: "n = dst_frames - Suc k" using Suc.hyps(2) by simp_all
    obtain i d frs where "resample_loop rnd lr src src_frames dst_frames (Suc k) = Some (i, d, frs)"
      "i < unat src_frames" "Suc k \<le> d" "d \<le> dst_frames" "length frs = d - Suc k"
      using Suc.hyps(1) [OF n k] by blast
    then show ?thesis using False fr k by (subst resample_loop.simps) (simp add: Let_def)
  qed
qed

lemma wrap_offsets_returns:
  assumes "0 < from \<or> 0 < to"
  shows "\<exists>so do'. wrap_offsets from to (a, b) = Some (so, do') \<and> (unat so \<le> unat from \<or> unat do' \<le> unat to)"
proof (induction "unat a + unat b" arbitrary: a b rule: less_induct)
  case less
  show ?case
  proof (cases "a > from \<and> b > to")
    case True
    have d: "unat (a - from) = unat a - unat from" "unat (b - to) = unat b - unat to"
      using True by (simp_all add: unat_sub order.strict_implies_order)
    have "unat (a - from) + unat (b - to) < unat a + unat b"
      using assms True by (auto simp: d word_less_nat_alt)
    then show ?thesis using less.hyps [of "a - from" "b - to"] True by (subst wrap_offsets.simps) simp
  next
    case False
    then show ?thesis by (subst wrap_offsets.simps) (auto simp: word_less_nat_alt)
  qed
qed

lemma resample_bounds:
  assumes "exact_rounding rnd" and "0 < src_frames" and "0 < dst_frames"
    and "unat src_frames \<le> 16777216" and "unat src_frames \<le> length src"
    and "0 < from_times_100 lr \<or> 0 < to_times_100 lr"
  shows "\<exists>n m frs lr'. linear_resampler_resample rnd lr src src_frames dst_frames = Some (n, m, frs, lr') \<and>
    0 < n \<and> n \<le> src_frames \<and> m \<le> dst_frames \<and> length frs = unat m \<and>
    (src_offset lr' \<le> from_times_100 lr' \<or> dst_offset lr' \<le> to_times_100 lr')"
proof -
  obtain i d frs where l: "resample_loop rnd lr src src_frames (unat dst_frames) 0 = Some (i, d, frs)"
    "i < unat src_frames" "d \<le> unat dst_frames" "length frs = d"
    using resample_loop_bounds [OF assms(1,2,4,5), of 0 "unat dst_frames" lr] by auto
  have n: "unat (of_nat i + 1 :: u32) = Suc i"
    using l(2) assms(4) by (simp add: unat_word_ariths unat_of_nat)
  have n0: "(of_nat i + 1 :: u32) \<noteq> 0" using n by (metis nat.distinct(1) unat_0)
  have m: "unat (of_nat d :: u32) = d" using le_less_trans [OF l(3) unat_u32_less] by (intro unat_of_nat_u32) simp
  obtain so do' where "wrap_offsets (from_times_100 lr) (to_times_100 lr)
      (src_offset lr + (of_nat i + 1), dst_offset lr + of_nat d) = Some (so, do')"
    "unat so \<le> unat (from_times_100 lr) \<or> unat do' \<le> unat (to_times_100 lr)"
    using wrap_offsets_returns [OF assms(6)] by blast
  then show ?thesis
    using l n n0 m assms(2,3) by (simp add: linear_resampler_resample_def Let_def word_le_nat_alt unat_gt_0 word_less_nat_alt)
qed

text \<open>The degenerate calls included, for the callers.\<close>

lemma resample_counts_le:
  assumes "exact_rounding rnd" and "unat src_frames \<le> 16777216" and "unat src_frames \<le> length src"
    and "0 < from_times_100 lr \<or> 0 < to_times_100 lr"
  shows "\<exists>n m frs lr'. linear_resampler_resample rnd lr src src_frames dst_frames = Some (n, m, frs, lr') \<and>
    n \<le> src_frames \<and> m \<le> dst_frames"
proof (cases "dst_frames = 0 \<or> src_frames = 0")
  case True
  then show ?thesis by (auto simp: linear_resampler_resample_def)
next
  case False
  then show ?thesis using resample_bounds [of rnd src_frames dst_frames src lr] assms by (auto simp: word_neq_0_conv)
qed

section \<open>Properties\<close>


definition drift_resampler :: linear_resampler where
  "drift_resampler = \<lparr>lr_num_channels = 1, lr_format_bytes = 2, src_offset = 0, dst_offset = 0,
     to_times_100 = 100, from_times_100 = 200, lr_f = 1 / 2\<rparr>"


end
