(* ===== verification/Fmt_Conv.thy ===== *)
theory Fmt_Conv
  imports Fmt_Conv_Ops Linear_Resampler Timespec Cras_Types "HOL-Library.Monad_Syntax"
begin

text \<open>
  \<^verbatim>\<open>server/cras_fmt_conv.c\<close>: the converter between the formats of a stream and of a device, a chain of up to
  five stages.  Modelled are the choice of the stages, the frame counts that go through the chain and the
  buffers each stage reads and writes; the work on the samples is in \<open>Fmt_Conv_Ops\<close> and
  \<open>Linear_Resampler\<close>.  The Speex resampler is a library: \<open>speex in_len out_len\<close> gives the two counts that
  \<^verbatim>\<open>speex_resampler_process_interleaved_int\<close> stores.  The matrix of the down-mix to stereo, a table of
  \<^verbatim>\<open>float\<close> constants, is not modelled.
\<close>

section \<open>The converter\<close>

datatype channel_converter = Mono_to_stereo | Stereo_to_mono | Mono_to_51 | Stereo_to_51 | Surround_to_stereo |
  Stereo_to_quad | Quad_to_stereo | Default_all_to_all | Convert_channels

record cras_fmt_conv =
  speex_state :: bool
  channel_converter :: "channel_converter option"
  in_format_converter :: "snd_pcm_format option"
  out_format_converter :: "snd_pcm_format option"
  resampler :: linear_resampler
  in_fmt :: cras_audio_format
  out_fmt :: cras_audio_format
  tmp_bufs :: nat
  tmp_buf_frames :: u64
  pre_linear_resample :: bool
  num_converters :: nat

abbreviation MAX_NUM_CONVERTERS :: nat where "MAX_NUM_CONVERTERS \<equiv> 5"

definition is_channel_layout_equal :: "cras_audio_format \<Rightarrow> cras_audio_format \<Rightarrow> bool" where
  "is_channel_layout_equal a b \<longleftrightarrow> (\<forall>ch \<in> set [0..<CRAS_CH_MAX]. channel_layout a ! ch = channel_layout b ! ch)"

definition is_supported_format :: "cras_audio_format option \<Rightarrow> bool" where
  "is_supported_format fmt =
     (case fmt of None \<Rightarrow> False | Some f \<Rightarrow> pcm_format f \<in> {U8, S16_LE, S24_3LE, S24_LE, S32_LE})"

text \<open>What the allocations and libraries answer.\<close>

record fmt_conv_env =
  conv_alloc :: bool
  matrix_alloc :: bool
  speex_init :: bool
  resampler_alloc :: bool
  tmp_alloc :: bool

text \<open>The channel converter: \<open>None\<close> when the matrix cannot be made.\<close>

definition choose_channel_converter :: "fmt_conv_env \<Rightarrow> cras_audio_format \<Rightarrow> cras_audio_format \<Rightarrow>
    channel_converter option option" where
  "choose_channel_converter env fin fout =
     (let ni = num_channels fin; no = num_channels fout in
      if ni \<noteq> no then
        if ni = 1 \<and> no = 2 then Some (Some Mono_to_stereo)
        else if ni = 1 \<and> no = 6 then Some (Some Mono_to_51)
        else if ni = 2 \<and> no = 1 then Some (Some Stereo_to_mono)
        else if ni = 2 \<and> no = 4 then Some (Some Stereo_to_quad)
        else if ni = 4 \<and> no = 2 then Some (Some Quad_to_stereo)
        else if ni = 2 \<and> no = 6 then Some (Some Stereo_to_51)
        else if ni = 6 \<and> no = 2 then
          (if \<exists>i \<in> set [0..<CRAS_CH_MAX]. channel_layout fin ! i \<noteq> - 1
           then (if matrix_alloc env then Some (Some Convert_channels) else None)
           else Some (Some Surround_to_stereo))
        else Some (Some Default_all_to_all)
      else if ni > 2 \<and> \<not> is_channel_layout_equal fin fout then
        (if \<not> matrix_alloc env then None
         else case cras_channel_conv_matrix_create fin fout of Matrix m \<Rightarrow> Some (Some Convert_channels)
         | _ \<Rightarrow> None)
      else Some None)"

definition needs_converter :: "cras_audio_format \<Rightarrow> snd_pcm_format option" where
  "needs_converter fmt = (if pcm_format fmt \<noteq> S16_LE then Some (pcm_format fmt) else None)"

definition cras_fmt_conv_create :: "rounding \<Rightarrow> (snd_pcm_format \<Rightarrow> nat) \<Rightarrow> fmt_conv_env \<Rightarrow> cras_audio_format \<Rightarrow>
    cras_audio_format \<Rightarrow> u64 \<Rightarrow> bool \<Rightarrow> cras_fmt_conv option" where
  "cras_fmt_conv_create rnd phys_width env fin fout max_frames pre =
     (if \<not> conv_alloc env then None
      else if \<not> is_supported_format (Some fin) then None
      else if \<not> is_supported_format (Some fout) then None
      else case choose_channel_converter env fin fout of None \<Rightarrow> None
      | Some cc \<Rightarrow>
          let src = frame_rate fin \<noteq> frame_rate fout;
              n = of_bool (pcm_format fin \<noteq> S16_LE) + of_bool (pcm_format fout \<noteq> S16_LE) +
                of_bool (cc \<noteq> None) + of_bool src
          in if src \<and> \<not> speex_init env then None
             else let rate = rnd (of_int (uint (frame_rate fout)))
               in case linear_resampler_create rnd (resampler_alloc env) (ucast (num_channels fout))
                    (of_nat (phys_width (pcm_format fout) div 8 * unat (num_channels fout))) rate rate of
                  None \<Rightarrow> None
                | Some lr \<Rightarrow>
                    if \<not> tmp_alloc env then None
                    else Some \<lparr>speex_state = src, channel_converter = cc, in_format_converter = needs_converter fin,
                      out_format_converter = needs_converter fout, resampler = lr, in_fmt = fin, out_fmt = fout,
                      tmp_bufs = n, tmp_buf_frames = max_frames, pre_linear_resample = pre, num_converters = n + 1\<rparr>)"

definition config_format_converter :: "rounding \<Rightarrow> (snd_pcm_format \<Rightarrow> nat) \<Rightarrow> fmt_conv_env \<Rightarrow> u32 \<Rightarrow>
    cras_audio_format \<Rightarrow> cras_audio_format \<Rightarrow> u32 \<Rightarrow> int \<times> cras_fmt_conv option" where
  "config_format_converter rnd phys_width env dir from to frames =
     (let target = (if dir = CRAS_STREAM_INPUT
            then from\<lparr>pcm_format := pcm_format to, frame_rate := frame_rate to\<rparr> else to);
          conv = cras_fmt_conv_create rnd phys_width env from target (ucast frames) (dir = CRAS_STREAM_INPUT)
      in (case conv of None \<Rightarrow> - ENOMEM | Some c \<Rightarrow> 0, conv))"

definition cras_fmt_conversion_needed :: "cras_fmt_conv \<Rightarrow> bool" where
  "cras_fmt_conversion_needed conv \<longleftrightarrow> linear_resampler_needed (resampler conv) \<or> num_converters conv > 1"

definition cras_fmt_conv_set_linear_resample_rates :: "rounding \<Rightarrow> rat \<Rightarrow> rat \<Rightarrow> cras_fmt_conv \<Rightarrow> cras_fmt_conv" where
  "cras_fmt_conv_set_linear_resample_rates rnd from to conv =
     conv\<lparr>resampler := linear_resampler_set_rates rnd from to (resampler conv)\<rparr>"

text \<open>The counts are 64 bits wide in this file and 32 in the resampler.\<close>

definition cras_fmt_conv_in_frames_to_out :: "rounding \<Rightarrow> cras_fmt_conv option \<Rightarrow> u64 \<Rightarrow> u64" where
  "cras_fmt_conv_in_frames_to_out rnd conv in_frames =
     (case conv of None \<Rightarrow> in_frames
      | Some c \<Rightarrow>
          let lin = (\<lambda>n. ucast (linear_resampler_in_frames_to_out rnd (resampler c) (ucast n)));
              n1 = (if pre_linear_resample c then lin in_frames else in_frames);
              n2 = cras_frames_at_rate (frame_rate (in_fmt c)) n1 (frame_rate (out_fmt c))
          in if \<not> pre_linear_resample c then lin n2 else n2)"

definition cras_fmt_conv_out_frames_to_in :: "rounding \<Rightarrow> cras_fmt_conv option \<Rightarrow> u64 \<Rightarrow> u64" where
  "cras_fmt_conv_out_frames_to_in rnd conv out_frames =
     (case conv of None \<Rightarrow> out_frames
      | Some c \<Rightarrow>
          let lin = (\<lambda>n. ucast (linear_resampler_out_frames_to_in rnd (resampler c) (ucast n)));
              n1 = (if \<not> pre_linear_resample c then lin out_frames else out_frames);
              n2 = cras_frames_at_rate (frame_rate (out_fmt c)) n1 (frame_rate (in_fmt c))
          in if pre_linear_resample c then lin n2 else n2)"

section \<open>Conversion\<close>

text \<open>A stage of the chain with the buffers it uses and the frames it reads and writes.\<close>

datatype conv_buffer = In_buf | Tmp_buf nat | Out_buf

datatype conv_step = Pre_linear | In_format | Channels | Src | Post_linear | Out_format

record conv_stage =
  stage_step :: conv_step
  stage_from :: conv_buffer
  stage_to :: conv_buffer
  stage_in_frames :: u32
  stage_out_frames :: u32

definition chain_buffer :: "nat \<Rightarrow> nat \<Rightarrow> conv_buffer" where
  \<comment> \<open>\<^verbatim>\<open>buffers[i]\<close> after \<^verbatim>\<open>buffers[used_converters] = out_buf\<close>\<close>
  "chain_buffer used i = (if i = used then Out_buf else if i = 0 then In_buf else Tmp_buf (i - 1))"

text \<open>The state of the function: \<^verbatim>\<open>fr_in\<close>, \<^verbatim>\<open>fr_out\<close>, \<^verbatim>\<open>linear_resample_fr\<close>, \<^verbatim>\<open>buf_idx\<close> and the stages so
  far.  The linear resampler is asked for its counts by \<open>lin\<close>.\<close>

record conv_run =
  fr_in :: u32
  fr_out :: u32
  linear_fr :: u32
  buf_idx :: nat
  stages :: "conv_stage list"

definition add_stage :: "nat \<Rightarrow> conv_step \<Rightarrow> u32 \<Rightarrow> u32 \<Rightarrow> conv_run \<Rightarrow> conv_run" where
  "add_stage used st n m r =
     r\<lparr>stages := stages r @ [\<lparr>stage_step = st, stage_from = chain_buffer used (buf_idx r),
         stage_to = chain_buffer used (buf_idx r + 1), stage_in_frames = n, stage_out_frames = m\<rparr>],
       buf_idx := buf_idx r + 1\<rparr>"

text \<open>The counts of the linear resampler do not depend on the samples.\<close>

definition resample_counts :: "rounding \<Rightarrow> linear_resampler \<Rightarrow> u32 \<Rightarrow> u32 \<Rightarrow> (u32 \<times> u32 \<times> linear_resampler) option" where
  "resample_counts rnd lr n limit =
     map_option (\<lambda>(used, made, frs, lr'). (used, made, lr')) (linear_resampler_resample rnd lr (replicate (unat n) []) n limit)"

definition pre_linear_step :: "rounding \<Rightarrow> cras_fmt_conv \<Rightarrow> nat \<Rightarrow> u64 \<Rightarrow> conv_run \<times> linear_resampler \<Rightarrow>
    (conv_run \<times> linear_resampler) option" where
  "pre_linear_step rnd conv used out_frames s =
     (let (r, lr) = s;
          limit0 = (ucast out_frames :: u32);
          limit1 = (if speex_state conv
             then let l = (ucast (ucast limit0 * frame_rate (in_fmt conv) div frame_rate (out_fmt conv)) :: u32)
               in if l = 0 then 1 else l
             else limit0);
          limit = (ucast (min (ucast limit1) (tmp_buf_frames conv)) :: u32)
      in map_option (\<lambda>(n, made, lr'). ((add_stage used Pre_linear (fr_in r) made r)\<lparr>fr_in := made, linear_fr := n\<rparr>, lr'))
           (resample_counts rnd lr (fr_in r) limit))"

definition src_step :: "rounding \<Rightarrow> (u32 \<Rightarrow> u32 \<Rightarrow> u32 \<times> u32) \<Rightarrow> cras_fmt_conv \<Rightarrow> nat \<Rightarrow> bool \<Rightarrow> u64 \<Rightarrow>
    conv_run \<times> linear_resampler \<Rightarrow> conv_run \<times> linear_resampler" where
  "src_step rnd speex conv used post out_frames s =
     (let (r, lr) = s;
          out_limit = (if post then linear_resampler_out_frames_to_in rnd lr (ucast out_frames) else ucast out_frames);
          want = (ucast (cras_frames_at_rate (frame_rate (in_fmt conv)) (ucast (fr_in r)) (frame_rate (out_fmt conv))) :: u32);
          (n, m) = speex (fr_in r) (min want out_limit)
      in ((add_stage used Src (fr_in r) m r)\<lparr>fr_in := n, fr_out := m\<rparr>, lr))"

definition post_linear_step :: "rounding \<Rightarrow> cras_fmt_conv \<Rightarrow> nat \<Rightarrow> u64 \<Rightarrow> conv_run \<times> linear_resampler \<Rightarrow>
    (conv_run \<times> linear_resampler) option" where
  "post_linear_step rnd conv used out_frames s =
     (let (r, lr) = s; limit = (ucast (min (tmp_buf_frames conv) out_frames) :: u32)
      in map_option (\<lambda>(n, made, lr'). ((add_stage used Post_linear (fr_out r) made r)\<lparr>fr_out := made, linear_fr := n\<rparr>, lr'))
           (resample_counts rnd lr (fr_out r) limit))"

definition maybe :: "bool \<Rightarrow> ('s \<Rightarrow> 's option) \<Rightarrow> 's \<Rightarrow> 's option" where
  "maybe b f s = (if b then f s else Some s)"

definition used_converters :: "cras_fmt_conv \<Rightarrow> nat" where
  "used_converters conv =
     (if linear_resampler_needed (resampler conv) then num_converters conv else num_converters conv - 1)"

definition cras_fmt_conv_convert_frames :: "rounding \<Rightarrow> (u32 \<Rightarrow> u32 \<Rightarrow> u32 \<times> u32) \<Rightarrow> cras_fmt_conv \<Rightarrow> u32 \<Rightarrow> u64 \<Rightarrow>
    (u32 \<times> u32 \<times> cras_fmt_conv \<times> conv_stage list) option" where
  \<comment> \<open>the new \<^verbatim>\<open>*in_frames\<close>, the result, and the stages run; \<open>None\<close> when an assertion fails\<close>
  "cras_fmt_conv_convert_frames rnd speex conv in_frames out_frames =
     (if \<not> ucast in_frames \<le> tmp_buf_frames conv then None
      else
        let needed = linear_resampler_needed (resampler conv);
            post = (needed \<and> \<not> pre_linear_resample conv);
            pre = (needed \<and> pre_linear_resample conv);
            n0 = (if \<not> speex_state conv then ucast (min (ucast in_frames) out_frames) else in_frames :: u32);
            used = used_converters conv;
            r0 = \<lparr>fr_in = n0, fr_out = n0, linear_fr = 0, buf_idx = 0, stages = []\<rparr>
        in do {
          s1 \<leftarrow> maybe pre (pre_linear_step rnd conv used out_frames) (r0, resampler conv);
          s2 \<leftarrow> maybe (pcm_format (in_fmt conv) \<noteq> S16_LE)
            (\<lambda>(r, lr). Some (add_stage used In_format (fr_in r) (fr_in r) r, lr)) s1;
          s3 \<leftarrow> maybe (channel_converter conv \<noteq> None)
            (\<lambda>(r, lr). Some (add_stage used Channels (fr_in r) (fr_in r) r, lr)) s2;
          s4 \<leftarrow> maybe (speex_state conv) (\<lambda>s. Some (src_step rnd speex conv used post out_frames s)) s3;
          s5 \<leftarrow> maybe post (post_linear_step rnd conv used out_frames) s4;
          (r, lr) \<leftarrow> maybe (pcm_format (out_fmt conv) \<noteq> S16_LE)
            (\<lambda>(r, lr). Some (add_stage used Out_format (fr_out r) (fr_out r) r, lr)) s5;
          Some (if pre then (if speex_state conv \<and> fr_in r = 0 then 0 else linear_fr r) else fr_in r,
                fr_out r, conv\<lparr>resampler := lr\<rparr>, stages r) })"

section \<open>The chain\<close>

text \<open>What \<^verbatim>\<open>cras_fmt_conv_create\<close> sets up: the count of converters and the temporary buffers.\<close>

definition conv_wf :: "cras_fmt_conv \<Rightarrow> bool" where
  "conv_wf conv \<longleftrightarrow> num_converters conv = Suc (of_bool (pcm_format (in_fmt conv) \<noteq> S16_LE) +
       of_bool (pcm_format (out_fmt conv) \<noteq> S16_LE) + of_bool (channel_converter conv \<noteq> None) + of_bool (speex_state conv)) \<and>
     tmp_bufs conv = num_converters conv - 1 \<and> num_converters conv \<le> MAX_NUM_CONVERTERS"

lemma fmt_conv_create_wf:
  assumes "cras_fmt_conv_create rnd phys_width env fin fout max_frames pre = Some conv"
  shows "conv_wf conv \<and> in_fmt conv = fin \<and> out_fmt conv = fout \<and> tmp_buf_frames conv = max_frames \<and>
    pre_linear_resample conv = pre \<and> (speex_state conv \<longleftrightarrow> frame_rate fin \<noteq> frame_rate fout)"
  using assms by (auto simp: cras_fmt_conv_create_def conv_wf_def Let_def split: if_splits option.splits)

definition chain_ok :: "nat \<Rightarrow> conv_run \<Rightarrow> bool" where
  "chain_ok used r \<longleftrightarrow> buf_idx r = length (stages r) \<and>
     (\<forall>i < length (stages r). stage_from (stages r ! i) = chain_buffer used i \<and> stage_to (stages r ! i) = chain_buffer used (Suc i))"

definition run_ok :: "nat \<Rightarrow> nat \<Rightarrow> nat \<Rightarrow> conv_run \<Rightarrow> bool" where
  "run_ok used T k r \<longleftrightarrow> chain_ok used r \<and> length (stages r) = k \<and>
     (\<forall>s \<in> set (stages r). unat (stage_out_frames s) \<le> T) \<and> unat (fr_in r) \<le> T"

lemma run_ok_add_stage:
  "run_ok used T k r \<Longrightarrow> unat m \<le> T \<Longrightarrow> run_ok used T (Suc k) (add_stage used st n m r)"
  by (auto simp: run_ok_def chain_ok_def add_stage_def nth_append less_Suc_eq)

lemma run_ok_fr_in: "run_ok used T k r \<Longrightarrow> unat n \<le> T \<Longrightarrow> run_ok used T k (r\<lparr>fr_in := n\<rparr>)"
  by (simp add: run_ok_def chain_ok_def)

lemma run_ok_other [simp]:
  "run_ok used T k (r\<lparr>fr_out := m\<rparr>) = run_ok used T k r"
  "run_ok used T k (r\<lparr>linear_fr := m\<rparr>) = run_ok used T k r"
  by (simp_all add: run_ok_def chain_ok_def)

lemma add_stage_fields [simp]:
  "fr_in (add_stage used st n m r) = fr_in r" "fr_out (add_stage used st n m r) = fr_out r"
  "linear_fr (add_stage used st n m r) = linear_fr r"
  by (simp_all add: add_stage_def)

lemma maybe_stage:
  assumes "run_ok used T k r" and "unat (g r) \<le> T"
  shows "\<exists>r'. maybe b (\<lambda>(r, lr). Some (add_stage used st (g r) (g r) r, lr)) (r, lr) = Some (r', lr) \<and>
    run_ok used T (k + of_bool b) r' \<and> fr_in r' = fr_in r \<and> fr_out r' = fr_out r \<and> linear_fr r' = linear_fr r"
  using assms run_ok_add_stage [OF assms] by (simp add: maybe_def)

lemma resample_counts_ok:
  assumes "exact_rounding rnd" and "unat n \<le> 16777216" and "0 < from_times_100 lr \<or> 0 < to_times_100 lr"
  shows "\<exists>u m lr'. resample_counts rnd lr n limit = Some (u, m, lr') \<and> u \<le> n \<and> m \<le> limit"
  using resample_counts_le [OF assms(1,2), of "replicate (unat n) []" lr limit] assms(3) by (auto simp: resample_counts_def)

lemma unat_ucast_down: "unat (ucast (x :: u64) :: u32) \<le> unat x"
  by (simp add: unat_ucast_u32_u64)

lemma min_tmp_le: "unat (ucast (min a b) :: u32) \<le> unat (a :: u64)" "unat (ucast (min a b) :: u32) \<le> unat (b :: u64)"
  using unat_ucast_down [of "min a b"] by (simp_all add: unat_min)

lemma pre_linear_ok:
  assumes "exact_rounding rnd" and "unat (tmp_buf_frames conv) \<le> 16777216" and "0 < from_times_100 lr \<or> 0 < to_times_100 lr"
    and "run_ok used (unat (tmp_buf_frames conv)) k r"
  shows "\<exists>r' lr'. pre_linear_step rnd conv used out_frames (r, lr) = Some (r', lr') \<and>
    run_ok used (unat (tmp_buf_frames conv)) (Suc k) r' \<and> linear_fr r' \<le> fr_in r \<and> fr_out r' = fr_out r"
proof -
  define limit1 where "limit1 = (if speex_state conv
    then let l = (ucast (ucast (ucast out_frames :: u32) * frame_rate (in_fmt conv) div frame_rate (out_fmt conv)) :: u32)
      in if l = 0 then 1 else l
    else (ucast out_frames :: u32))"
  define limit where "limit = (ucast (min (ucast limit1) (tmp_buf_frames conv)) :: u32)"
  have n: "unat (fr_in r) \<le> 16777216" using assms(2,4) by (simp add: run_ok_def)
  obtain u m lr' where c: "resample_counts rnd lr (fr_in r) limit = Some (u, m, lr')" "u \<le> fr_in r" "m \<le> limit"
    using resample_counts_ok [OF assms(1) n assms(3)] by blast
  have m: "unat m \<le> unat (tmp_buf_frames conv)"
    using c(3) min_tmp_le(2) [of "ucast limit1" "tmp_buf_frames conv"] by (simp add: limit_def word_le_nat_alt)
  have "pre_linear_step rnd conv used out_frames (r, lr) =
      Some ((add_stage used Pre_linear (fr_in r) m r)\<lparr>fr_in := m, linear_fr := u\<rparr>, lr')"
    using c(1) unfolding pre_linear_step_def limit_def limit1_def Let_def prod.case by simp
  then show ?thesis
    using run_ok_fr_in [OF run_ok_add_stage [OF assms(4) m] m] c(2) by simp
qed

lemma src_step_ok:
  assumes "\<And>n m. fst (speex n m) \<le> n \<and> snd (speex n m) \<le> m"
    and "run_ok used T k r"
    and "unat (min (ucast (cras_frames_at_rate (frame_rate (in_fmt conv)) (ucast (fr_in r)) (frame_rate (out_fmt conv))) :: u32)
        (if post then linear_resampler_out_frames_to_in rnd lr (ucast out_frames) else ucast out_frames)) \<le> T"
  shows "\<exists>r'. src_step rnd speex conv used post out_frames (r, lr) = (r', lr) \<and> run_ok used T (Suc k) r' \<and>
    fr_in r' \<le> fr_in r \<and> linear_fr r' = linear_fr r \<and> unat (fr_out r') \<le> T \<and> (\<not> post \<longrightarrow> fr_out r' \<le> ucast out_frames)"
proof -
  define lim where "lim = min (ucast (cras_frames_at_rate (frame_rate (in_fmt conv)) (ucast (fr_in r)) (frame_rate (out_fmt conv))) :: u32)
        (if post then linear_resampler_out_frames_to_in rnd lr (ucast out_frames) else ucast out_frames)"
  obtain n m where s: "speex (fr_in r) lim = (n, m)" by (rule prod.exhaust)
  have le: "n \<le> fr_in r" "m \<le> lim" using assms(1) [of "fr_in r" lim] by (simp_all add: s)
  have T: "unat m \<le> T" "unat n \<le> T"
    using le assms(2,3) unfolding lim_def [symmetric] by (simp_all add: run_ok_def word_le_nat_alt)
  have "\<not> post \<longrightarrow> m \<le> ucast out_frames" using le(2) by (auto simp: lim_def)
  moreover have "src_step rnd speex conv used post out_frames (r, lr) =
      ((add_stage used Src (fr_in r) m r)\<lparr>fr_in := n, fr_out := m\<rparr>, lr)"
    using s unfolding lim_def src_step_def Let_def prod.case by simp
  ultimately show ?thesis
    using run_ok_fr_in [OF run_ok_add_stage [OF assms(2) T(1)] T(2)] le(1) T(1) by simp
qed

lemma post_linear_ok:
  assumes "exact_rounding rnd" and "unat (tmp_buf_frames conv) \<le> 16777216" and "0 < from_times_100 lr \<or> 0 < to_times_100 lr"
    and "run_ok used (unat (tmp_buf_frames conv)) k r" and "unat (fr_out r) \<le> unat (tmp_buf_frames conv)"
  shows "\<exists>r' lr'. post_linear_step rnd conv used out_frames (r, lr) = Some (r', lr') \<and>
    run_ok used (unat (tmp_buf_frames conv)) (Suc k) r' \<and> fr_in r' = fr_in r \<and>
    unat (fr_out r') \<le> unat (tmp_buf_frames conv) \<and> unat (fr_out r') \<le> unat out_frames"
proof -
  define limit where "limit = (ucast (min (tmp_buf_frames conv) out_frames) :: u32)"
  have n: "unat (fr_out r) \<le> 16777216" using assms(2,5) by simp
  obtain u m lr' where c: "resample_counts rnd lr (fr_out r) limit = Some (u, m, lr')" "u \<le> fr_out r" "m \<le> limit"
    using resample_counts_ok [OF assms(1) n assms(3)] by blast
  have m: "unat m \<le> unat (tmp_buf_frames conv)" "unat m \<le> unat out_frames"
    using c(3) min_tmp_le [of "tmp_buf_frames conv" out_frames] by (simp_all add: limit_def word_le_nat_alt)
  have "post_linear_step rnd conv used out_frames (r, lr) =
      Some ((add_stage used Post_linear (fr_out r) m r)\<lparr>fr_out := m, linear_fr := u\<rparr>, lr')"
    using c(1) unfolding post_linear_step_def limit_def Let_def prod.case by simp
  then show ?thesis using run_ok_add_stage [OF assms(4) m(1)] m by simp
qed

text \<open>The same steps, taken or left out.\<close>

lemma maybe_pre_ok:
  assumes "exact_rounding rnd" and "unat (tmp_buf_frames conv) \<le> 16777216" and "0 < from_times_100 lr \<or> 0 < to_times_100 lr"
    and "run_ok used (unat (tmp_buf_frames conv)) 0 r"
  shows "\<exists>r' lr'. maybe b (pre_linear_step rnd conv used out_frames) (r, lr) = Some (r', lr') \<and>
    run_ok used (unat (tmp_buf_frames conv)) (of_bool b) r' \<and> (b \<longrightarrow> linear_fr r' \<le> fr_in r) \<and>
    (\<not> b \<longrightarrow> fr_in r' = fr_in r \<and> lr' = lr) \<and> fr_out r' = fr_out r"
  using pre_linear_ok [OF assms, of out_frames] assms(4) by (cases b) (auto simp: maybe_def)

lemma maybe_src_ok:
  assumes "\<And>n m. fst (speex n m) \<le> n \<and> snd (speex n m) \<le> m" and "run_ok used T k r"
    and "b \<Longrightarrow> unat (min (ucast (cras_frames_at_rate (frame_rate (in_fmt conv)) (ucast (fr_in r)) (frame_rate (out_fmt conv))) :: u32)
        (if post then linear_resampler_out_frames_to_in rnd lr (ucast out_frames) else ucast out_frames)) \<le> T"
    and "\<not> b \<Longrightarrow> unat (fr_out r) \<le> T \<and> unat (fr_out r) \<le> unat out_frames"
  shows "\<exists>r'. maybe b (\<lambda>s. Some (src_step rnd speex conv used post out_frames s)) (r, lr) = Some (r', lr) \<and>
    run_ok used T (k + of_bool b) r' \<and> fr_in r' \<le> fr_in r \<and> linear_fr r' = linear_fr r \<and>
    unat (fr_out r') \<le> T \<and> (\<not> post \<longrightarrow> unat (fr_out r') \<le> unat out_frames)"
proof (cases b)
  case True
  obtain r' where r': "src_step rnd speex conv used post out_frames (r, lr) = (r', lr)" "run_ok used T (Suc k) r'"
    "fr_in r' \<le> fr_in r" "linear_fr r' = linear_fr r" "unat (fr_out r') \<le> T" "\<not> post \<longrightarrow> fr_out r' \<le> ucast out_frames"
    using src_step_ok [OF assms(1,2) assms(3) [OF True]] by blast
  have "\<not> post \<longrightarrow> unat (fr_out r') \<le> unat out_frames"
    using r'(6) unat_ucast_down [of out_frames] by (auto simp: word_le_nat_alt)
  then show ?thesis using r' True by (simp add: maybe_def)
next
  case False
  then show ?thesis using assms(2,4) by (simp add: maybe_def)
qed

lemma maybe_post_ok:
  assumes "exact_rounding rnd" and "unat (tmp_buf_frames conv) \<le> 16777216"
    and "b \<Longrightarrow> 0 < from_times_100 lr \<or> 0 < to_times_100 lr"
    and "run_ok used (unat (tmp_buf_frames conv)) k r" and "unat (fr_out r) \<le> unat (tmp_buf_frames conv)"
    and "\<not> b \<Longrightarrow> unat (fr_out r) \<le> unat out_frames"
  shows "\<exists>r' lr'. maybe b (post_linear_step rnd conv used out_frames) (r, lr) = Some (r', lr') \<and>
    run_ok used (unat (tmp_buf_frames conv)) (k + of_bool b) r' \<and> fr_in r' = fr_in r \<and>
    unat (fr_out r') \<le> unat (tmp_buf_frames conv) \<and> unat (fr_out r') \<le> unat out_frames \<and> (\<not> b \<longrightarrow> linear_fr r' = linear_fr r)"
  using post_linear_ok [OF assms(1,2) _ assms(4,5), of lr out_frames] assms by (cases b) (auto simp: maybe_def)

lemma src_limit_fits:
  assumes "if pre_linear_resample conv then out_frames \<le> tmp_buf_frames conv
      else cras_frames_at_rate (frame_rate (in_fmt conv)) (ucast n) (frame_rate (out_fmt conv)) \<le> tmp_buf_frames conv"
    and "post \<Longrightarrow> \<not> pre_linear_resample conv"
  shows "unat (min (ucast (cras_frames_at_rate (frame_rate (in_fmt conv)) (ucast n) (frame_rate (out_fmt conv))) :: u32)
    (if post then l else ucast out_frames)) \<le> unat (tmp_buf_frames conv)"
proof (cases "pre_linear_resample conv")
  case True
  then have "out_frames \<le> tmp_buf_frames conv" and "\<not> post" using assms by auto
  then show ?thesis using le_trans [OF unat_ucast_down] by (simp add: word_le_nat_alt min.coboundedI2)
next
  case False
  then have "cras_frames_at_rate (frame_rate (in_fmt conv)) (ucast n) (frame_rate (out_fmt conv)) \<le> tmp_buf_frames conv"
    using assms(1) by simp
  then have "unat (ucast (cras_frames_at_rate (frame_rate (in_fmt conv)) (ucast n) (frame_rate (out_fmt conv))) :: u32)
      \<le> unat (tmp_buf_frames conv)"
    unfolding word_le_nat_alt by (rule le_trans [OF unat_ucast_down])
  then show ?thesis by simp
qed

lemma convert_frames_ok:
  assumes rnd: "exact_rounding rnd" and speex: "\<And>n m. fst (speex n m) \<le> n \<and> snd (speex n m) \<le> m"
    and wf: "conv_wf conv" and rates: "0 < from_times_100 (resampler conv) \<or> 0 < to_times_100 (resampler conv)"
    and tmp: "ucast in_frames \<le> tmp_buf_frames conv" "unat (tmp_buf_frames conv) \<le> 16777216"
    and fit: "if pre_linear_resample conv then out_frames \<le> tmp_buf_frames conv
      else cras_frames_at_rate (frame_rate (in_fmt conv)) (ucast in_frames) (frame_rate (out_fmt conv)) \<le> tmp_buf_frames conv"
  shows "\<exists>n m lr r. cras_fmt_conv_convert_frames rnd speex conv in_frames out_frames = Some (n, m, conv\<lparr>resampler := lr\<rparr>, stages r) \<and>
    n \<le> in_frames \<and> unat m \<le> unat out_frames \<and> run_ok (used_converters conv) (unat (tmp_buf_frames conv)) (used_converters conv) r"
proof -
  define T where "T = unat (tmp_buf_frames conv)"
  define lin where "lin = linear_resampler_needed (resampler conv)"
  define post where "post = (lin \<and> \<not> pre_linear_resample conv)"
  define pre where "pre = (lin \<and> pre_linear_resample conv)"
  define n0 where "n0 = (if \<not> speex_state conv then ucast (min (ucast in_frames) out_frames) else in_frames :: u32)"
  define used where "used = used_converters conv"
  define r0 where "r0 = \<lparr>fr_in = n0, fr_out = n0, linear_fr = 0, buf_idx = 0, stages = []\<rparr>"
  have n0: "unat n0 \<le> unat in_frames" "\<not> speex_state conv \<Longrightarrow> unat n0 \<le> unat out_frames"
    using min_tmp_le [of "ucast in_frames" out_frames] by (simp_all add: n0_def)
  have inT: "unat in_frames \<le> T" using tmp(1) by (simp add: T_def word_le_nat_alt)
  have R0: "run_ok used T 0 r0" using n0(1) inT by (simp add: r0_def run_ok_def chain_ok_def)
  obtain r1 lr1 where s1: "maybe pre (pre_linear_step rnd conv used out_frames) (r0, resampler conv) = Some (r1, lr1)"
    and R1: "run_ok used T (of_bool pre) r1" and p1: "pre \<longrightarrow> linear_fr r1 \<le> n0" and q1: "\<not> pre \<longrightarrow> fr_in r1 = n0 \<and> lr1 = resampler conv"
    and o1: "fr_out r1 = n0"
    using maybe_pre_ok [OF rnd tmp(2) rates R0 [unfolded T_def], of pre out_frames] by (auto simp: T_def r0_def)
  have "unat (fr_in r1) \<le> T" using R1 by (simp add: run_ok_def)
  then obtain r2 where s2: "maybe (pcm_format (in_fmt conv) \<noteq> S16_LE)
        (\<lambda>(r, lr). Some (add_stage used In_format (fr_in r) (fr_in r) r, lr)) (r1, lr1) = Some (r2, lr1)"
    and R2: "run_ok used T (of_bool pre + of_bool (pcm_format (in_fmt conv) \<noteq> S16_LE)) r2"
    and f2: "fr_in r2 = fr_in r1" "fr_out r2 = n0" "linear_fr r2 = linear_fr r1"
    using maybe_stage [OF R1, of fr_in] o1 by metis
  have "unat (fr_in r2) \<le> T" using R2 by (simp add: run_ok_def)
  then obtain r3 where s3: "maybe (channel_converter conv \<noteq> None)
        (\<lambda>(r, lr). Some (add_stage used Channels (fr_in r) (fr_in r) r, lr)) (r2, lr1) = Some (r3, lr1)"
    and R3: "run_ok used T (of_bool pre + of_bool (pcm_format (in_fmt conv) \<noteq> S16_LE) + of_bool (channel_converter conv \<noteq> None)) r3"
    and f3: "fr_in r3 = fr_in r1" "fr_out r3 = n0" "linear_fr r3 = linear_fr r1"
    using maybe_stage [OF R2, of fr_in] f2 by metis
  define k3 :: nat where "k3 = of_bool pre + of_bool (pcm_format (in_fmt conv) \<noteq> S16_LE) + of_bool (channel_converter conv \<noteq> None)"
  have fit3: "if pre_linear_resample conv then out_frames \<le> tmp_buf_frames conv
      else cras_frames_at_rate (frame_rate (in_fmt conv)) (ucast (fr_in r3)) (frame_rate (out_fmt conv)) \<le> tmp_buf_frames conv"
    if "speex_state conv" using fit q1 f3(1) that by (simp add: pre_def n0_def split: if_splits)
  obtain r4 where s4: "maybe (speex_state conv) (\<lambda>s. Some (src_step rnd speex conv used post out_frames s)) (r3, lr1) = Some (r4, lr1)"
    and R4: "run_ok used T (k3 + of_bool (speex_state conv)) r4"
    and f4: "fr_in r4 \<le> fr_in r1" "linear_fr r4 = linear_fr r1" "unat (fr_out r4) \<le> T" "\<not> post \<longrightarrow> unat (fr_out r4) \<le> unat out_frames"
    using maybe_src_ok [OF speex R3, of "speex_state conv" conv post rnd lr1 out_frames] src_limit_fits [OF fit3, of post] n0 inT f3
    by (auto simp: post_def T_def k3_def)
  have "post \<longrightarrow> lr1 = resampler conv" using q1 by (simp add: pre_def post_def)
  then obtain r5 lr5 where s5: "maybe post (post_linear_step rnd conv used out_frames) (r4, lr1) = Some (r5, lr5)"
    and R5: "run_ok used T (k3 + of_bool (speex_state conv) + of_bool post) r5"
    and f5: "fr_in r5 = fr_in r4" "unat (fr_out r5) \<le> T" "unat (fr_out r5) \<le> unat out_frames" "\<not> post \<longrightarrow> linear_fr r5 = linear_fr r1"
    using maybe_post_ok [OF rnd tmp(2) _ R4 [unfolded T_def] f4(3) [unfolded T_def], of post lr1 out_frames] rates f4
    by (auto simp: T_def)
  obtain r6 where s6: "maybe (pcm_format (out_fmt conv) \<noteq> S16_LE)
        (\<lambda>(r, lr). Some (add_stage used Out_format (fr_out r) (fr_out r) r, lr)) (r5, lr5) = Some (r6, lr5)"
    and R6: "run_ok used T (k3 + of_bool (speex_state conv) + of_bool post + of_bool (pcm_format (out_fmt conv) \<noteq> S16_LE)) r6"
    and f6: "fr_in r6 = fr_in r5" "fr_out r6 = fr_out r5" "linear_fr r6 = linear_fr r5"
    using maybe_stage [OF R5, of fr_out] f5(2) by metis
  have u: "k3 + of_bool (speex_state conv) + of_bool post + of_bool (pcm_format (out_fmt conv) \<noteq> S16_LE) = used"
    using wf by (auto simp: k3_def used_def used_converters_def conv_wf_def pre_def post_def lin_def)
  define n where "n = (if pre then (if speex_state conv \<and> fr_in r6 = 0 then 0 else linear_fr r6) else fr_in r6)"
  have "cras_fmt_conv_convert_frames rnd speex conv in_frames out_frames = Some (n, fr_out r6, conv\<lparr>resampler := lr5\<rparr>, stages r6)"
    unfolding cras_fmt_conv_convert_frames_def Let_def lin_def [symmetric] post_def [symmetric] pre_def [symmetric]
      n0_def [symmetric] used_def [symmetric] r0_def [symmetric]
    using tmp(1) s1 s2 s3 s4 s5 s6 by (simp add: n_def)
  moreover have "n \<le> in_frames"
    using f4 f5 f6 p1 q1 n0(1) unfolding n_def pre_def post_def by (auto simp: word_le_nat_alt)
  ultimately show ?thesis using R6 u f5(3) f6(2) by (auto simp: used_def T_def)
qed

section \<open>Properties\<close>

lemma used_converters_bounds:
  assumes "conv_wf conv" and "cras_fmt_conversion_needed conv"
  shows "0 < used_converters conv \<and> used_converters conv \<le> Suc (tmp_bufs conv)"
  using assms by (auto simp: conv_wf_def cras_fmt_conversion_needed_def used_converters_def)


definition stereo_16 :: cras_audio_format where
  "stereo_16 = \<lparr>pcm_format = S16_LE, frame_rate = 48000, num_channels = 2, channel_layout = [0, 1] @ replicate 9 (- 1)\<rparr>"

definition mono_24 :: cras_audio_format where
  "mono_24 = \<lparr>pcm_format = S24_LE, frame_rate = 48000, num_channels = 1, channel_layout = [0] @ replicate 10 (- 1)\<rparr>"

definition good_env :: fmt_conv_env where
  "good_env = \<lparr>conv_alloc = True, matrix_alloc = True, speex_init = True, resampler_alloc = True, tmp_alloc = True\<rparr>"

definition mono_conv :: cras_fmt_conv where
  "mono_conv = the (cras_fmt_conv_create (\<lambda>x. x) (\<lambda>_. 16) good_env mono_24 stereo_16 64 False)"

lemma exact_rounding_id: "exact_rounding (\<lambda>x. x)" by (simp add: exact_rounding_def)


definition drift_conv :: cras_fmt_conv where
  "drift_conv = \<lparr>speex_state = False, channel_converter = None, in_format_converter = None, out_format_converter = None,
     resampler = drift_resampler, in_fmt = stereo_16, out_fmt = stereo_16, tmp_bufs = 0, tmp_buf_frames = 64,
     pre_linear_resample = True, num_converters = 1\<rparr>"

lemma drift_loop:
  "resample_loop (\<lambda>x. x) drift_resampler [[], [], [], []] 4 8 0 = Some (3, Suc (Suc 0), [[], []])"
proof -
  note defs = src_pos_def fl_def drift_resampler_def resample_frame_def to_unsigned_def lerp_frame_def
  have "resample_loop (\<lambda>x. x) drift_resampler [[], [], [], []] 4 8 (Suc (Suc 0)) = Some (3, Suc (Suc 0), [])"
    by (subst resample_loop.simps) (simp add: defs)
  then have "resample_loop (\<lambda>x. x) drift_resampler [[], [], [], []] 4 8 (Suc 0) = Some (3, Suc (Suc 0), [[]])"
    by (subst resample_loop.simps) (simp add: defs)
  then show ?thesis by (subst resample_loop.simps) (simp add: defs)
qed

lemma replicate_numeral_4: "replicate 4 x = [x, x, x, x]" by (simp add: numeral_eq_Suc)

lemma drift_counts:
  "resample_counts (\<lambda>x. x) drift_resampler 4 8 = Some (4, 2, drift_resampler\<lparr>src_offset := 4, dst_offset := 2\<rparr>)"
proof -
  have r: "replicate (unat (4 :: u32)) [] = [[], [], [], []]" by (simp add: replicate_numeral_4)
  have w: "wrap_offsets 200 100 (4, 2) = Some (4, 2)" by (subst wrap_offsets.simps) simp
  show ?thesis
    unfolding resample_counts_def linear_resampler_resample_def r using drift_loop w by (simp add: drift_resampler_def)
qed


end
