(* ===== verification/Audio_Area.thy ===== *)
theory Audio_Area
  imports Audio_Format
begin

text \<open>
  \<^verbatim>\<open>server/cras_audio_area.c\<close> and \<^verbatim>\<open>.h\<close>: descriptions of interleaved sample memory by channel, and the copy from
  one area to another.  A pointer to samples is an offset into the memory it points to.  The copy itself is a
  sequence of calls of \<^verbatim>\<open>cras_mix_add_scale_stride\<close>, one per pair of matching channels; a call is recorded with
  its positions, count and strides.
\<close>

record cras_channel_area =
  ch_set :: u32
  step_bytes :: u32
  ch_buf :: nat

record cras_audio_area =
  area_frames :: u32
  area_num_channels :: u32
  area_channels :: "cras_channel_area list"

record stride_call =
  call_dst :: nat
  call_src :: nat
  call_count :: u32
  call_dst_step :: u32
  call_src_step :: u32

definition channel_area_set_channel :: "cras_channel_area \<Rightarrow> nat \<Rightarrow> cras_channel_area" where
  "channel_area_set_channel ca channel = ca\<lparr>ch_set := ch_set ca OR push_bit channel 1\<rparr>"

definition cras_audio_area_create :: "nat \<Rightarrow> cras_audio_area" where
  "cras_audio_area_create n =
     \<lparr>area_frames = 0, area_num_channels = of_nat n, area_channels = replicate n \<lparr>ch_set = 0, step_bytes = 0, ch_buf = 0\<rparr>\<rparr>"

definition copy_calls :: "cras_audio_area \<Rightarrow> u32 \<Rightarrow> cras_audio_area \<Rightarrow> u32 \<Rightarrow> u32 \<Rightarrow> stride_call list" where
  "copy_calls dst dst_offset src src_offset n =
     concat (map (\<lambda>s. concat (map (\<lambda>d.
         if ch_set s AND ch_set d = 0 then []
         else [\<lparr>call_dst = ch_buf d + unat (dst_offset * step_bytes d), call_src = ch_buf s + unat (src_offset * step_bytes s),
                call_count = n, call_dst_step = step_bytes d, call_src_step = step_bytes s\<rparr>])
       (take (unat (area_num_channels dst)) (area_channels dst))))
     (take (unat (area_num_channels src)) (area_channels src)))"

definition cras_audio_area_copy :: "cras_audio_area \<Rightarrow> u32 \<Rightarrow> cras_audio_area \<Rightarrow> u32 \<Rightarrow> u32 \<times> stride_call list" where
  "cras_audio_area_copy dst dst_offset src src_offset =
     (let ncopy = min (area_frames src - src_offset) (area_frames dst - dst_offset)
      in (ncopy, copy_calls dst dst_offset src src_offset ncopy))"

definition cras_audio_area_config_channels :: "cras_audio_area \<Rightarrow> cras_audio_format \<Rightarrow> cras_audio_area" where
  "cras_audio_area_config_channels area fmt =
     (if num_channels fmt = 1 \<and> (channel_layout fmt ! 4 = 0 \<or> channel_layout fmt ! 0 = 0)
      then area\<lparr>area_channels := (area_channels area)[0 :=
             channel_area_set_channel (channel_area_set_channel (area_channels area ! 0) 0) 1]\<rparr>
      else area\<lparr>area_channels := map (\<lambda>(i, ca). if i < unat (num_channels fmt)
             then fold (\<lambda>ch ca. if channel_layout fmt ! ch = int i then channel_area_set_channel ca ch else ca)
               [0..<CRAS_CH_MAX] (ca\<lparr>ch_set := 0\<rparr>)
             else ca) (enumerate 0 (area_channels area))\<rparr>)"

definition cras_audio_area_config_buf_pointers :: "(snd_pcm_format \<Rightarrow> nat) \<Rightarrow> cras_audio_area \<Rightarrow> cras_audio_format \<Rightarrow>
    nat \<Rightarrow> cras_audio_area" where
  "cras_audio_area_config_buf_pointers phys_width area fmt base =
     (let sample_size = phys_width (pcm_format fmt) div 8
      in area\<lparr>area_channels := map (\<lambda>(i, ca). if i < unat (area_num_channels area)
           then ca\<lparr>step_bytes := of_nat (sample_size * unat (num_channels fmt)), ch_buf := base + i * sample_size\<rparr>
           else ca) (enumerate 0 (area_channels area))\<rparr>)"

section \<open>The copy stays inside\<close>

text \<open>The samples of one channel, \<open>count\<close> of them of \<open>sz\<close> bytes from \<open>pos\<close>, lie between \<open>lo\<close> and \<open>hi\<close>.\<close>

definition samples_within :: "nat \<Rightarrow> nat \<Rightarrow> nat \<Rightarrow> nat \<Rightarrow> nat \<Rightarrow> nat \<Rightarrow> bool" where
  "samples_within pos step count sz lo hi \<longleftrightarrow> (\<forall>k < count. lo \<le> pos + k * step \<and> pos + k * step + sz \<le> hi)"

definition area_fits :: "(snd_pcm_format \<Rightarrow> nat) \<Rightarrow> cras_audio_area \<Rightarrow> cras_audio_format \<Rightarrow> nat \<Rightarrow> bool" where
  "area_fits phys_width area fmt base \<longleftrightarrow>
     (\<forall>ca \<in> set (take (unat (area_num_channels area)) (area_channels area)).
        unat (step_bytes ca) = phys_width (pcm_format fmt) div 8 * unat (num_channels fmt) \<and> base \<le> ch_buf ca \<and>
        ch_buf ca + phys_width (pcm_format fmt) div 8 \<le> base + phys_width (pcm_format fmt) div 8 * unat (num_channels fmt))"

lemma config_buf_pointers_fits:
  assumes "unat (area_num_channels area) \<le> unat (num_channels fmt)"
    and "phys_width (pcm_format fmt) div 8 * unat (num_channels fmt) < 2 ^ 32"
  shows "area_fits phys_width (cras_audio_area_config_buf_pointers phys_width area fmt base) fmt base"
  unfolding area_fits_def
proof
  define sz where "sz = phys_width (pcm_format fmt) div 8"
  fix ca assume ca: "ca \<in> set (take (unat (area_num_channels (cras_audio_area_config_buf_pointers phys_width area fmt base)))
    (area_channels (cras_audio_area_config_buf_pointers phys_width area fmt base)))"
  then obtain i where i: "i < unat (area_num_channels area)"
    "step_bytes ca = of_nat (sz * unat (num_channels fmt))" "ch_buf ca = base + i * sz"
    by (auto simp: cras_audio_area_config_buf_pointers_def Let_def sz_def in_set_conv_nth nth_enumerate_eq)
  have "Suc i * sz \<le> unat (num_channels fmt) * sz" using i(1) assms(1) by (intro mult_le_mono1) simp
  then have "i * sz + sz \<le> sz * unat (num_channels fmt)" by (simp add: mult.commute add.commute)
  moreover have "unat (step_bytes ca) = sz * unat (num_channels fmt)"
    unfolding i(2) by (rule unat_of_nat_u32) (use assms(2) in \<open>simp add: sz_def\<close>)
  ultimately show "unat (step_bytes ca) = phys_width (pcm_format fmt) div 8 * unat (num_channels fmt) \<and> base \<le> ch_buf ca \<and>
      ch_buf ca + phys_width (pcm_format fmt) div 8 \<le> base + phys_width (pcm_format fmt) div 8 * unat (num_channels fmt)"
    using i(3) by (simp add: sz_def [symmetric])
qed

lemma channel_within:
  fixes step offs n :: u32
  assumes "base \<le> b" and "b + sz \<le> base + fb" and "unat step = fb" and "unat offs + unat n \<le> frames" and "frames * fb < 2 ^ 32"
  shows "samples_within (b + unat (offs * step)) (unat step) (unat n) sz base (base + frames * fb)"
  unfolding samples_within_def
proof (intro allI impI)
  fix k assume k: "k < unat n"
  have "unat offs * fb \<le> frames * fb" using assms(4) by (intro mult_le_mono1) simp
  then have "unat offs * fb < 2 ^ 32" using assms(5) by (rule le_less_trans)
  then have "unat offs * unat step < 2 ^ LENGTH(32)" unfolding assms(3) by simp
  then have o: "unat (offs * step) = unat offs * fb" using unat_mult_small [of offs step] assms(3) by simp
  have "(unat offs + k + 1) * fb \<le> frames * fb" using k assms(4) by (intro mult_le_mono1) simp
  then show "base \<le> b + unat (offs * step) + k * unat step \<and> b + unat (offs * step) + k * unat step + sz \<le> base + frames * fb"
    using assms(1-3) o by (simp add: algebra_simps)
qed


definition sample_area :: "u32 \<Rightarrow> cras_audio_area" where
  "sample_area n = \<lparr>area_frames = n, area_num_channels = 2,
     area_channels = replicate 2 \<lparr>ch_set = 3, step_bytes = 0, ch_buf = 0\<rparr>\<rparr>"

definition stereo_fmt :: cras_audio_format where
  "stereo_fmt = \<lparr>pcm_format = S16_LE, frame_rate = 48000, num_channels = 2, channel_layout = [0, 1] @ replicate 9 (- 1)\<rparr>"


end
