(* ===== verification/Byte_Buffer.thy ===== *)
theory Byte_Buffer
  imports Fifo
begin

text \<open>
  The ring buffer of \<^verbatim>\<open>common/byte_buffer.h\<close>, which holds converted samples between a device
  and a stream, Bluetooth packets and device buffers.  The five header fields are \<open>u32\<close> words;
  the flexible array member is a list of bytes.  The callers' \<^verbatim>\<open>memcpy\<close> to
  \<^verbatim>\<open>buf_write_pointer\<close> and from \<^verbatim>\<open>buf_read_pointer\<close> are the functions \<open>buf_put\<close>
  and \<open>buf_get\<close>.  The buffer is shown to be a queue of bytes in the sense of the locale
  \<open>fifo\<close>.
\<close>

section \<open>The structure and its operations\<close>

record byte_buffer =
  write_idx :: u32
  read_idx :: u32
  level :: u32
  max_size :: u32
  used_size :: u32
  bytes :: "u8 list"

definition byte_buffer_create :: "bool \<Rightarrow> u64 \<Rightarrow> byte_buffer option" where
  \<comment> \<open>the first argument says whether \<^verbatim>\<open>calloc\<close> returned memory\<close>
  "byte_buffer_create calloc_ok buffer_size_bytes =
     (if \<not> calloc_ok then None
      else Some \<lparr>write_idx = 0, read_idx = 0, level = 0,
                 max_size = ucast buffer_size_bytes, used_size = ucast buffer_size_bytes,
                 bytes = replicate (unat buffer_size_bytes) 0\<rparr>)"

definition byte_buffer_set_used_size :: "byte_buffer \<Rightarrow> u64 \<Rightarrow> byte_buffer" where
  "byte_buffer_set_used_size buf sz =
     buf\<lparr>used_size := ucast (min sz (ucast (max_size buf)))\<rparr>"

definition buf_writable :: "byte_buffer \<Rightarrow> u32" where
  "buf_writable buf =
     (if level buf \<ge> used_size buf then 0
      else if write_idx buf < read_idx buf then read_idx buf - write_idx buf
      else used_size buf - write_idx buf)"

definition buf_readable :: "byte_buffer \<Rightarrow> u32" where
  "buf_readable buf =
     (if level buf = 0 then 0
      else if read_idx buf < write_idx buf then write_idx buf - read_idx buf
      else used_size buf - read_idx buf)"

definition buf_adjust_readable :: "byte_buffer \<Rightarrow> u64 \<Rightarrow> byte_buffer" where
  "buf_adjust_readable buf readable =
     (let lv = ucast (min readable (ucast (used_size buf)))
      in buf\<lparr>level := lv, write_idx := (read_idx buf + lv) mod used_size buf\<rparr>)"

definition buf_queued :: "byte_buffer \<Rightarrow> u32" where
  "buf_queued buf = level buf"

definition buf_available :: "byte_buffer \<Rightarrow> u32" where
  "buf_available buf = used_size buf - level buf"

definition buf_read_pointer :: "byte_buffer \<Rightarrow> nat" where
  \<comment> \<open>pointers into \<^verbatim>\<open>bytes\<close> are offsets from its start\<close>
  "buf_read_pointer buf = unat (read_idx buf)"

definition buf_read_pointer_size :: "byte_buffer \<Rightarrow> nat \<times> u32" where
  "buf_read_pointer_size buf = (buf_read_pointer buf, buf_readable buf)"

definition buf_increment_read :: "byte_buffer \<Rightarrow> u64 \<Rightarrow> byte_buffer" where
  "buf_increment_read buf inc0 =
     (let inc = min inc0 (ucast (level buf));
          r = (ucast (ucast (read_idx buf) + inc) :: u32)
      in buf\<lparr>read_idx := r mod used_size buf,
             level := ucast (ucast (level buf) - inc)\<rparr>)"

definition buf_write_pointer :: "byte_buffer \<Rightarrow> nat" where
  "buf_write_pointer buf = unat (write_idx buf)"

definition buf_write_pointer_size :: "byte_buffer \<Rightarrow> nat \<times> u32" where
  "buf_write_pointer_size buf = (buf_write_pointer buf, buf_writable buf)"

definition buf_increment_write :: "byte_buffer \<Rightarrow> u64 \<Rightarrow> byte_buffer" where
  "buf_increment_write buf inc =
     (let w = (ucast (ucast (write_idx buf) + inc) :: u32)
      in buf\<lparr>write_idx := w mod used_size buf,
             level := (if ucast (level buf) + inc < (ucast (used_size buf) :: u64)
                       then ucast (ucast (level buf) + inc) else used_size buf)\<rparr>)"

definition buf_reset :: "byte_buffer \<Rightarrow> byte_buffer" where
  "buf_reset buf = buf\<lparr>write_idx := 0, read_idx := 0, level := 0\<rparr>"

text \<open>What a caller does with the pointers: copy \<open>xs\<close> to the write pointer and advance it; copy
  \<open>n\<close> bytes from the read pointer and advance it.\<close>

definition buf_put :: "u8 list \<Rightarrow> byte_buffer \<Rightarrow> byte_buffer" where
  "buf_put xs buf =
     buf_increment_write (buf\<lparr>bytes := splice_at (bytes buf) (buf_write_pointer buf) xs\<rparr>)
       (of_nat (length xs))"

definition buf_get :: "nat \<Rightarrow> byte_buffer \<Rightarrow> u8 list \<times> byte_buffer" where
  "buf_get n buf =
     (take n (drop (buf_read_pointer buf) (bytes buf)), buf_increment_read buf (of_nat n))"

section \<open>Invariant and contents\<close>

text \<open>The bound \<open>2 ^ 31\<close> keeps \<^verbatim>\<open>write_idx + inc\<close>, which is stored in 32 bits before the
  \<^verbatim>\<open>%\<close>, from wrapping.\<close>

definition buf_wf :: "byte_buffer \<Rightarrow> bool" where
  "buf_wf buf \<longleftrightarrow>
     0 < unat (used_size buf) \<and> unat (used_size buf) \<le> 2 ^ 31 \<and>
     unat (used_size buf) \<le> unat (max_size buf) \<and>
     unat (max_size buf) \<le> length (bytes buf) \<and>
     unat (read_idx buf) < unat (used_size buf) \<and>
     unat (level buf) \<le> unat (used_size buf) \<and>
     unat (write_idx buf) =
       (unat (read_idx buf) + unat (level buf)) mod unat (used_size buf)"

definition buf_contents :: "byte_buffer \<Rightarrow> u8 list" where
  "buf_contents buf =
     map (\<lambda>i. bytes buf ! ((unat (read_idx buf) + i) mod unat (used_size buf)))
       [0..<unat (level buf)]"

lemma length_buf_contents [simp]: "length (buf_contents buf) = unat (level buf)"
  by (simp add: buf_contents_def)

lemma nth_buf_contents:
  "i < unat (level buf) \<Longrightarrow> buf_contents buf ! i =
     bytes buf ! ((unat (read_idx buf) + i) mod unat (used_size buf))"
  by (simp add: buf_contents_def)

section \<open>The operations on natural numbers\<close>

lemma buf_wf_bounds:
  assumes "buf_wf b"
  shows "0 < unat (used_size b)" "unat (used_size b) \<le> 2147483648"
    "unat (used_size b) \<le> length (bytes b)" "unat (read_idx b) < unat (used_size b)"
    "unat (level b) \<le> unat (used_size b)"
  using assms by (simp_all add: buf_wf_def)

lemma buf_wf_write_less: "buf_wf b \<Longrightarrow> unat (write_idx b) < unat (used_size b)"
  by (simp add: buf_wf_def)

lemma buf_writable_nat:
  assumes "buf_wf b"
  shows "unat (buf_writable b) =
    (if unat (used_size b) \<le> unat (level b) then 0
     else if unat (write_idx b) < unat (read_idx b) then unat (read_idx b) - unat (write_idx b)
     else unat (used_size b) - unat (write_idx b))"
  using buf_wf_write_less [OF assms]
  by (simp add: buf_writable_def word_le_nat_alt word_less_nat_alt unat_sub)

lemma buf_readable_nat:
  assumes "buf_wf b"
  shows "unat (buf_readable b) =
    (if unat (level b) = 0 then 0
     else if unat (read_idx b) < unat (write_idx b) then unat (write_idx b) - unat (read_idx b)
     else unat (used_size b) - unat (read_idx b))"
  using buf_wf_write_less [OF assms] assms
  by (simp add: buf_readable_def buf_wf_def word_le_nat_alt word_less_nat_alt unat_sub
      unat_eq_0)

lemma buf_available_nat:
  "buf_wf b \<Longrightarrow> unat (buf_available b) = unat (used_size b) - unat (level b)"
  by (simp add: buf_available_def buf_wf_def word_le_nat_alt unat_sub)

lemma buf_wf_write_idx:
  assumes "buf_wf b"
  shows "unat (write_idx b) =
    (if unat (read_idx b) + unat (level b) < unat (used_size b)
     then unat (read_idx b) + unat (level b)
     else unat (read_idx b) + unat (level b) - unat (used_size b))"
  using assms by (simp add: buf_wf_def mod_add_cases)

lemma buf_writable_le_available:
  "buf_wf b \<Longrightarrow> unat (buf_writable b) \<le> unat (used_size b) - unat (level b)"
  using buf_wf_write_idx [of b]
  by (auto simp: buf_writable_nat buf_wf_def split: if_splits)

lemma buf_readable_le_level: "buf_wf b \<Longrightarrow> unat (buf_readable b) \<le> unat (level b)"
  using buf_wf_write_idx [of b]
  by (auto simp: buf_readable_nat buf_wf_def split: if_splits)

lemma buf_increment_write_nat:
  assumes wf: "buf_wf b" and n: "unat n \<le> unat (used_size b) - unat (level b)"
  shows "unat (write_idx (buf_increment_write b n)) =
      (unat (write_idx b) + unat n) mod unat (used_size b)"
    and "unat (level (buf_increment_write b n)) = unat (level b) + unat n"
proof -
  have W: "unat (write_idx b) + unat n < 2 ^ 32" and L: "unat (level b) + unat n < 2 ^ 32"
    and le: "unat (level b) + unat n \<le> unat (used_size b)"
    using buf_wf_write_less [OF wf] buf_wf_bounds [OF wf] n by simp_all
  show "unat (write_idx (buf_increment_write b n)) =
      (unat (write_idx b) + unat n) mod unat (used_size b)"
    by (simp add: buf_increment_write_def unat_mod unat_ucast_add [OF W])
  show "unat (level (buf_increment_write b n)) = unat (level b) + unat n"
    using le by (simp add: buf_increment_write_def word_less_nat_alt unat_ucast_add [OF L]
        unat_ucast_add64 [OF L])
qed

lemma buf_increment_read_nat:
  assumes wf: "buf_wf b" and n: "unat n \<le> unat (level b)"
  shows "unat (read_idx (buf_increment_read b n)) =
      (unat (read_idx b) + unat n) mod unat (used_size b)"
    and "unat (level (buf_increment_read b n)) = unat (level b) - unat n"
proof -
  have m: "min n (ucast (level b)) = n"
    using n by (simp add: min_def word_le_nat_alt)
  have R: "unat (read_idx b) + unat n < 2 ^ 32"
    using wf n by (simp add: buf_wf_def)
  show "unat (read_idx (buf_increment_read b n)) =
      (unat (read_idx b) + unat n) mod unat (used_size b)"
    by (simp add: buf_increment_read_def m unat_mod unat_ucast_add [OF R])
  show "unat (level (buf_increment_read b n)) = unat (level b) - unat n"
    by (simp add: buf_increment_read_def m unat_ucast_sub [OF n])
qed

lemma buf_increment_frame [simp]:
  "used_size (buf_increment_write b n) = used_size b"
  "max_size (buf_increment_write b n) = max_size b"
  "bytes (buf_increment_write b n) = bytes b"
  "read_idx (buf_increment_write b n) = read_idx b"
  "used_size (buf_increment_read b n) = used_size b"
  "max_size (buf_increment_read b n) = max_size b"
  "bytes (buf_increment_read b n) = bytes b"
  "write_idx (buf_increment_read b n) = write_idx b"
  by (simp_all add: buf_increment_write_def buf_increment_read_def Let_def)

section \<open>Every operation keeps the invariant\<close>

lemma buf_increment_write_wf [cras_inv]:
  assumes wf: "buf_wf b" and n: "unat n \<le> unat (used_size b) - unat (level b)"
  shows "buf_wf (buf_increment_write b n)"
  using wf n buf_increment_write_nat [OF wf n]
  by (auto simp: buf_wf_def mod_simps add.assoc)

lemma buf_increment_read_wf [cras_inv]:
  assumes wf: "buf_wf b" and n: "unat n \<le> unat (level b)"
  shows "buf_wf (buf_increment_read b n)"
proof -
  have "((unat (read_idx b) + unat n) mod unat (used_size b) + (unat (level b) - unat n))
      mod unat (used_size b) =
      (unat (read_idx b) + unat n + (unat (level b) - unat n)) mod unat (used_size b)"
    by (rule mod_add_left_eq)
  also have "unat (read_idx b) + unat n + (unat (level b) - unat n) =
      unat (read_idx b) + unat (level b)"
    using n by simp
  also have "\<dots> mod unat (used_size b) = unat (write_idx b)"
    using wf by (simp add: buf_wf_def)
  finally have "((unat (read_idx b) + unat n) mod unat (used_size b) +
      (unat (level b) - unat n)) mod unat (used_size b) = unat (write_idx b)" .
  moreover have "unat (level b) - unat n \<le> unat (used_size b)"
    using buf_wf_bounds [OF wf] by simp
  ultimately show ?thesis
    using wf by (simp add: buf_wf_def buf_increment_read_nat [OF wf n])
qed

lemma buf_increment_read_clamp:
  "unat (level b) < unat n \<Longrightarrow> buf_increment_read b n = buf_increment_read b (ucast (level b))"
  by (simp add: buf_increment_read_def min_def word_le_nat_alt)

lemma buf_increment_read_wf_any [cras_inv]:
  assumes "buf_wf b"
  shows "buf_wf (buf_increment_read b n)"
proof (cases "unat n \<le> unat (level b)")
  case True
  with assms show ?thesis by (rule buf_increment_read_wf)
next
  case False
  then have "buf_increment_read b n = buf_increment_read b (ucast (level b))"
    by (intro buf_increment_read_clamp) simp
  also have "buf_wf \<dots>"
    using assms by (rule buf_increment_read_wf) simp
  finally show ?thesis .
qed

lemma buf_reset_wf [cras_inv]: "buf_wf b \<Longrightarrow> buf_wf (buf_reset b)"
  by (simp add: buf_reset_def buf_wf_def)

lemma buf_adjust_readable_wf [cras_inv]:
  assumes "buf_wf b"
  shows "buf_wf (buf_adjust_readable b n)"
proof -
  define lv :: u32 where "lv = ucast (min n (ucast (used_size b)))"
  have "unat (min n (ucast (used_size b)) :: u64) < 2 ^ 32"
    by (simp add: min_less_iff_disj)
  then have lv: "unat lv = min (unat n) (unat (used_size b))"
    by (simp add: lv_def unat_ucast_u32_u64)
  then have "unat (read_idx b) + unat lv < 2 ^ 32"
    using assms by (auto simp: buf_wf_def)
  then have "unat (read_idx b + lv) = unat (read_idx b) + unat lv"
    by (simp add: unat_add_small)
  then show ?thesis
    using assms lv
    by (simp add: buf_adjust_readable_def buf_wf_def unat_mod flip: lv_def)
qed

section \<open>The buffer is a queue of bytes\<close>

text \<open>Positions on the ring: a queued byte never lies in the region handed out for writing, and the
  \<open>j\<close>-th byte of that region is the \<open>j\<close>-th after the queued ones.\<close>

lemma ring_queued_not_writable:
  fixes R L U W n i :: nat
  assumes "R < U" "L \<le> U" "W = (R + L) mod U" "i < L"
    and "n \<le> (if U \<le> L then 0 else if W < R then R - W else U - W)"
  shows "\<not> (W \<le> (R + i) mod U \<and> (R + i) mod U < W + n)"
proof -
  have "(R + i) mod U = (if R + i < U then R + i else R + i - U)"
    using assms by (intro mod_add_cases) auto
  moreover have "W = (if R + L < U then R + L else R + L - U)"
    using assms by (simp add: mod_add_cases)
  ultimately show ?thesis
    using assms by (auto split: if_splits)
qed

lemma ring_writable_pos:
  fixes R L U W n j :: nat
  assumes "R < U" "L \<le> U" "W = (R + L) mod U" "j < n"
    and "n \<le> (if U \<le> L then 0 else if W < R then R - W else U - W)"
  shows "(R + (L + j)) mod U = W + j"
proof -
  have "W < U"
    using assms by simp
  then have "W + j < U"
    using assms by (auto split: if_splits)
  have "(R + (L + j)) mod U = (W + j) mod U"
    using assms by (simp add: add.assoc [symmetric] mod_add_left_eq)
  with \<open>W + j < U\<close> show ?thesis by simp
qed

lemma buf_write_region_in_bytes:
  "buf_wf b \<Longrightarrow> buf_write_pointer b + unat (buf_writable b) \<le> length (bytes b)"
  using buf_wf_write_less [of b] buf_wf_bounds [of b]
  by (auto simp: buf_write_pointer_def buf_writable_nat)

lemma buf_read_region_in_bytes:
  "buf_wf b \<Longrightarrow> buf_read_pointer b + unat (buf_readable b) \<le> length (bytes b)"
  using buf_wf_write_less [of b] buf_wf_bounds [of b]
  by (auto simp: buf_read_pointer_def buf_readable_nat)

lemma buf_put_wf_contents:
  assumes wf: "buf_wf b" and n: "length xs \<le> unat (buf_writable b)"
  shows "buf_wf (buf_put xs b)" "buf_contents (buf_put xs b) = buf_contents b @ xs"
proof -
  let ?b = "b\<lparr>bytes := splice_at (bytes b) (buf_write_pointer b) xs\<rparr>"
  have inb: "unat (write_idx b) + length xs \<le> length (bytes b)"
    using buf_write_region_in_bytes [OF wf] n by (simp add: buf_write_pointer_def)
  have len: "unat (of_nat (length xs) :: u64) = length xs"
    using n by (rule unat_of_nat_le_u32)
  have wf': "buf_wf ?b"
    using wf inb by (simp add: buf_wf_def buf_write_pointer_def)
  have room: "unat (of_nat (length xs) :: u64) \<le> unat (used_size ?b) - unat (level ?b)"
    using n buf_writable_le_available [OF wf] by (simp add: len)
  show "buf_wf (buf_put xs b)"
    unfolding buf_put_def by (rule buf_increment_write_wf [OF wf' room])
  have lv: "unat (level (buf_put xs b)) = unat (level b) + length xs"
    unfolding buf_put_def by (simp add: buf_increment_write_nat(2) [OF wf' room] len)
  note ring = buf_wf_bounds [OF wf] n [unfolded buf_writable_nat [OF wf]]
  have W: "unat (write_idx b) = (unat (read_idx b) + unat (level b)) mod unat (used_size b)"
    using wf by (simp add: buf_wf_def)
  show "buf_contents (buf_put xs b) = buf_contents b @ xs"
  proof (rule nth_equalityI)
    show "length (buf_contents (buf_put xs b)) = length (buf_contents b @ xs)"
      by (simp add: lv)
    fix i assume "i < length (buf_contents (buf_put xs b))"
    then have i: "i < unat (level b) + length xs" by (simp add: lv)
    let ?p = "(unat (read_idx b) + i) mod unat (used_size b)"
    have p: "?p < length (bytes b)"
      using ring by (meson mod_less_divisor order_less_le_trans)
    have "buf_contents (buf_put xs b) ! i = splice_at (bytes b) (unat (write_idx b)) xs ! ?p"
      using i by (simp add: nth_buf_contents lv) (simp add: buf_put_def buf_write_pointer_def)
    also have "\<dots> = (buf_contents b @ xs) ! i"
    proof (cases "i < unat (level b)")
      case True
      with ring_queued_not_writable [OF ring(4,5) W True ring(6)] show ?thesis
        using p inb by (auto simp: nth_splice_at nth_append nth_buf_contents)
    next
      case False
      then obtain j where j: "i = unat (level b) + j" "j < length xs"
        using i by (metis le_add_diff_inverse not_less nat_add_left_cancel_less)
      with ring_writable_pos [OF ring(4,5) W j(2) ring(6)] show ?thesis
        using p inb by (simp add: nth_splice_at nth_append)
    qed
    finally show "buf_contents (buf_put xs b) ! i = (buf_contents b @ xs) ! i" .
  qed
qed

lemma buf_get_wf_contents:
  assumes wf: "buf_wf b" and n: "n \<le> unat (buf_readable b)"
  shows "buf_wf (snd (buf_get n b))"
    "buf_contents b = fst (buf_get n b) @ buf_contents (snd (buf_get n b))"
proof -
  have len: "unat (of_nat n :: u64) = n"
    using n by (rule unat_of_nat_le_u32)
  have nl: "n \<le> unat (level b)"
    using n buf_readable_le_level [OF wf] by simp
  then have lv: "unat (of_nat n :: u64) \<le> unat (level b)"
    by (simp add: len)
  show "buf_wf (snd (buf_get n b))"
    unfolding buf_get_def by (simp add: buf_increment_read_wf [OF wf lv])
  have reg: "unat (read_idx b) + n \<le> unat (used_size b)"
    using n buf_wf_write_less [OF wf] buf_wf_bounds [OF wf]
    by (auto simp: buf_readable_nat [OF wf] split: if_splits)
  have fst: "length (fst (buf_get n b)) = n"
    using reg buf_wf_bounds [OF wf] by (simp add: buf_get_def buf_read_pointer_def)
  note nats = buf_increment_read_nat [OF wf lv, unfolded len]
  show "buf_contents b = fst (buf_get n b) @ buf_contents (snd (buf_get n b))"
  proof (rule nth_equalityI)
    show "length (buf_contents b) =
        length (fst (buf_get n b) @ buf_contents (snd (buf_get n b)))"
      using nl by (simp add: fst) (simp add: buf_get_def nats)
    fix i assume i: "i < length (buf_contents b)"
    show "buf_contents b ! i = (fst (buf_get n b) @ buf_contents (snd (buf_get n b))) ! i"
    proof (cases "i < n")
      case True
      with i reg buf_wf_bounds [OF wf] fst show ?thesis
        by (simp add: nth_append nth_buf_contents) (simp add: buf_get_def buf_read_pointer_def)
    next
      case False
      have "((unat (read_idx b) + n) mod unat (used_size b) + (i - n)) mod unat (used_size b) =
          (unat (read_idx b) + n + (i - n)) mod unat (used_size b)"
        by (rule mod_add_left_eq)
      with False i fst show ?thesis
        by (simp add: nth_append nth_buf_contents buf_get_def nats)
    qed
  qed
qed

section \<open>Properties\<close>

text \<open>A caller writes at most what is contiguously writable and reads at most what is contiguously
  readable.\<close>

definition buf_can_put :: "byte_buffer \<Rightarrow> u8 list \<Rightarrow> bool" where
  "buf_can_put b xs \<longleftrightarrow> length xs \<le> unat (buf_writable b)"

definition buf_can_get :: "byte_buffer \<Rightarrow> nat \<Rightarrow> bool" where
  "buf_can_get b n \<longleftrightarrow> n \<le> unat (buf_readable b)"

interpretation bb: fifo buf_wf buf_contents buf_can_put buf_can_get buf_put buf_get
  by unfold_locales
    (simp_all add: buf_put_wf_contents buf_get_wf_contents buf_can_put_def buf_can_get_def)

definition buf_run ::
    "u8 fifo_op list \<Rightarrow> byte_buffer \<Rightarrow> u8 list \<times> u8 list \<times> byte_buffer" where
  "buf_run = fifo_run buf_can_put buf_can_get buf_put buf_get"

lemma byte_buffer_create_wf:
  assumes "0 < unat sz" "unat sz \<le> 2 ^ 31"
  shows "\<exists>b. byte_buffer_create True sz = Some b \<and> buf_wf b \<and> buf_contents b = [] \<and>
    unat (used_size b) = unat sz"
  using assms
  by (simp add: byte_buffer_create_def buf_wf_def buf_contents_def unat_ucast_u32_u64)

text \<open>Claim C22.  Any sequence of writes and reads through the pointers of a byte buffer delivers
  exactly the bytes that were queued or accepted, in order: what was queued followed by what was
  accepted is what was delivered followed by what is still queued, and the buffer stays well
  formed.\<close>

theorem buf_run_fifo:
  assumes "buf_wf b" "buf_run ops b = (acc, del, b')"
  shows "buf_wf b' \<and> buf_contents b @ acc = del @ buf_contents b'"
  using bb.run_in_order [OF assms(1), of ops acc del b'] assms(2)
  by (simp add: buf_run_def)

definition sample_buffer :: byte_buffer where
  "sample_buffer = \<lparr>write_idx = 1, read_idx = 2, level = 2, max_size = 3, used_size = 3,
     bytes = [7, 8, 9]\<rparr>"

lemma sample_buffer_wf: "buf_wf sample_buffer"
  by (simp add: buf_wf_def sample_buffer_def)

definition sample_buffer2 :: byte_buffer where
  "sample_buffer2 = \<lparr>write_idx = 2, read_idx = 2, level = 3, max_size = 3, used_size = 3,
     bytes = [7, 1, 9]\<rparr>"

lemma sample_buffer_steps:
  "buf_writable sample_buffer = 1" "buf_put [1] sample_buffer = sample_buffer2"
  "buf_readable sample_buffer2 = 1"
  "buf_get 1 sample_buffer2 = ([9], sample_buffer2\<lparr>read_idx := 0, level := 2\<rparr>)"
  by (simp_all add: buf_writable_def buf_readable_def buf_put_def buf_get_def splice_at_def
      buf_increment_write_def buf_increment_read_def buf_write_pointer_def buf_read_pointer_def
      sample_buffer_def sample_buffer2_def Let_def)

lemma sample_buffer_run:
  "buf_run [Put [1], Get 1] sample_buffer =
     ([1], [9], sample_buffer2\<lparr>read_idx := 0, level := 2\<rparr>)"
  using sample_buffer_steps by (simp add: buf_run_def buf_can_put_def buf_can_get_def)

theorem buf_run_fifo_witness:
  "buf_contents sample_buffer @ [1] =
     [9] @ buf_contents (sample_buffer2\<lparr>read_idx := 0, level := 2\<rparr>)"
  using buf_run_fifo [OF sample_buffer_wf sample_buffer_run] by simp

text \<open>The regions handed out by \<^verbatim>\<open>buf_write_pointer_size\<close> and
  \<^verbatim>\<open>buf_read_pointer_size\<close> lie inside the array, they are empty only when the buffer is full or
  empty, and never claim more than is free or queued.\<close>

theorem buf_regions_safe:
  assumes "buf_wf b"
  shows "buf_write_pointer b + unat (buf_writable b) \<le> length (bytes b) \<and>
    buf_read_pointer b + unat (buf_readable b) \<le> length (bytes b) \<and>
    unat (buf_writable b) \<le> unat (buf_available b) \<and>
    unat (buf_readable b) \<le> unat (buf_queued b) \<and>
    (buf_writable b = 0 \<longleftrightarrow> buf_available b = 0) \<and> (buf_readable b = 0 \<longleftrightarrow> buf_queued b = 0)"
proof -
  have "unat (buf_writable b) = 0 \<longleftrightarrow> unat (buf_available b) = 0"
    using buf_wf_write_less [OF assms] buf_wf_bounds [OF assms]
    by (auto simp: buf_writable_nat [OF assms] buf_available_nat [OF assms])
  moreover have "unat (buf_readable b) = 0 \<longleftrightarrow> unat (level b) = 0"
    using buf_wf_write_less [OF assms] buf_wf_bounds [OF assms]
    by (auto simp: buf_readable_nat [OF assms])
  moreover have "unat (buf_available b) = 0 \<longleftrightarrow> buf_available b = 0"
    by (rule unat_eq_0)
  ultimately show ?thesis
    using buf_write_region_in_bytes [OF assms] buf_read_region_in_bytes [OF assms]
      buf_writable_le_available [OF assms] buf_readable_le_level [OF assms]
    by (simp add: buf_available_nat [OF assms] buf_queued_def unat_eq_0)
qed

theorem buf_regions_safe_witness:
  "buf_write_pointer sample_buffer + unat (buf_writable sample_buffer) \<le> 3"
  using buf_regions_safe [OF sample_buffer_wf] by (simp add: sample_buffer_def)

end
