(* ===== verification/Dev_Stream.thy ===== *)
theory Dev_Stream
  imports Rstream Fmt_Conv Audio_Area Byte_Buffer
begin

text \<open>
  \<^verbatim>\<open>server/dev_stream.c\<close>: a stream attached to a device, with the converter between their formats.  The record
  holds the stream it points to; an operation returns it changed.  Readings of the clock are arguments, in
  the order of the calls.  The samples of the mixer are described by its calls: where each takes its frames
  from and where it puts them.
\<close>

section \<open>Structure\<close>

record 'd dev_stream =
  ds_dev_id :: u32
  ds_stream :: "'d cras_rstream"
  ds_conv :: "cras_fmt_conv option"
  ds_conv_buffer :: byte_buffer
  ds_conv_area :: cras_audio_area
  ds_conv_buffer_size_frames :: u32
  ds_dev_rate :: u64
  ds_is_running :: bool

definition cras_get_format_bytes :: "(snd_pcm_format \<Rightarrow> nat) \<Rightarrow> cras_audio_format \<Rightarrow> u64" where
  "cras_get_format_bytes phys_width fmt = of_nat (phys_width (pcm_format fmt) div 8) * num_channels fmt"

definition max_frames_for_conversion :: "u32 \<Rightarrow> u32 \<Rightarrow> u32 \<Rightarrow> u32" where
  "max_frames_for_conversion stream_frames stream_rate device_rate =
     ucast (max (ucast stream_frames) (cras_frames_at_rate (ucast stream_rate) (ucast stream_frames) (ucast device_rate)) + 1)"

text \<open>\<open>ppfmt\<close> is what \<^verbatim>\<open>cras_rstream_post_processing_format\<close> returns and \<open>env\<close> says which
  allocations succeed.  The result is the new structure, or nothing when there is no converter.\<close>

definition dev_stream_create :: "rounding \<Rightarrow> (snd_pcm_format \<Rightarrow> nat) \<Rightarrow> fmt_conv_env \<Rightarrow> cras_audio_format option \<Rightarrow>
    (nat \<Rightarrow> 'd id_offset) \<Rightarrow> 'd cras_rstream \<Rightarrow> u32 \<Rightarrow> cras_audio_format \<Rightarrow> 'd option \<Rightarrow> timespec \<Rightarrow> 'd dev_stream option" where
  "dev_stream_create rnd phys_width env ppfmt junk s i dev_fmt ptr cb_ts =
     (let stream_fmt = rs_format s;
          max_frames = max_frames_for_conversion (ucast (buffer_frames s)) (ucast (frame_rate stream_fmt)) (ucast (frame_rate dev_fmt));
          (rc, conv) = (if direction s = CRAS_STREAM_OUTPUT
            then config_format_converter rnd phys_width env (direction s) stream_fmt dev_fmt max_frames
            else config_format_converter rnd phys_width env (direction s)
              (case ppfmt of Some f \<Rightarrow> f | None \<Rightarrow> dev_fmt) stream_fmt max_frames)
      in if rc \<noteq> 0 then None
         else case conv of None \<Rightarrow> None
         | Some c \<Rightarrow>
             let ofmt = out_fmt c;
                 dev_frames = (ucast (if direction s = CRAS_STREAM_OUTPUT
                   then cras_fmt_conv_in_frames_to_out rnd conv (buffer_frames s)
                   else cras_fmt_conv_out_frames_to_in rnd conv (buffer_frames s)) :: u32);
                 sz = (ucast (2 * max (ucast dev_frames) (buffer_frames s)) :: u32);
                 bytes = (ucast (ucast sz * cras_get_format_bytes phys_width ofmt) :: u32)
             in do {
               buf \<leftarrow> byte_buffer_create True (ucast bytes);
               s' \<leftarrow> cras_rstream_dev_attach junk i ptr
                 (s\<lparr>sleep_interval_ts := cras_frames_to_time (ucast (cb_threshold s)) (ucast (frame_rate stream_fmt)),
                    next_cb_ts := cb_ts\<rparr>);
               Some \<lparr>ds_dev_id = i, ds_stream = s', ds_conv = conv, ds_conv_buffer = buf,
                 ds_conv_area = cras_audio_area_create (unat (num_channels ofmt)),
                 ds_conv_buffer_size_frames = sz, ds_dev_rate = frame_rate dev_fmt, ds_is_running = False\<rparr> })"

definition dev_stream_destroy :: "'d dev_stream \<Rightarrow> 'd cras_rstream" where
  "dev_stream_destroy ds = cras_rstream_dev_detach (ds_dev_id ds) (ds_stream ds)"

text \<open>Rates of type \<^verbatim>\<open>double\<close> are rounded by \<open>dbl\<close>.\<close>

definition cras_frames_to_time_precise :: "rounding \<Rightarrow> u32 \<Rightarrow> rat \<Rightarrow> timespec" where
  "cras_frames_to_time_precise dbl frames rate =
     (let seconds = dbl (of_int (uint frames) / rate); sec = uint (to_unsigned seconds)
      in Timespec sec (uint (to_unsigned (dbl (dbl (seconds - of_int sec) * 1000000000)))))"

definition dev_stream_set_dev_rate :: "rounding \<Rightarrow> rounding \<Rightarrow> u32 \<Rightarrow> rat \<Rightarrow> rat \<Rightarrow> int \<Rightarrow> 'd dev_stream \<Rightarrow> 'd dev_stream" where
  "dev_stream_set_dev_rate rnd dbl rate dev_rate_ratio master_rate_ratio coarse_rate_adjust ds =
     (let r = rnd (of_int (uint rate)); s = ds_stream ds in
      if ds_dev_id ds = m_dev_id (master_dev s)
      then ds\<lparr>ds_conv := map_option (cras_fmt_conv_set_linear_resample_rates rnd r r) (ds_conv ds),
              ds_stream := s\<lparr>sleep_interval_ts := cras_frames_to_time_precise dbl (ucast (cb_threshold s))
                (dbl (dbl (of_int (uint (frame_rate (rs_format s)))) * dev_rate_ratio))\<rparr>\<rparr>
      else let new_rate = dbl (dbl (dbl (of_int (uint rate) * dev_rate_ratio) / master_rate_ratio) + of_int (3 * coarse_rate_adjust))
        in ds\<lparr>ds_conv := map_option (cras_fmt_conv_set_linear_resample_rates rnd r (rnd new_rate)) (ds_conv ds)\<rparr>)"

section \<open>Levels\<close>

definition dev_stream_attached_devs :: "'d dev_stream \<Rightarrow> int" where
  "dev_stream_attached_devs ds = num_attached_devs (ds_stream ds)"

definition dev_stream_update_frames :: "'d dev_stream \<Rightarrow> 'd dev_stream" where
  "dev_stream_update_frames ds = ds\<lparr>ds_stream := cras_rstream_update_queued_frames (ds_stream ds)\<rparr>"

definition dev_stream_playback_frames :: "rounding \<Rightarrow> 'd dev_stream \<Rightarrow> int" where
  "dev_stream_playback_frames rnd ds =
     (let frames = sint (cras_rstream_playable_frames (ds_stream ds) (ds_dev_id ds)) in
      if frames < 0 then frames
      else case ds_conv ds of None \<Rightarrow> frames
      | Some c \<Rightarrow> sint (ucast (cras_fmt_conv_in_frames_to_out rnd (Some c) (of_int frames)) :: u32))"

definition dev_stream_cb_threshold :: "rounding \<Rightarrow> 'd dev_stream \<Rightarrow> u32" where
  "dev_stream_cb_threshold rnd ds =
     (let s = ds_stream ds; thr = (ucast (cb_threshold s) :: u32)
      in ucast (if direction s = CRAS_STREAM_OUTPUT then cras_fmt_conv_in_frames_to_out rnd (ds_conv ds) (ucast thr)
                else cras_fmt_conv_out_frames_to_in rnd (ds_conv ds) (ucast thr)))"

definition dev_stream_capture_avail :: "rounding \<Rightarrow> (snd_pcm_format \<Rightarrow> nat) \<Rightarrow> 'd dev_stream \<Rightarrow> u32" where
  "dev_stream_capture_avail rnd phys_width ds =
     (let s = ds_stream ds;
          wlimit = ucast (cras_rstream_get_max_write_frames s) - cras_rstream_dev_offset s (ds_dev_id ds);
          frames_avail = snd (cras_shm_get_writeable_frames (shm s) wlimit)
      in case ds_conv ds of None \<Rightarrow> frames_avail
      | Some c \<Rightarrow>
          let fb = (ucast (cras_get_format_bytes phys_width (out_fmt c)) :: u32);
              lv = buf_queued (ds_conv_buffer ds) div fb
          in if frames_avail \<le> lv then 0
             else ucast (cras_fmt_conv_out_frames_to_in rnd (Some c)
               (ucast (min (frames_avail - lv) (buf_available (ds_conv_buffer ds) div fb)))))"

section \<open>Playback\<close>

text \<open>A call of \<^verbatim>\<open>cras_mix_add\<close>: the frames come from the samples of the stream at a position, or from the buffer
  of the converter; they are added to the device buffer at an offset.\<close>

record mix_call =
  mix_src :: "nat option"
  mix_dst :: nat
  mix_frames :: u32
  mix_mute :: bool
  mix_vol :: c_float

record 'd mix_state =
  ms_ds :: "'d dev_stream"
  ms_written :: u32
  ms_read :: u32
  ms_target :: nat
  ms_calls :: "mix_call list"

definition mix_round :: "rounding \<Rightarrow> (u32 \<Rightarrow> u32 \<Rightarrow> u32 \<times> u32) \<Rightarrow> (snd_pcm_format \<Rightarrow> nat) \<Rightarrow> cras_audio_format \<Rightarrow> u32 \<Rightarrow>
    nat option \<Rightarrow> u64 \<Rightarrow> 'd mix_state \<Rightarrow> 'd mix_state option" where
  \<comment> \<open>the body of the loop, once there are frames to read\<close>
  "mix_round rnd speex phys_width fmt num_to_write src frames m =
     (let ds = ms_ds m; s = ds_stream ds in
      do {
        c \<leftarrow> ds_conv ds;
        (dev_frames, read_frames, src', ds') \<leftarrow>
          (if cras_fmt_conversion_needed c
           then map_option (\<lambda>(n, k, c', ss). (k, n, None, ds\<lparr>ds_conv := Some c'\<rparr>))
             (cras_fmt_conv_convert_frames rnd speex c (ucast frames) (ucast (num_to_write - ms_written m)))
           else let k = (ucast (min frames (ucast (num_to_write - ms_written m))) :: u32) in Some (k, k, src, ds));
        Some (m\<lparr>ms_ds := ds', ms_written := ms_written m + dev_frames, ms_read := ms_read m + read_frames,
          ms_target := ms_target m + unat (ucast dev_frames * cras_get_format_bytes phys_width fmt),
          ms_calls := ms_calls m @ [\<lparr>mix_src = src', mix_dst = ms_target m, mix_frames = dev_frames,
            mix_mute = cras_rstream_get_mute s, mix_vol = cras_rstream_get_volume_scaler s\<rparr>]\<rparr>) })"

partial_function (option) mix_loop :: "rounding \<Rightarrow> (u32 \<Rightarrow> u32 \<Rightarrow> u32 \<times> u32) \<Rightarrow> (snd_pcm_format \<Rightarrow> nat) \<Rightarrow>
    cras_audio_format \<Rightarrow> u32 \<Rightarrow> u32 \<Rightarrow> 'd mix_state \<Rightarrow> 'd mix_state option" where
  "mix_loop rnd speex phys_width fmt num_to_write offs m =
     (if \<not> ms_written m < num_to_write then Some m
      else let r = cras_rstream_get_readable_frames (ds_stream (ms_ds m)) (offs + ms_read m)
        in if snd r = 0 then Some m
           else do { m' \<leftarrow> mix_round rnd speex phys_width fmt num_to_write (fst r) (snd r) m;
                     mix_loop rnd speex phys_width fmt num_to_write offs m' })"

declare mix_loop.simps [code]

definition dev_stream_mix :: "rounding \<Rightarrow> (u32 \<Rightarrow> u32 \<Rightarrow> u32 \<times> u32) \<Rightarrow> (snd_pcm_format \<Rightarrow> nat) \<Rightarrow> cras_audio_format \<Rightarrow> u32 \<Rightarrow>
    'd dev_stream \<Rightarrow> (int \<times> mix_call list \<times> 'd dev_stream) option" where
  "dev_stream_mix rnd speex phys_width fmt num_to_write ds =
     (let fr_in_buf = dev_stream_playback_frames rnd ds in
      if fr_in_buf \<le> 0 then Some (fr_in_buf, [], ds)
      else let num = min (of_int fr_in_buf) num_to_write;
               offs = cras_rstream_dev_offset (ds_stream ds) (ds_dev_id ds)
        in map_option (\<lambda>m. (uint (ms_written m), ms_calls m,
               (ms_ds m)\<lparr>ds_stream := cras_rstream_dev_offset_update (ms_read m) (ds_dev_id ds) (ds_stream (ms_ds m))\<rparr>))
             (mix_loop rnd speex phys_width fmt num offs
               \<lparr>ms_ds = ds, ms_written = 0, ms_read = 0, ms_target = 0, ms_calls = []\<rparr>))"

definition dev_stream_playback_update_rstream :: "'d dev_stream \<Rightarrow> int \<times> 'd dev_stream" where
  "dev_stream_playback_update_rstream ds = (0, ds\<lparr>ds_stream := cras_rstream_update_output_read_pointer (ds_stream ds)\<rparr>)"

section \<open>Capture\<close>

text \<open>Captured frames go through the converter into the ring buffer \<open>ds_conv_buffer\<close>.\<close>

partial_function (option) capture_loop :: "rounding \<Rightarrow> (u32 \<Rightarrow> u32 \<Rightarrow> u32 \<times> u32) \<Rightarrow> u32 \<Rightarrow> u32 \<Rightarrow> cras_fmt_conv \<times> byte_buffer \<Rightarrow> u32 \<Rightarrow>
    (u32 \<times> cras_fmt_conv \<times> byte_buffer) option" where
  "capture_loop rnd speex fb num_frames s total_read =
     (if \<not> total_read < num_frames then Some (total_read, s)
      else let write_frames = snd (buf_write_pointer_size (snd s)) div fb
        in if write_frames = 0 then Some (total_read, s)
           else do {
             r \<leftarrow> cras_fmt_conv_convert_frames rnd speex (fst s) (num_frames - total_read) (ucast write_frames);
             capture_loop rnd speex fb num_frames
               (fst (snd (snd r)), buf_increment_write (snd s) (ucast (fst (snd r) * fb)))
               (total_read + fst r) })"

declare capture_loop.simps [code]

definition capture_with_fmt_conv :: "rounding \<Rightarrow> (u32 \<Rightarrow> u32 \<Rightarrow> u32 \<times> u32) \<Rightarrow> (snd_pcm_format \<Rightarrow> nat) \<Rightarrow> u32 \<Rightarrow> 'd dev_stream \<Rightarrow>
    (u32 \<times> 'd dev_stream) option" where
  "capture_with_fmt_conv rnd speex phys_width num_frames ds =
     do {
       c \<leftarrow> ds_conv ds;
       let fb = (ucast (cras_get_format_bytes phys_width (out_fmt c)) :: u32);
       (n, c', buf) \<leftarrow> capture_loop rnd speex fb num_frames (c, ds_conv_buffer ds) 0;
       Some (n, ds\<lparr>ds_conv := Some c', ds_conv_buffer := buf,
         ds_conv_area := (ds_conv_area ds)\<lparr>area_num_channels := ucast (num_channels (out_fmt c))\<rparr>\<rparr>) }"

text \<open>From the ring buffer to the stream.  A copy is recorded with the position in the ring, the offset in frames from
  the write pointer of the stream and the number of frames.\<close>

record conv_copy =
  cc_src :: nat
  cc_offset :: u32
  cc_frames :: u32

partial_function (option) copy_loop :: "u32 \<Rightarrow> u32 \<Rightarrow> u32 \<Rightarrow> byte_buffer \<times> 'd cras_rstream \<times> conv_copy list \<Rightarrow> u32 \<Rightarrow>
    (byte_buffer \<times> 'd cras_rstream \<times> conv_copy list) option" where
  "copy_loop i fb num_frames st total_written =
     (if \<not> total_written < num_frames then Some st
      else let (buf, s, cps) = st;
               (pos, avail) = buf_read_pointer_size buf;
               write_frames = min (avail div fb) (num_frames - total_written);
               cp = \<lparr>cc_src = pos, cc_offset = cras_rstream_dev_offset s i, cc_frames = write_frames\<rparr>
        in copy_loop i fb num_frames
             (buf_increment_read buf (ucast (write_frames * fb)), cras_rstream_dev_offset_update write_frames i s, cps @ [cp])
             (total_written + write_frames))"

declare copy_loop.simps [code]

definition capture_copy_converted_to_stream :: "(snd_pcm_format \<Rightarrow> nat) \<Rightarrow> 'd dev_stream \<Rightarrow>
    (u32 \<times> conv_copy list \<times> 'd dev_stream) option" where
  "capture_copy_converted_to_stream phys_width ds =
     do {
       c \<leftarrow> ds_conv ds;
       let fb = (ucast (cras_get_format_bytes phys_width (out_fmt c)) :: u32);
       let s = ds_stream ds;
       let frames = snd (cras_shm_get_writeable_frames (shm s) (ucast (cb_threshold s)));
       let num_frames = min (frames - cras_rstream_dev_offset s (ds_dev_id ds)) (buf_queued (ds_conv_buffer ds) div fb);
       (buf, s', cps) \<leftarrow> copy_loop (ds_dev_id ds) fb num_frames (ds_conv_buffer ds, s, []) 0;
       Some (num_frames, cps, ds\<lparr>ds_conv_buffer := buf, ds_stream := s'\<rparr>) }"

text \<open>What \<^verbatim>\<open>dev_stream_capture\<close> writes: copies from the ring, or the calls of \<^verbatim>\<open>cras_audio_area_copy\<close> from the area of
  the device to the samples of the stream.\<close>

datatype capture_effect = Converted "conv_copy list" | Direct "stride_call list"

definition stream_area :: "(snd_pcm_format \<Rightarrow> nat) \<Rightarrow> cras_audio_area \<Rightarrow> 'd cras_rstream \<Rightarrow> cras_audio_area" where
  \<comment> \<open>\<^verbatim>\<open>rstream->audio_area\<close> pointed at the write pointer\<close>
  "stream_area phys_width rs_area s =
     (let (pos, frames) = cras_shm_get_writeable_frames (shm s) (ucast (cb_threshold s))
      in cras_audio_area_config_buf_pointers phys_width (rs_area\<lparr>area_frames := frames\<rparr>) (rs_format s) pos)"

definition dev_stream_capture :: "rounding \<Rightarrow> (u32 \<Rightarrow> u32 \<Rightarrow> u32 \<times> u32) \<Rightarrow> (snd_pcm_format \<Rightarrow> nat) \<Rightarrow> cras_audio_area \<Rightarrow>
    cras_audio_area \<Rightarrow> u32 \<Rightarrow> 'd dev_stream \<Rightarrow> (u32 \<times> capture_effect \<times> 'd dev_stream) option" where
  \<comment> \<open>the fourth argument is \<^verbatim>\<open>rstream->audio_area\<close>, the fifth the area of the device\<close>
  "dev_stream_capture rnd speex phys_width rs_area dev_area area_offset ds =
     do {
       c \<leftarrow> ds_conv ds;
       if cras_fmt_conversion_needed c
       then do {
         let n = min (dev_stream_capture_avail rnd phys_width ds) (area_frames dev_area - area_offset);
         (nread, ds1) \<leftarrow> capture_with_fmt_conv rnd speex phys_width n ds;
         (w, cps, ds2) \<leftarrow> capture_copy_converted_to_stream phys_width ds1;
         Some (nread, Converted cps, ds2) }
       else
         let s = ds_stream ds;
             (nread, calls) = cras_audio_area_copy (stream_area phys_width rs_area s) (cras_rstream_dev_offset s (ds_dev_id ds))
               dev_area area_offset
         in Some (nread, Direct calls, ds\<lparr>ds_stream := cras_rstream_dev_offset_update nread (ds_dev_id ds) s\<rparr>) }"

section \<open>The schedule of callbacks\<close>

definition cras_server_metrics_missed_cb_event :: "timespec \<Rightarrow> 'd cras_rstream \<Rightarrow> 'd cras_rstream" where
  \<comment> \<open>what it leaves in the stream\<close>
  "cras_server_metrics_missed_cb_event now s =
     (let s1 = s\<lparr>num_missed_cb := num_missed_cb s + 1\<rparr>
      in if num_missed_cb s1 = 1 then s1\<lparr>first_missed_cb_ts := now\<rparr> else s1)"

definition check_next_wake_time :: "timespec \<Rightarrow> timespec \<Rightarrow> 'd cras_rstream \<Rightarrow> 'd cras_rstream" where
  "check_next_wake_time now now2 s =
     (if timespec_after now (next_cb_ts s)
      then cras_server_metrics_missed_cb_event now2 (s\<lparr>next_cb_ts := add_timespecs now (sleep_interval_ts s)\<rparr>)
      else s)"

definition dev_stream_update_next_wake_time :: "timespec \<Rightarrow> timespec \<Rightarrow> 'd cras_rstream \<Rightarrow> 'd cras_rstream" where
  "dev_stream_update_next_wake_time now now2 s =
     (if direction s = CRAS_STREAM_INPUT \<and> \<not> timespec_is_nonzero (Some (next_cb_ts s))
      then s\<lparr>next_cb_ts := add_timespecs now (sleep_interval_ts s)\<rparr>
      else check_next_wake_time now now2 (s\<lparr>next_cb_ts := add_timespecs (next_cb_ts s) (sleep_interval_ts s)\<rparr>))"

definition late_enough_for_capture_callback :: "timespec \<Rightarrow> 'd cras_rstream \<Rightarrow> bool" where
  "late_enough_for_capture_callback now s \<longleftrightarrow> timespec_after (add_timespecs now (Timespec 0 1000000)) (next_cb_ts s)"

definition dev_stream_capture_update_rstream :: "timespec \<Rightarrow> timespec \<Rightarrow> timespec \<Rightarrow> int \<Rightarrow> 'd cras_rstream \<Rightarrow>
    int \<times> audio_message option \<times> 'd cras_rstream" where
  "dev_stream_capture_update_rstream now now1 now2 write_rc s =
     (if flags s AND TRIGGER_ONLY \<noteq> 0 \<and> triggered s then (0, None, s)
      else let s1 = cras_rstream_update_input_write_pointer s in
        if flags s1 AND BULK_AUDIO_OK = 0 \<and> \<not> late_enough_for_capture_callback now s1 then (0, None, s1)
        else if \<not> cras_rstream_input_level_met s1 then (0, None, s1)
        else let frames_ready = (if flags s1 AND BULK_AUDIO_OK \<noteq> 0 then cras_rstream_level s1 else ucast (cb_threshold s1));
                 (rc, msg, s2) = cras_rstream_audio_ready write_rc (ucast frames_ready) s1
          in if rc < 0 then (rc, msg, s2)
             else let s3 = (if flags s2 AND TRIGGER_ONLY \<noteq> 0 then s2\<lparr>triggered := True\<rparr> else s2)
               in (0, msg, dev_stream_update_next_wake_time now1 now2 s3))"

definition dev_stream_request_playback_samples :: "timespec \<Rightarrow> timespec \<Rightarrow> timespec \<Rightarrow> int \<Rightarrow> 'd cras_rstream \<Rightarrow>
    int \<times> audio_message option \<times> 'd cras_rstream" where
  "dev_stream_request_playback_samples now now1 now2 write_rc s =
     (let (rc, msg, s1) = cras_rstream_request_audio write_rc now s
      in if rc < 0 then (rc, msg, s1) else (0, msg, dev_stream_update_next_wake_time now1 now2 s1))"

definition dev_stream_poll_stream_fd :: "'d cras_rstream \<Rightarrow> int" where
  "dev_stream_poll_stream_fd s =
     (if cras_stream_uses_input_hw (direction s) \<and> flags s AND USE_DEV_TIMING \<noteq> 0 \<and> cras_rstream_is_pending_reply s then fd s
      else if \<not> cras_stream_uses_output_hw (direction s) \<or> \<not> cras_rstream_is_pending_reply s \<or> is_draining s \<noteq> 0 then - 1
      else fd s)"

definition get_input_wake_time :: "rounding \<Rightarrow> (snd_pcm_format \<Rightarrow> nat) \<Rightarrow> u32 \<Rightarrow> timespec \<Rightarrow> u32 \<Rightarrow> bool \<Rightarrow> 'd dev_stream \<Rightarrow>
    int \<times> timespec option" where
  "get_input_wake_time rnd phys_width curr_level level_tstamp cap_limit is_cap_limit_stream ds =
     (let s = ds_stream ds; needed = dev_stream_capture_avail rnd phys_width ds in
      if \<not> is_cap_limit_stream \<and> needed > cap_limit then (1, None)
      else if flags s AND USE_DEV_TIMING \<noteq> 0 \<and> cras_rstream_is_pending_reply s then (1, None)
      else let needed' = (if curr_level \<ge> needed then 0 else needed - curr_level);
               time_for_sample = add_timespecs (cras_frames_to_time needed' (ucast (ds_dev_rate ds))) level_tstamp;
               wake = (if timespec_after time_for_sample (next_cb_ts s) then time_for_sample else next_cb_ts s)
        in (0, Some (if flags s AND USE_DEV_TIMING \<noteq> 0 then time_for_sample else wake)))"

definition dev_stream_wake_time :: "rounding \<Rightarrow> (snd_pcm_format \<Rightarrow> nat) \<Rightarrow> u32 \<Rightarrow> timespec \<Rightarrow> u32 \<Rightarrow> bool \<Rightarrow> 'd dev_stream \<Rightarrow>
    int \<times> timespec option" where
  "dev_stream_wake_time rnd phys_width curr_level level_tstamp cap_limit is_cap_limit_stream ds =
     (if direction (ds_stream ds) = CRAS_STREAM_OUTPUT then (- EINVAL, None)
      else get_input_wake_time rnd phys_width curr_level level_tstamp cap_limit is_cap_limit_stream ds)"

definition dev_stream_is_pending_reply :: "'d dev_stream \<Rightarrow> bool" where
  "dev_stream_is_pending_reply ds = cras_rstream_is_pending_reply (ds_stream ds)"

section \<open>Time stamps\<close>

function playback_carry :: "int \<Rightarrow> int \<Rightarrow> int \<times> int" where
  "playback_carry s n = (if n > 1000000000 then playback_carry (s + 1) (n - 1000000000) else (s, n))"
  by auto
termination
  by (relation "measure (\<lambda>(s, n). nat n)") auto

function capture_borrow :: "int \<Rightarrow> int \<Rightarrow> int \<times> int" where
  "capture_borrow s t = (if t > 1000000000 then capture_borrow (s - 1) (t - 1000000000) else (s, t))"
  by auto
termination
  by (relation "measure (\<lambda>(s, t). nat t)") auto

declare playback_carry.simps [simp del] capture_borrow.simps [simp del]

definition cras_set_playback_timestamp :: "int \<times> int \<Rightarrow> u64 \<Rightarrow> u64 \<Rightarrow> int \<times> int" where
  "cras_set_playback_timestamp now rate frames =
     playback_carry (fst now) (snd now + uint (frames * 1000000000 div rate))"

definition cras_set_capture_timestamp :: "int \<times> int \<Rightarrow> u64 \<Rightarrow> u64 \<Rightarrow> int \<times> int" where
  "cras_set_capture_timestamp now rate frames =
     (let (s, t) = capture_borrow (fst now) (sint (frames * (1000000000 div rate)))
      in if snd now \<ge> t then (s, snd now - t) else (s - 1, 1000000000 - (t - snd now)))"

definition dev_stream_set_delay :: "rounding \<Rightarrow> int \<times> int \<Rightarrow> u32 \<Rightarrow> 'd dev_stream \<Rightarrow> 'd dev_stream" where
  "dev_stream_set_delay rnd now delay_frames ds =
     (let s = ds_stream ds; rate = frame_rate (rs_format s);
          set_ts = (\<lambda>t. ds\<lparr>ds_stream := s\<lparr>shm := upd_header (\<lambda>h. h\<lparr>ts := t\<rparr>) (shm s)\<rparr>\<rparr>)
      in if direction s = CRAS_STREAM_OUTPUT
         then let n = (ucast (cras_fmt_conv_out_frames_to_in rnd (ds_conv ds) (ucast delay_frames)) :: u32)
           in set_ts (cras_set_playback_timestamp now rate (ucast (n + of_int (cras_shm_get_frames (shm s)))))
         else let n = (ucast (cras_fmt_conv_in_frames_to_out rnd (ds_conv ds) (ucast delay_frames)) :: u32)
           in if cras_shm_frames_written (shm s) = 0 then set_ts (cras_set_capture_timestamp now rate (ucast n)) else ds)"


lemma word_eq_unatI: "unat v = unat w \<Longrightarrow> v = w"
  by (rule unsigned_word_eqI)

section \<open>Playback without conversion\<close>

fun contiguous :: "nat \<Rightarrow> nat \<Rightarrow> mix_call list \<Rightarrow> bool" where
  "contiguous fb t [] \<longleftrightarrow> True"
| "contiguous fb t (c # cs) \<longleftrightarrow> mix_dst c = t \<and> contiguous fb (t + unat (mix_frames c) * fb) cs"

definition call_bytes :: "cras_audio_shm \<Rightarrow> mix_call \<Rightarrow> u8 list" where
  "call_bytes sh c = (case mix_src c of None \<Rightarrow> [] | Some p \<Rightarrow> take (unat (mix_frames c) * fby sh) (drop p (samples sh)))"

lemma take_split: "n = a + b \<Longrightarrow> take n xs = take a xs @ take b (drop a xs)"
  by (simp add: take_add)

lemma unat_less_eq_diff: "(w :: u32) \<le> num \<Longrightarrow> unat (num - w) = unat num - unat w"
  by (simp add: unat_sub)

lemma room_small:
  assumes "shm_inv sh" and "n * fby sh \<le> length (shm_queue sh)"
  shows "n < 2147483648"
proof -
  have "0 < fby sh" using layoutD(6) [of sh] assms(1) by (simp add: shm_inv_def)
  then have "n \<le> n * fby sh" by simp
  then show ?thesis using assms(2) shm_queue_bound [OF assms(1)] by linarith
qed

text \<open>One round of the loop: at least one frame is handed to the mixer, the next ones of the queue.\<close>

lemma mix_round_queue:
  fixes num offs :: u32
  assumes inv: "shm_inv (shm (ds_stream ds))" and conv: "ds_conv ds = Some c" "\<not> cras_fmt_conversion_needed c"
    and fb: "unat (cras_get_format_bytes phys_width fmt) = fby (shm (ds_stream ds))"
    and room: "(unat offs + unat num) * fby (shm (ds_stream ds)) \<le> length (shm_queue (shm (ds_stream ds)))"
    and m: "ms_ds m = ds" "ms_read m = ms_written m" "ms_written m < num"
  obtains k cl where "0 < unat k" "unat (ms_written m) + unat k \<le> unat num"
    "mix_loop rnd speex phys_width fmt num offs m = mix_loop rnd speex phys_width fmt num offs
       (m\<lparr>ms_written := ms_written m + k, ms_read := ms_read m + k,
          ms_target := ms_target m + unat k * fby (shm (ds_stream ds)), ms_calls := ms_calls m @ [cl]\<rparr>)"
    "mix_dst cl = ms_target m" "mix_frames cl = k"
    "call_bytes (shm (ds_stream ds)) cl = take (unat k * fby (shm (ds_stream ds)))
       (drop ((unat offs + unat (ms_written m)) * fby (shm (ds_stream ds))) (shm_queue (shm (ds_stream ds))))"
proof -
  define sh where "sh = shm (ds_stream ds)"
  define w where "w = ms_written m"
  have wn: "unat w < unat num" using m(3) by (simp add: w_def word_less_nat_alt)
  have fbp: "0 < fby sh" using layoutD(6) [of sh] inv by (simp add: sh_def shm_inv_def)
  have ow: "unat (offs + w) = unat offs + unat w"
    using room_small [OF inv room] wn by (intro unat_add_small) simp
  have "(unat offs + unat w) * fby sh < (unat offs + unat num) * fby sh" using wn fbp by (intro mult_less_mono1) simp_all
  also have "\<dots> \<le> length (shm_queue sh)" using room by (simp add: sh_def)
  finally have lt: "unat (ucast (offs + w) :: u64) * fby sh < length (shm_queue sh)" using ow by simp
  obtain p n where r: "cras_shm_get_readable_frames sh (ucast (offs + w)) = (Some p, n)" "n \<noteq> 0"
    "take (unat n * fby sh) (drop p (samples sh)) =
       take (unat n * fby sh) (drop (unat (ucast (offs + w) :: u64) * fby sh) (shm_queue sh))"
    using readable_frames_queue [OF inv [folded sh_def] lt] by blast
  define k where "k = (ucast (min n (ucast (num - w))) :: u32)"
  have nw: "unat (num - w) = unat num - unat w" using m(3) by (simp add: w_def unat_sub)
  have "unat (min n (ucast (num - w))) = min (unat n) (unat num - unat w)" by (simp add: nw)
  then have uk: "unat k = min (unat n) (unat num - unat w)"
    unfolding k_def by (subst unat_ucast_u32_u64) (simp add: less_imp_diff_less min.strict_coboundedI2)
  define cl where "cl = \<lparr>mix_src = Some p, mix_dst = ms_target m, mix_frames = k,
    mix_mute = cras_rstream_get_mute (ds_stream ds), mix_vol = cras_rstream_get_volume_scaler (ds_stream ds)\<rparr>"
  have "unat k * fby sh < 2 ^ 64"
    by (rule less_le_trans [OF mult_strict_mono [of "unat k" "2 ^ 32" "fby sh" "2 ^ 32"]]) simp_all
  then have t: "unat (ucast k * cras_get_format_bytes phys_width fmt) = unat k * fby sh"
    using fb by (subst unat_mult_small) (simp_all add: sh_def)
  have same: "m\<lparr>ms_ds := ds, ms_written := a, ms_read := b, ms_target := t, ms_calls := l\<rparr> =
      m\<lparr>ms_written := a, ms_read := b, ms_target := t, ms_calls := l\<rparr>" for a b t l
    using m(1) by (cases m) simp
  have step: "mix_loop rnd speex phys_width fmt num offs m = mix_loop rnd speex phys_width fmt num offs
       (m\<lparr>ms_written := w + k, ms_read := w + k, ms_target := ms_target m + unat k * fby sh, ms_calls := ms_calls m @ [cl]\<rparr>)"
    using m r(1,2) conv t
    by (subst mix_loop.simps) (simp add: w_def [symmetric] sh_def [symmetric] cras_rstream_get_readable_frames_def mix_round_def
        k_def [symmetric] cl_def [symmetric] same)
  have "take (unat k * fby sh) (drop p (samples sh)) = take (unat k * fby sh) (take (unat n * fby sh) (drop p (samples sh)))"
    using uk by (simp add: min_def mult_le_mono1)
  also have "\<dots> = take (unat k * fby sh) (drop ((unat offs + unat w) * fby sh) (shm_queue sh))"
    using uk by (simp add: r(3) ow min_def mult_le_mono1)
  finally have "call_bytes sh cl = take (unat k * fby sh) (drop ((unat offs + unat w) * fby sh) (shm_queue sh))"
    by (simp add: call_bytes_def cl_def)
  moreover have "0 < unat k" "unat w + unat k \<le> unat num" using uk r(2) wn by (simp_all add: unat_gt_0)
  ultimately show thesis
    using that [of k cl] step m(2) by (simp add: w_def sh_def cl_def)
qed

lemma mix_loop_queue:
  fixes num offs :: u32
  assumes inv: "shm_inv (shm (ds_stream ds))" and conv: "ds_conv ds = Some c" "\<not> cras_fmt_conversion_needed c"
    and fb: "unat (cras_get_format_bytes phys_width fmt) = fby (shm (ds_stream ds))"
    and room: "(unat offs + unat num) * fby (shm (ds_stream ds)) \<le> length (shm_queue (shm (ds_stream ds)))"
  shows "ms_ds m = ds \<Longrightarrow> ms_read m = ms_written m \<Longrightarrow> ms_written m \<le> num \<Longrightarrow>
    \<exists>m' cs. mix_loop rnd speex phys_width fmt num offs m = Some m' \<and> ms_ds m' = ds \<and> ms_written m' = num \<and> ms_read m' = num \<and>
      ms_calls m' = ms_calls m @ cs \<and> contiguous (fby (shm (ds_stream ds))) (ms_target m) cs \<and>
      concat (map (call_bytes (shm (ds_stream ds))) cs) =
        take ((unat num - unat (ms_written m)) * fby (shm (ds_stream ds)))
          (drop ((unat offs + unat (ms_written m)) * fby (shm (ds_stream ds))) (shm_queue (shm (ds_stream ds))))"
proof (induction "unat num - unat (ms_written m)" arbitrary: m rule: less_induct)
  case less
  define sh where "sh = shm (ds_stream ds)"
  define w where "w = unat (ms_written m)"
  show ?case
  proof (cases "ms_written m < num")
    case False
    then have "ms_written m = num" using less.prems by simp
    then show ?thesis using less.prems by (subst mix_loop.simps) simp
  next
    case True
    obtain k cl where k: "0 < unat k" "w + unat k \<le> unat num"
      and step: "mix_loop rnd speex phys_width fmt num offs m = mix_loop rnd speex phys_width fmt num offs
       (m\<lparr>ms_written := ms_written m + k, ms_read := ms_read m + k, ms_target := ms_target m + unat k * fby sh, ms_calls := ms_calls m @ [cl]\<rparr>)"
      and cl: "mix_dst cl = ms_target m" "mix_frames cl = k"
        "call_bytes sh cl = take (unat k * fby sh) (drop ((unat offs + w) * fby sh) (shm_queue sh))"
      using mix_round_queue [OF assms less.prems(1,2) True] unfolding sh_def w_def by blast
    define m1 where "m1 = m\<lparr>ms_written := ms_written m + k, ms_read := ms_read m + k,
      ms_target := ms_target m + unat k * fby sh, ms_calls := ms_calls m @ [cl]\<rparr>"
    have w1: "unat (ms_written m1) = w + unat k"
      using le_less_trans [OF k(2) unat_u32_less] by (simp add: m1_def w_def unat_add_small)
    obtain m' cs where r: "mix_loop rnd speex phys_width fmt num offs m1 = Some m'" "ms_ds m' = ds" "ms_written m' = num" "ms_read m' = num"
      "ms_calls m' = ms_calls m1 @ cs" "contiguous (fby sh) (ms_target m1) cs"
      "concat (map (call_bytes sh) cs) = take ((unat num - (w + unat k)) * fby sh) (drop ((unat offs + (w + unat k)) * fby sh) (shm_queue sh))"
    proof -
      have lt: "unat num - unat (ms_written m1) < unat num - unat (ms_written m)" using w1 k by (simp add: w_def)
      have m1: "ms_ds m1 = ds" "ms_read m1 = ms_written m1" using less.prems by (simp_all add: m1_def)
      have "ms_written m1 \<le> num" using w1 k(2) by (simp add: word_le_nat_alt)
      from less.hyps [OF lt m1 this] show thesis using that unfolding w1 sh_def by blast
    qed
    have "(unat num - w) * fby sh = unat k * fby sh + (unat num - (w + unat k)) * fby sh"
      using k(2) by (simp add: add_mult_distrib [symmetric])
    then have "take ((unat num - w) * fby sh) (drop ((unat offs + w) * fby sh) (shm_queue sh)) = call_bytes sh cl @ concat (map (call_bytes sh) cs)"
      by (simp add: take_split cl(3) r(7) add_mult_distrib add.assoc add.commute add.left_commute)
    then show ?thesis
      using step r cl unfolding m1_def [symmetric] w_def sh_def [symmetric]
      by (intro exI [of _ m'] exI [of _ "cl # cs"]) (simp add: m1_def)
  qed
qed

text \<open>A converter between equal formats at equal rates, as \<^verbatim>\<open>cras_fmt_conv_create\<close> makes it, counts frames one to
  one.\<close>

definition plain_conv :: "cras_fmt_conv \<Rightarrow> bool" where
  "plain_conv c \<longleftrightarrow> \<not> cras_fmt_conversion_needed c \<and> lr_f (resampler c) = 1 \<and> src_offset (resampler c) = 0 \<and>
     dst_offset (resampler c) = 0 \<and> frame_rate (in_fmt c) = frame_rate (out_fmt c) \<and>
     0 < unat (frame_rate (out_fmt c)) \<and> unat (frame_rate (out_fmt c)) < 2 ^ 32"

lemma exact_rounding_nat: "exact_rounding rnd \<Longrightarrow> n \<le> 16777216 \<Longrightarrow> rnd (of_nat n) = of_nat n"
proof -
  assume "exact_rounding rnd" and "n \<le> 16777216"
  moreover from this(2) have "0 \<le> int n \<and> int n \<le> 16777216" by linarith
  ultimately have "rnd (of_int (int n)) = of_int (int n)" unfolding exact_rounding_def by blast
  then show ?thesis by simp
qed

lemma linear_in_frames_id:
  assumes "exact_rounding rnd" and "lr_f lr = 1" "src_offset lr = 0" "dst_offset lr = 0" and "unat n \<le> 16777216"
  shows "linear_resampler_in_frames_to_out rnd lr n = n"
proof (cases "n = 0")
  case False
  then have u: "unat (n - 1) = unat n - 1" by (simp add: unat_minus_one)
  have f: "fl rnd (n - 1) = of_nat (unat n - 1)" using fl_exact [OF assms(1), of "n - 1"] u assms(5) by simp
  have z: "fl rnd 0 = 0" using fl_exact [OF assms(1), of 0] by simp
  have r: "rnd (of_nat (unat n - 1)) = of_nat (unat n - 1)" by (rule exact_rounding_nat [OF assms(1)]) (use assms(5) in simp)
  have n: "1 + of_nat (unat n - 1) = n" unfolding u [symmetric] by simp
  show ?thesis
  proof (cases "unat n = 1")
    case True
    then have "n = 1" by (intro word_eq_unatI) simp
    then show ?thesis using assms f z r by (simp add: linear_resampler_in_frames_to_out_def)
  next
    case False': False
    then have "0 < unat n - 1" using False unat_gt_0 [of n] by linarith
    then have "(0 :: rat) < of_nat (unat n - 1)" by (simp only: of_nat_0_less_iff)
    then show ?thesis
      using assms f z r n False by (simp add: linear_resampler_in_frames_to_out_def to_unsigned_def del: of_nat_diff)
  qed
qed (simp add: linear_resampler_in_frames_to_out_def)

lemma frames_at_same_rate:
  assumes "0 < unat r" "unat r < 2 ^ 32" "unat n \<le> 16777216"
  shows "cras_frames_at_rate r n r = n"
proof -
  have "unat n * unat r \<le> 16777216 * 2 ^ 32" using assms by (intro mult_le_mono) simp_all
  then have b: "unat n * unat r + unat r < 2 ^ 64" using assms(2) by simp
  have "unat (cras_frames_at_rate r n r) = (unat n * unat r + unat r - 1) div unat r"
    using assms(1) b by (intro frames_at_rate_nat) (auto simp: unat_gt_0)
  also have "\<dots> = (unat r - 1 + unat n * unat r) div unat r" using assms(1) by (simp add: add.commute)
  also have "\<dots> = unat n" using assms(1) by (subst div_mult_self1) simp_all
  finally show ?thesis by (rule word_eq_unatI)
qed

lemma plain_conv_frames:
  assumes "exact_rounding rnd" and "plain_conv c" and "unat n \<le> 16777216"
  shows "cras_fmt_conv_in_frames_to_out rnd (Some c) n = n"
proof -
  have u: "unat (ucast n :: u32) = unat n" using assms(3) by (simp add: unat_ucast_u32_u64)
  then have "linear_resampler_in_frames_to_out rnd (resampler c) (ucast n) = ucast n"
    using assms by (intro linear_in_frames_id) (simp_all add: plain_conv_def)
  moreover have "(ucast (ucast n :: u32) :: u64) = n" using u by (intro word_eq_unatI) simp
  ultimately show ?thesis
    using assms frames_at_same_rate [of "frame_rate (out_fmt c)" n]
    by (simp add: cras_fmt_conv_in_frames_to_out_def plain_conv_def)
qed

lemma plain_playback_frames:
  assumes "exact_rounding rnd" and "ds_conv ds = Some c" and "plain_conv c"
    and "queued_frames (ds_stream ds) = int q" and "q \<le> 16777216"
    and "unat (cras_rstream_dev_offset (ds_stream ds) (ds_dev_id ds)) \<le> q"
  shows "dev_stream_playback_frames rnd ds = int (q - unat (cras_rstream_dev_offset (ds_stream ds) (ds_dev_id ds)))"
proof -
  define offs where "offs = cras_rstream_dev_offset (ds_stream ds) (ds_dev_id ds)"
  have q: "unat (of_nat q :: u32) = q" using assms(5) by (intro unat_of_nat_u32) simp
  have p: "unat (of_nat q - offs) = q - unat offs"
    using assms(6) q by (subst unat_sub) (simp_all add: word_le_nat_alt offs_def)
  then have s: "sint (of_nat q - offs) = int (q - unat offs)"
    using assms(5) by (subst sint_small_u32) (simp_all add: p del: of_nat_diff)
  have d: "q - unat offs \<le> 16777216" using assms(5) by simp
  have u: "unat (of_nat (q - unat offs) :: u64) = q - unat offs" using d by (intro unat_of_nat_u64) simp
  have "cras_fmt_conv_in_frames_to_out rnd (Some c) (of_nat (q - unat offs)) = of_nat (q - unat offs)"
    using plain_conv_frames [OF assms(1,3)] u d by simp
  moreover have "sint (ucast (of_nat (q - unat offs) :: u64) :: u32) = int (q - unat offs)"
    using u d by (subst sint_small_u32) (simp_all add: unat_ucast_u32_u64)
  ultimately show ?thesis
    using s assms(2,4) by (simp add: dev_stream_playback_frames_def cras_rstream_playable_frames_def offs_def [symmetric] Let_def del: of_nat_diff)
qed

text \<open>Claim C14.  Mixing a stream that needs no conversion into a device buffer takes as many frames as asked for or as the device
  has not yet taken from the queue of the stream, hands exactly these frames of the queue to the mixer, in order,
  to consecutive places of the device buffer, and advances the device by their number.\<close>

theorem dev_stream_mix_plays_queue:
  assumes s_def: "s = ds_stream ds" and offs_def: "offs = cras_rstream_dev_offset s (ds_dev_id ds)"
    and "exact_rounding rnd" and "shm_inv (shm s)" and "ds_conv ds = Some c" and "plain_conv c"
    and "unat (cras_get_format_bytes phys_width fmt) = fby (shm s)"
    and "q = length (shm_queue (shm s)) div fby (shm s)" and "queued_frames s = int q" and "q \<le> 16777216" and "unat offs \<le> q"
  shows "\<exists>n calls ds'. dev_stream_mix rnd speex phys_width fmt num ds = Some (int n, calls, ds') \<and>
    n = min (unat num) (q - unat offs) \<and> contiguous (fby (shm s)) 0 calls \<and>
    concat (map (call_bytes (shm s)) calls) = take (n * fby (shm s)) (drop (unat offs * fby (shm s)) (shm_queue (shm s))) \<and>
    ds' = (if q = unat offs then ds else ds\<lparr>ds_stream := cras_rstream_dev_offset_update (of_nat n) (ds_dev_id ds) s\<rparr>)"
proof -
  have pf: "dev_stream_playback_frames rnd ds = int (q - unat offs)"
    using plain_playback_frames [OF assms(3,5,6), of q] assms(9,10,11) by (simp add: s_def offs_def)
  show ?thesis
  proof (cases "q = unat offs")
    case True
    then show ?thesis using pf by (simp add: dev_stream_mix_def)
  next
    case False
    define n where "n = min (of_int (int (q - unat offs))) num"
    have u: "unat (of_nat (q - unat offs) :: u32) = q - unat offs" using assms(10) by (intro unat_of_nat_u32) simp
    then have un: "unat n = min (unat num) (q - unat offs)" by (simp add: n_def min.commute del: of_nat_diff)
    have "(unat offs + unat n) * fby (shm s) \<le> q * fby (shm s)" using un assms(11) by (intro mult_le_mono1) simp
    also have "\<dots> \<le> length (shm_queue (shm s))" unfolding assms(8) by (rule div_times_less_eq_dividend)
    finally have room: "(unat offs + unat n) * fby (shm s) \<le> length (shm_queue (shm s))" .
    define m0 where "m0 = \<lparr>ms_ds = ds, ms_written = 0, ms_read = 0, ms_target = 0, ms_calls = []\<rparr>"
    have nn: "\<not> cras_fmt_conversion_needed c" using assms(6) by (simp add: plain_conv_def)
    obtain m' cs where r: "mix_loop rnd speex phys_width fmt n offs m0 = Some m'" "ms_ds m' = ds" "ms_written m' = n" "ms_read m' = n"
      "ms_calls m' = cs" "contiguous (fby (shm s)) 0 cs"
      "concat (map (call_bytes (shm s)) cs) = take (unat n * fby (shm s)) (drop (unat offs * fby (shm s)) (shm_queue (shm s)))"
      using mix_loop_queue [OF assms(4) [unfolded s_def] assms(5) nn assms(7) [unfolded s_def] room [unfolded s_def], of m0 rnd speex]
      by (auto simp: m0_def s_def)
    have "dev_stream_mix rnd speex phys_width fmt num ds =
        Some (int (unat n), cs, ds\<lparr>ds_stream := cras_rstream_dev_offset_update n (ds_dev_id ds) s\<rparr>)"
    proof -
      have "0 < q - unat offs" using False assms(11) by linarith
      then have neg: "(int (q - unat offs) \<le> 0) = False" by (simp del: of_nat_diff)
      show ?thesis
        unfolding dev_stream_mix_def pf Let_def neg if_False s_def [symmetric] offs_def [symmetric] n_def [symmetric] m0_def [symmetric]
        using r s_def by simp
    qed
    then have "dev_stream_mix rnd speex phys_width fmt num ds =
        Some (int (unat n), cs, ds\<lparr>ds_stream := cras_rstream_dev_offset_update (of_nat (unat n)) (ds_dev_id ds) s\<rparr>)" by simp
    then show ?thesis unfolding if_not_P [OF False] using r(6,7) un by blast
  qed
qed


definition plain_sample_conv :: cras_fmt_conv where
  "plain_sample_conv = \<lparr>speex_state = False, channel_converter = None, in_format_converter = None, out_format_converter = None,
     resampler = \<lparr>lr_num_channels = 1, lr_format_bytes = 2, src_offset = 0, dst_offset = 0,
       to_times_100 = 100, from_times_100 = 100, lr_f = 1\<rparr>,
     in_fmt = stereo_16, out_fmt = stereo_16, tmp_bufs = 0, tmp_buf_frames = 64, pre_linear_resample = False, num_converters = 1\<rparr>"

definition sample_ds :: "unit dev_stream" where
  "sample_ds = \<lparr>ds_dev_id = 5, ds_stream = sample_stream\<lparr>queued_frames := 2\<rparr>, ds_conv = Some plain_sample_conv,
     ds_conv_buffer = undefined, ds_conv_area = cras_audio_area_create 2, ds_conv_buffer_size_frames = 4,
     ds_dev_rate = 48000, ds_is_running = True\<rparr>"

theorem dev_stream_mix_plays_queue_witness:
  "\<exists>n calls ds'. dev_stream_mix (\<lambda>x. x) (\<lambda>n m. (n, m)) (\<lambda>_. 8) stereo_16 7 sample_ds = Some (int n, calls, ds') \<and>
    n = 1 \<and> contiguous 2 0 calls \<and> concat (map (call_bytes (sample_shm 0)) calls) = [3, 4] \<and>
    ds' = sample_ds\<lparr>ds_stream := cras_rstream_dev_offset_update 1 5 (ds_stream sample_ds)\<rparr>"
proof -
  have o: "cras_rstream_dev_offset (sample_stream\<lparr>queued_frames := 2\<rparr>) 5 = 1" and f: "fby (sample_shm 0) = 2"
    and q: "shm_queue (sample_shm 0) = [1, 2, 3, 4]" and sh: "shm sample_stream = sample_shm 0"
    by (code_simp, code_simp, code_simp, simp add: sample_stream_def)
  have s: "ds_stream sample_ds = sample_stream\<lparr>queued_frames := 2\<rparr>" "ds_dev_id sample_ds = 5" "ds_conv sample_ds = Some plain_sample_conv"
    by (simp_all add: sample_ds_def)
  have c: "plain_conv plain_sample_conv"
    by (simp add: plain_conv_def plain_sample_conv_def cras_fmt_conversion_needed_def linear_resampler_needed_def stereo_16_def)
  have b: "unat (cras_get_format_bytes (\<lambda>_. 8) stereo_16) = fby (sample_shm 0)"
    by (simp add: cras_get_format_bytes_def stereo_16_def f)
  have "\<exists>n calls ds'. dev_stream_mix (\<lambda>x. x) (\<lambda>n m. (n, m)) (\<lambda>_. 8) stereo_16 7 sample_ds = Some (int n, calls, ds') \<and>
      n = min (unat (7 :: u32)) (2 - unat (1 :: u32)) \<and> contiguous (fby (shm (ds_stream sample_ds))) 0 calls \<and>
      concat (map (call_bytes (shm (ds_stream sample_ds))) calls) =
        take (n * fby (shm (ds_stream sample_ds))) (drop (unat (1 :: u32) * fby (shm (ds_stream sample_ds))) (shm_queue (shm (ds_stream sample_ds)))) \<and>
      ds' = (if 2 = unat (1 :: u32) then sample_ds
        else sample_ds\<lparr>ds_stream := cras_rstream_dev_offset_update (of_nat n) (ds_dev_id sample_ds) (ds_stream sample_ds)\<rparr>)"
    by (rule dev_stream_mix_plays_queue [OF refl _ exact_rounding_id _ s(3) c])
      (use b sample_shm_inv in \<open>simp_all add: s sh o f q\<close>)
  then show ?thesis by (simp add: s sh f q)
qed

end
