(* ===== verification/Input_Data.thy ===== *)
theory Input_Data
  imports Rstream Byte_Buffer Audio_Area Linear_Resampler
begin

text \<open>
  \<^verbatim>\<open>server/float_buffer.h\<close> and \<^verbatim>\<open>server/input_data.c\<close>: the samples of an input device, deinterleaved for audio
  processing, and what each stream reads of them.  The ring of floats uses the indices of a byte buffer,
  counted in frames; pointers into it are offsets in frames, the same in every channel.
\<close>

section \<open>The ring of floats\<close>

record float_buffer =
  fb_buf :: byte_buffer
  fb_num_channels :: u32

definition float_buffer_create :: "u32 \<Rightarrow> u32 \<Rightarrow> float_buffer" where
  "float_buffer_create sz nch =
     \<lparr>fb_buf = \<lparr>write_idx = 0, read_idx = 0, level = 0, max_size = sz, used_size = sz,
        bytes = replicate (unat sz * unat nch * 4) 0\<rparr>,
      fb_num_channels = nch\<rparr>"

definition float_buffer_write_pointer :: "float_buffer \<Rightarrow> nat" where
  "float_buffer_write_pointer b = unat (write_idx (fb_buf b))"

definition float_buffer_writable :: "float_buffer \<Rightarrow> u32" where
  "float_buffer_writable b = buf_writable (fb_buf b)"

definition float_buffer_written :: "u32 \<Rightarrow> float_buffer \<Rightarrow> float_buffer" where
  "float_buffer_written nwritten b = b\<lparr>fb_buf := buf_increment_write (fb_buf b) (ucast nwritten)\<rparr>"

definition float_buffer_read_pointer :: "float_buffer \<Rightarrow> u32 \<Rightarrow> u32 \<Rightarrow> u32 \<times> u32" where
  \<comment> \<open>the position of the first frame and the new \<^verbatim>\<open>*readable\<close>\<close>
  "float_buffer_read_pointer b offs want =
     (let buf = fb_buf b; nread = buf_readable buf in
      if offs \<ge> buf_queued buf then (0, 0)
      else if offs \<ge> nread
      then let o' = offs + read_idx buf - max_size buf in (o', min want (write_idx buf - o'))
      else (offs + read_idx buf, min want (nread - offs)))"

definition float_buffer_level :: "float_buffer \<Rightarrow> u32" where
  "float_buffer_level b = buf_queued (fb_buf b)"

definition float_buffer_reset :: "float_buffer \<Rightarrow> float_buffer" where
  "float_buffer_reset b = b\<lparr>fb_buf := buf_reset (fb_buf b)\<rparr>"

definition float_buffer_read :: "u32 \<Rightarrow> float_buffer \<Rightarrow> float_buffer" where
  "float_buffer_read nread b = b\<lparr>fb_buf := buf_increment_read (fb_buf b) (ucast nread)\<rparr>"

section \<open>The data of an input device\<close>

record input_data =
  id_area :: "cras_audio_area option"
  id_fbuffer :: "float_buffer option"

text \<open>The loop of \<^verbatim>\<open>input_data_run\<close>: the copies as position in the ring, offset in the source and length.\<close>

function input_data_run_loop :: "u32 \<Rightarrow> u32 \<Rightarrow> float_buffer \<Rightarrow> (nat \<times> u32 \<times> u32) list \<times> float_buffer" where
  "input_data_run_loop nframes offs b =
     (if nframes = 0 then ([], b)
      else let writable = min nframes (float_buffer_writable b) in
        if writable = 0 then ([], b)
        else let (cps, b') = input_data_run_loop (nframes - writable) (offs + writable) (float_buffer_written writable b)
          in ((float_buffer_write_pointer b, offs, writable) # cps, b'))"
  by pat_completeness auto
termination
proof (relation "measure (\<lambda>(n, offs, b). unat n)")
  fix n offs b and w :: u32
  assume w: "w = min n (float_buffer_writable b)" "w \<noteq> 0"
  have "w \<le> n" unfolding w(1) by simp
  moreover have "0 < unat w" using w(2) by (simp add: unat_gt_0)
  ultimately have "unat (n - w) < unat n" by (simp add: unat_sub word_le_nat_alt)
  then show "((n - w, offs + w, float_buffer_written w b), n, offs, b) \<in> measure (\<lambda>(n, offs, b). unat n)" by simp
qed simp

declare input_data_run_loop.simps [simp del]

definition input_data_run :: "u32 \<Rightarrow> input_data \<Rightarrow> input_data option" where
  \<comment> \<open>\<open>None\<close>: there is no buffer\<close>
  "input_data_run nframes idt =
     map_option (\<lambda>b. idt\<lparr>id_fbuffer := Some (snd (input_data_run_loop nframes 0 b))\<rparr>) (id_fbuffer idt)"

definition input_data_configure :: "u32 \<Rightarrow> u32 \<Rightarrow> input_data \<Rightarrow> input_data" where
  "input_data_configure buffer_size nch idt =
     idt\<lparr>id_fbuffer := Some (float_buffer_create buffer_size nch)\<rparr>"

definition input_data_create :: input_data where
  "input_data_create = \<lparr>id_area = None, id_fbuffer = None\<rparr>"

definition input_data_set_all_streams_read :: "u32 \<Rightarrow> input_data \<Rightarrow> input_data" where
  "input_data_set_all_streams_read nframes idt =
     (case id_fbuffer idt of None \<Rightarrow> idt
      | Some b \<Rightarrow> if float_buffer_level b < nframes then idt\<lparr>id_fbuffer := Some (float_buffer_reset b)\<rparr>
          else idt\<lparr>id_fbuffer := Some (float_buffer_read nframes b)\<rparr>)"

text \<open>The audio processing module of a stream on a device, of \<^verbatim>\<open>cras_apm_list.c\<close>: what processing the ring
  from an offset returns, the area of processed frames, and whether it has tuned settings.\<close>

record apm_env =
  apm_process :: "float_buffer \<Rightarrow> u32 \<Rightarrow> int"
  apm_area :: cras_audio_area
  apm_tuned :: bool

datatype stream_input =
  Stream_area cras_audio_area u32   \<comment> \<open>the area and offset to read from\<close>
| Not_set                           \<comment> \<open>the variables of the caller keep their values\<close>

definition input_data_get_for_stream :: "apm_env option \<Rightarrow> input_data \<Rightarrow> 'd cras_rstream \<Rightarrow> 'd buffer_share \<Rightarrow>
    (stream_input \<times> 'd buffer_share) option" where
  \<comment> \<open>\<open>None\<close>: a null pointer is dereferenced\<close>
  "input_data_get_for_stream apm idt s offsets =
     (let stream_offset = buffer_share_id_offset offsets (stream_id s) in
      case apm of
        None \<Rightarrow> map_option (\<lambda>a. (Stream_area a (min stream_offset (area_frames a)), offsets)) (id_area idt)
      | Some m \<Rightarrow> (case id_fbuffer idt of None \<Rightarrow> None
          | Some b \<Rightarrow>
            let n = apm_process m b stream_offset in
            if n < 0 then Some (Not_set, offsets)
            else Some (Stream_area (apm_area m) 0, snd (buffer_share_offset_update offsets (stream_id s) (of_int n)))))"

definition input_data_put_for_stream :: "apm_env option \<Rightarrow> 'd cras_rstream \<Rightarrow> u32 \<Rightarrow> 'd buffer_share \<Rightarrow> 'd buffer_share" where
  "input_data_put_for_stream apm s frames offsets =
     (case apm of Some m \<Rightarrow> offsets | None \<Rightarrow> snd (buffer_share_offset_update offsets (stream_id s) frames))"

definition float_times :: "rounding \<Rightarrow> c_float \<Rightarrow> c_float \<Rightarrow> c_float" where
  \<comment> \<open>the product of finite numbers is finite here; the clamped volume of a stream is at most one\<close>
  "float_times rnd a b = (case (a, b) of (Fin x, Fin y) \<Rightarrow> Fin (rnd (x * y)) | _ \<Rightarrow> NaN)"

definition input_data_get_software_gain_scaler :: "rounding \<Rightarrow> apm_env option \<Rightarrow> c_float \<Rightarrow> 'd cras_rstream \<Rightarrow> c_float" where
  "input_data_get_software_gain_scaler rnd apm idev_sw_gain_scaler s =
     (case apm of Some m \<Rightarrow> if apm_tuned m then Fin 1 else float_times rnd idev_sw_gain_scaler (cras_rstream_get_volume_scaler s)
      | None \<Rightarrow> float_times rnd idev_sw_gain_scaler (cras_rstream_get_volume_scaler s))"

section \<open>Bounds and levels\<close>

definition fb_wf :: "float_buffer \<Rightarrow> bool" where
  "fb_wf b \<longleftrightarrow> buf_wf (fb_buf b) \<and> used_size (fb_buf b) = max_size (fb_buf b)"

lemma float_buffer_create_wf:
  assumes "0 < unat n" "unat n \<le> 2147483648" "0 < unat ch"
  shows "fb_wf (float_buffer_create n ch)"
proof -
  have "unat n \<le> unat n * unat ch * 4" using assms(3) by (simp add: mult.assoc)
  then show ?thesis using assms by (simp add: fb_wf_def float_buffer_create_def buf_wf_def)
qed

lemma float_buffer_read_low:
  assumes w: "buf_wf b" and o: "unat offs < unat (buf_readable b)"
  shows "unat offs + unat (read_idx b) < unat (used_size b)"
    and "unat (buf_readable b) = min (unat (level b)) (unat (used_size b) - unat (read_idx b))"
  using o buf_readable_nat [OF w] buf_wf_write_idx [OF w] buf_wf_bounds [OF w] by (auto split: if_splits)

lemma float_buffer_read_high:
  assumes w: "buf_wf b" and o: "unat (buf_readable b) \<le> unat offs" "unat offs < unat (level b)"
  shows "unat (used_size b) \<le> unat offs + unat (read_idx b)"
    and "unat (write_idx b) = unat (read_idx b) + unat (level b) - unat (used_size b)"
  using o buf_readable_nat [OF w] buf_wf_write_idx [OF w] buf_wf_bounds [OF w] by (auto split: if_splits)

text \<open>The pointer for an offset below the level is at the frame that many behind the oldest one, and the count is
  what lies there in one piece.\<close>

lemma float_buffer_read_pointer_spec:
  assumes wf: "fb_wf b" and lt: "offs < float_buffer_level b"
    and r: "float_buffer_read_pointer b offs want = (pos, n)"
  shows "unat pos = (unat (read_idx (fb_buf b)) + unat offs) mod unat (max_size (fb_buf b)) \<and>
    unat n = min (unat want) (min (unat (float_buffer_level b) - unat offs) (unat (max_size (fb_buf b)) - unat pos))"
proof -
  let ?b = "fb_buf b"
  have w: "buf_wf ?b" and us: "used_size ?b = max_size ?b" using wf by (simp_all add: fb_wf_def)
  note bs = buf_wf_bounds [OF w]
  have o: "unat offs < unat (level ?b)" using lt by (simp add: float_buffer_level_def buf_queued_def word_less_nat_alt)
  have sum: "unat (offs + read_idx ?b) = unat offs + unat (read_idx ?b)"
    by (rule unat_add_small) (use o bs us in simp)
  have nq: "\<not> offs \<ge> buf_queued ?b" using o by (simp add: buf_queued_def word_le_nat_alt)
  have lv: "unat (float_buffer_level b) = unat (level ?b)" by (simp add: float_buffer_level_def buf_queued_def)
  show ?thesis
  proof (cases "unat offs < unat (buf_readable ?b)")
    case True
    have "pos = offs + read_idx ?b" and n: "n = min want (buf_readable ?b - offs)"
      using r True nq by (simp_all add: float_buffer_read_pointer_def Let_def word_le_nat_alt)
    then have p: "unat pos = unat offs + unat (read_idx ?b)" using sum by simp
    have "unat n = min (unat want) (unat (buf_readable ?b) - unat offs)"
      using True by (simp add: n unat_sub word_le_nat_alt)
    then show ?thesis
      using p float_buffer_read_low [OF w True] us lv by (auto simp: add.commute min_def)
  next
    case False
    let ?o = "offs + read_idx ?b - max_size ?b"
    note h = float_buffer_read_high [OF w _ o, unfolded us]
    have pos: "pos = ?o" and n: "n = min want (write_idx ?b - ?o)"
      using r False nq by (auto simp: float_buffer_read_pointer_def Let_def word_le_nat_alt)
    have p: "unat ?o = unat offs + unat (read_idx ?b) - unat (max_size ?b)"
      using h False sum by (simp add: unat_sub word_le_nat_alt)
    have "unat ?o \<le> unat (write_idx ?b)" using p h False o by simp
    then have "unat n = min (unat want) (unat (write_idx ?b) - unat ?o)"
      by (simp add: n unat_sub word_le_nat_alt)
    then show ?thesis
      using p pos h False o bs us lv by (simp add: mod_if add.commute)
  qed
qed

lemma float_buffer_written_spec:
  assumes "fb_wf b" and "unat n \<le> unat (float_buffer_writable b)"
  shows "fb_wf (float_buffer_written n b)" and "unat (float_buffer_level (float_buffer_written n b)) = unat (float_buffer_level b) + unat n"
    and "max_size (fb_buf (float_buffer_written n b)) = max_size (fb_buf b)"
proof -
  let ?b = "fb_buf b"
  have w: "buf_wf ?b" using assms(1) by (simp add: fb_wf_def)
  have le: "unat (ucast n :: u64) \<le> unat (used_size ?b) - unat (level ?b)"
    using assms(2) buf_writable_le_available [OF w] by (simp add: float_buffer_writable_def)
  show "fb_wf (float_buffer_written n b)"
    using buf_increment_write_wf [OF w le] assms(1) by (simp add: fb_wf_def float_buffer_written_def)
  show "unat (float_buffer_level (float_buffer_written n b)) = unat (float_buffer_level b) + unat n"
    using buf_increment_write_nat(2) [OF w le] by (simp add: float_buffer_level_def buf_queued_def float_buffer_written_def)
  show "max_size (fb_buf (float_buffer_written n b)) = max_size ?b" by (simp add: float_buffer_written_def)
qed

lemma writable_zero_full: "fb_wf b \<Longrightarrow> float_buffer_writable b = 0 \<Longrightarrow> unat (float_buffer_level b) = unat (max_size (fb_buf b))"
  using buf_writable_nat [of "fb_buf b"] buf_wf_write_less [of "fb_buf b"] buf_wf_bounds [of "fb_buf b"]
  by (auto simp: fb_wf_def float_buffer_writable_def float_buffer_level_def buf_queued_def split: if_splits)

lemma fb_level_le: "fb_wf b \<Longrightarrow> unat (float_buffer_level b) \<le> unat (max_size (fb_buf b))"
  using buf_wf_bounds [of "fb_buf b"] by (auto simp: fb_wf_def float_buffer_level_def buf_queued_def)

text \<open>The frames of a run are all stored as long as there is room.\<close>

lemma input_data_run_level:
  assumes "fb_wf b" and "input_data_run_loop n offs b = (cps, b')"
  shows "fb_wf b' \<and> max_size (fb_buf b') = max_size (fb_buf b) \<and>
    unat (float_buffer_level b') = min (unat (max_size (fb_buf b))) (unat (float_buffer_level b) + unat n)"
  using assms
proof (induction n offs b arbitrary: cps b' rule: input_data_run_loop.induct)
  case (1 n offs b)
  let ?w = "min n (float_buffer_writable b)"
  show ?case
  proof (cases "n = 0 \<or> ?w = 0")
    case True
    then have "b' = b" using 1(3) by (subst (asm) input_data_run_loop.simps) (auto simp: Let_def split: if_splits)
    moreover have "n = 0 \<or> float_buffer_writable b = 0" using True by (auto simp: min_def split: if_splits)
    ultimately show ?thesis
      using 1(2) fb_level_le [OF 1(2)] writable_zero_full [OF 1(2)] by auto
  next
    case False
    obtain cps1 where run: "input_data_run_loop (n - ?w) (offs + ?w) (float_buffer_written ?w b) = (cps1, b')"
      using 1(3) False by (subst (asm) input_data_run_loop.simps) (auto simp: Let_def split: if_splits prod.splits)
    have n: "unat (n - ?w) = unat n - unat ?w" by (rule unat_sub) simp
    have le: "unat ?w \<le> unat (float_buffer_writable b)" "unat ?w \<le> unat n" by simp_all
    note wr = float_buffer_written_spec [OF 1(2) le(1)]
    show ?thesis
      using 1(1) [OF _ refl _ wr(1) run] False wr le(2) n by simp
  qed
qed

lemma float_buffer_read_spec:
  assumes "fb_wf b" and "unat n \<le> unat (float_buffer_level b)"
  shows "fb_wf (float_buffer_read n b)" and "unat (float_buffer_level (float_buffer_read n b)) = unat (float_buffer_level b) - unat n"
  using assms buf_increment_read_wf [of "fb_buf b" "ucast n"] buf_increment_read_nat(2) [of "fb_buf b" "ucast n"]
  by (simp_all add: fb_wf_def float_buffer_read_def float_buffer_level_def buf_queued_def)

end
