(* ===== verification/Ramp.thy ===== *)
theory Ramp
  imports Linear_Resampler
begin

text \<open>
  \<^verbatim>\<open>server/cras_ramp.c\<close>: ramping the volume of a device up and down.  A \<^verbatim>\<open>float\<close> is a rational number and
  every operation on it is rounded by the parameter \<open>rnd\<close>.  A callback is described by its data, of
  type \<open>'c\<close>; the operation that calls it returns the data.
\<close>

section \<open>Operations\<close>

record 'c cras_ramp =
  active :: bool
  ramped_frames :: int
  duration_frames :: int
  increment :: rat
  start_scaler :: rat
  ramp_target :: rat
  ramp_cb :: "'c option"

datatype ramp_action_type = CRAS_RAMP_ACTION_NONE | CRAS_RAMP_ACTION_PARTIAL | CRAS_RAMP_ACTION_INVALID

record cras_ramp_action =
  act_type :: ramp_action_type
  act_scaler :: rat
  act_increment :: rat
  act_target :: rat

definition cras_ramp_reset :: "'c cras_ramp \<Rightarrow> 'c cras_ramp" where
  "cras_ramp_reset ramp =
     ramp\<lparr>active := False, ramped_frames := 0, duration_frames := 0, increment := 0, start_scaler := 1, ramp_target := 1\<rparr>"

definition cras_ramp_create :: "bool \<Rightarrow> 'c cras_ramp \<Rightarrow> 'c cras_ramp option" where
  \<comment> \<open>\<^verbatim>\<open>malloc\<close> returned memory, and what it holds\<close>
  "cras_ramp_create alloc mem = (if \<not> alloc then None else Some (cras_ramp_reset mem))"

definition cras_ramp_get_current_action :: "rounding \<Rightarrow> 'c cras_ramp \<Rightarrow> cras_ramp_action" where
  "cras_ramp_get_current_action rnd ramp =
     (if ramped_frames ramp < 0
      then \<lparr>act_type = CRAS_RAMP_ACTION_INVALID, act_scaler = 1, act_increment = 0, act_target = 1\<rparr>
      else if active ramp
      then \<lparr>act_type = CRAS_RAMP_ACTION_PARTIAL,
            act_scaler = rnd (start_scaler ramp + rnd (rnd (of_int (ramped_frames ramp)) * increment ramp)),
            act_increment = increment ramp, act_target = ramp_target ramp\<rparr>
      else \<lparr>act_type = CRAS_RAMP_ACTION_NONE, act_scaler = 1, act_increment = 0, act_target = 1\<rparr>)"

definition cras_ramp_start :: "rounding \<Rightarrow> bool \<Rightarrow> rat \<Rightarrow> rat \<Rightarrow> int \<Rightarrow> 'c option \<Rightarrow> 'c cras_ramp option \<Rightarrow>
    int \<times> 'c cras_ramp option" where
  "cras_ramp_start rnd mute_ramp from to duration cb r =
     (case r of None \<Rightarrow> (- EINVAL, None)
      | Some ramp \<Rightarrow>
          if from = to \<and> from \<noteq> 0 then (0, r)
          else let action = cras_ramp_get_current_action rnd ramp in
            if act_type action = CRAS_RAMP_ACTION_INVALID then (- EINVAL, r)
            else let start = (if act_type action = CRAS_RAMP_ACTION_NONE then from
                   else if mute_ramp then act_scaler action else rnd (act_scaler action * from))
              in (0, Some \<lparr>active = True, ramped_frames = 0, duration_frames = duration,
                   increment = rnd (rnd (to - start) / rnd (of_int duration)), start_scaler = start,
                   ramp_target = to, ramp_cb = cb\<rparr>))"

definition cras_mute_ramp_start :: "rounding \<Rightarrow> rat \<Rightarrow> rat \<Rightarrow> int \<Rightarrow> 'c option \<Rightarrow> 'c cras_ramp option \<Rightarrow>
    int \<times> 'c cras_ramp option" where
  "cras_mute_ramp_start rnd = cras_ramp_start rnd True"

definition cras_volume_ramp_start :: "rounding \<Rightarrow> rat \<Rightarrow> rat \<Rightarrow> int \<Rightarrow> 'c option \<Rightarrow> 'c cras_ramp option \<Rightarrow>
    int \<times> 'c cras_ramp option" where
  "cras_volume_ramp_start rnd = cras_ramp_start rnd False"

definition cras_ramp_update_ramped_frames :: "int \<Rightarrow> 'c cras_ramp \<Rightarrow> int \<times> 'c option \<times> 'c cras_ramp" where
  \<comment> \<open>the result, the callback that is called, and the ramp\<close>
  "cras_ramp_update_ramped_frames num_frames ramp =
     (if \<not> active ramp then (- EINVAL, None, ramp)
      else let n = ramped_frames ramp + num_frames in
        if n \<ge> duration_frames ramp then (0, ramp_cb ramp, ramp\<lparr>ramped_frames := n, active := False\<rparr>)
        else (0, None, ramp\<lparr>ramped_frames := n\<rparr>))"

section \<open>A ramp from start to end\<close>

text \<open>The frames of a device come in blocks: before each block the scaler is asked for, afterwards the ramp
  is told the size.  The run collects the scalers and the callbacks.\<close>

fun ramp_run :: "rounding \<Rightarrow> int list \<Rightarrow> 'c cras_ramp \<Rightarrow> rat list \<times> 'c list \<times> 'c cras_ramp" where
  "ramp_run rnd [] ramp = ([], [], ramp)"
| "ramp_run rnd (n # ns) ramp =
     (let a = cras_ramp_get_current_action rnd ramp;
          (rc, cb, ramp') = cras_ramp_update_ramped_frames n ramp;
          (ss, cbs, ramp'') = ramp_run rnd ns ramp'
      in (act_scaler a # ss, (case cb of None \<Rightarrow> cbs | Some c \<Rightarrow> c # cbs), ramp''))"

definition ramp_scaler :: "rat \<Rightarrow> rat \<Rightarrow> int \<Rightarrow> int \<Rightarrow> rat" where
  \<comment> \<open>the straight line from \<open>from\<close> to \<open>to\<close>\<close>
  "ramp_scaler from to d p = (if p < d then from + of_int p * ((to - from) / of_int d) else 1)"

fun offsets_from :: "int \<Rightarrow> int list \<Rightarrow> int list" where
  "offsets_from p [] = []"
| "offsets_from p (n # ns) = p # offsets_from (p + n) ns"

lemma ramp_run_over:
  assumes "\<not> active r" and "0 \<le> ramped_frames r"
  shows "ramp_run rnd ns r = (map (\<lambda>_. 1) ns, [], r)"
  using assms
  by (induction ns) (auto simp: cras_ramp_get_current_action_def cras_ramp_update_ramped_frames_def Let_def)

lemma ramp_scaler_over:
  assumes "d \<le> p" and "\<forall>n \<in> set ns. 0 < n"
  shows "map (ramp_scaler from to d) (offsets_from p ns) = map (\<lambda>_. 1) ns"
  using assms by (induction ns arbitrary: p) (auto simp: ramp_scaler_def)

lemma ramp_run_line:
  assumes "active r" and "0 \<le> ramped_frames r" and "ramped_frames r < duration_frames r" and "\<forall>n \<in> set ns. 0 < n"
    and "start_scaler r = from" and "increment r = (to - from) / of_int (duration_frames r)"
    and "ramp_run (\<lambda>x. x) ns r = (ss, cbs, r')"
  shows "ss = map (ramp_scaler from to (duration_frames r)) (offsets_from (ramped_frames r) ns) \<and>
    cbs = (if duration_frames r \<le> ramped_frames r + sum_list ns then (case ramp_cb r of None \<Rightarrow> [] | Some c \<Rightarrow> [c]) else []) \<and>
    (active r' \<longleftrightarrow> ramped_frames r + sum_list ns < duration_frames r)"
  using assms
proof (induction ns arbitrary: r ss cbs r')
  case Nil
  then show ?case by auto
next
  case (Cons n ns)
  let ?m = "ramped_frames r + n"
  have pos: "0 < n" "\<forall>n \<in> set ns. 0 < n" using Cons.prems(4) by auto
  have s0: "act_scaler (cras_ramp_get_current_action (\<lambda>x. x) r) = ramp_scaler from to (duration_frames r) (ramped_frames r)"
    using Cons.prems by (simp add: cras_ramp_get_current_action_def ramp_scaler_def)
  have nonneg: "0 \<le> sum_list ns" using pos(2) by (induction ns) auto
  show ?case
  proof (cases "duration_frames r \<le> ?m")
    case True
    let ?r = "r\<lparr>ramped_frames := ?m, active := False\<rparr>"
    have u: "cras_ramp_update_ramped_frames n r = (0, ramp_cb r, ?r)"
      using True Cons.prems(1) by (simp add: cras_ramp_update_ramped_frames_def Let_def)
    have "ramp_run (\<lambda>x. x) ns ?r = (map (\<lambda>_. 1) ns, [], ?r)"
      using Cons.prems(2) pos by (intro ramp_run_over) simp_all
    then show ?thesis
      using Cons.prems(7) True nonneg by (auto simp: u s0 ramp_scaler_over [OF True pos(2)] split: option.splits)
  next
    case False
    let ?r = "r\<lparr>ramped_frames := ?m\<rparr>"
    obtain ss1 cbs1 where run: "ramp_run (\<lambda>x. x) ns ?r = (ss1, cbs1, r')"
      and ss: "ss = ramp_scaler from to (duration_frames r) (ramped_frames r) # ss1" and cbs: "cbs = cbs1"
      using Cons.prems(7) False s0 Cons.prems(1)
      by (auto simp: cras_ramp_update_ramped_frames_def Let_def split: prod.splits)
    show ?thesis
      using Cons.IH [OF _ _ _ _ _ _ run] Cons.prems False pos by (simp add: ss cbs add.assoc)
  qed
qed


definition idle_ramp :: "nat cras_ramp" where
  "idle_ramp = \<lparr>active = False, ramped_frames = 0, duration_frames = 0, increment = 0, start_scaler = 1,
     ramp_target = 1, ramp_cb = None\<rparr>"


end
