(* ===== verification/Iodev.thy ===== *)
theory Iodev
  imports Dev_Stream Input_Data Ramp
begin

text \<open>
  \<^verbatim>\<open>server/cras_iodev.c\<close> and \<^verbatim>\<open>.h\<close>: an audio device.  The function pointers of \<^verbatim>\<open>struct cras_iodev\<close>, which a driver
  fills in, are the record \<open>iodev_ops\<close>; each takes the device and returns it changed.  The private
  data of a driver are of type \<open>'h\<close>.  Samples are not modelled: the device keeps a trace of what is
  done with its buffer and of the hooks and messages, in order.  The signal processing of
  \<^verbatim>\<open>cras_dsp.c\<close>, the curve of the software volume and the estimator of the sample rate are the record
  \<open>iodev_env\<close> and events of the trace.

  \<open>None\<close> is the result of an operation that fails an assertion, uses a null pointer or does not return.
\<close>

section \<open>Nodes and devices\<close>

datatype node_type = CRAS_NODE_TYPE_INTERNAL_SPEAKER | CRAS_NODE_TYPE_HEADPHONE | CRAS_NODE_TYPE_HDMI |
  CRAS_NODE_TYPE_HAPTIC | CRAS_NODE_TYPE_LINEOUT | CRAS_NODE_TYPE_MIC | CRAS_NODE_TYPE_HOTWORD |
  CRAS_NODE_TYPE_POST_MIX_PRE_DSP | CRAS_NODE_TYPE_POST_DSP | CRAS_NODE_TYPE_BLUETOOTH_NB_MIC |
  CRAS_NODE_TYPE_USB | CRAS_NODE_TYPE_BLUETOOTH | CRAS_NODE_TYPE_FALLBACK_NORMAL |
  CRAS_NODE_TYPE_FALLBACK_ABNORMAL | CRAS_NODE_TYPE_UNKNOWN | CRAS_NODE_TYPE_ECHO_REFERENCE

datatype node_position = NODE_POSITION_EXTERNAL | NODE_POSITION_INTERNAL | NODE_POSITION_FRONT |
  NODE_POSITION_REAR | NODE_POSITION_KEYBOARD

record cras_ionode =
  nd_idx :: u32
  nd_plugged :: bool
  nd_plugged_time :: "int \<times> int"
  nd_volume :: u32
  nd_capture_gain :: int
  nd_ui_gain_scaler :: c_float
  nd_left_right_swapped :: bool
  nd_type :: node_type
  nd_position :: node_position
  nd_softvol_scalers :: "c_float list option"
  nd_software_volume_needed :: bool
  nd_intrinsic_sensitivity :: int

datatype iodev_state = CRAS_IODEV_STATE_CLOSE | CRAS_IODEV_STATE_OPEN | CRAS_IODEV_STATE_NORMAL_RUN |
  CRAS_IODEV_STATE_NO_STREAM_RUN

datatype ramp_request = CRAS_IODEV_RAMP_REQUEST_NONE | CRAS_IODEV_RAMP_REQUEST_UP_UNMUTE |
  CRAS_IODEV_RAMP_REQUEST_DOWN_MUTE | CRAS_IODEV_RAMP_REQUEST_UP_START_PLAYBACK |
  CRAS_IODEV_RAMP_REQUEST_RESUME_MUTE | CRAS_IODEV_RAMP_REQUEST_SWITCH_MUTE

datatype ext_dsp_module = Ext_input_data | Ext_other nat

record dsp_context =
  dsp_pipeline :: bool
  dsp_in_channels :: u64
  dsp_out_channels :: u64
  dsp_ext :: "ext_dsp_module option"
  dsp_delay :: int

datatype loopback_type = LOOPBACK_POST_MIX_PRE_DSP | LOOPBACK_POST_DSP

record cras_loopback =
  lb_type :: loopback_type
  lb_has_control :: bool
  lb_data :: nat

text \<open>The trace: frames that were processed, muted, scaled or filled with zeros, in the order of the calls; hooks;
  messages to the main thread; frames told to the rate estimator.\<close>

datatype iodev_event = Pre_open_hook | Post_close_hook | Loopback_control nat bool | Loopback_data nat u32 |
  Dsp_applied u32 u32 | Muted u32 | Ramped u32 rat rat rat | Scaled u32 c_float | Remixed u32 | Zeroed u32 |
  Rate_created u64 | Rate_reset u64 | Rate_frames int | Rate_check u32 timespec | Underrun | Severe_underrun |
  Reset_request u32 | Mute_request u32 | Nodes_changed | Active_node_changed u32 | Disabled | Mute_set

record ('d, 'h) cras_iodev =
  io_idx :: u32
  io_format :: "cras_audio_format option"
  io_rate_est :: bool
  io_area :: "cras_audio_area option"
  io_nodes :: "cras_ionode list"
  io_active_node :: "u32 option"
  io_direction :: u32
  io_supported_rates :: "u64 list"
  io_supported_channel_counts :: "u64 list"
  io_supported_formats :: "snd_pcm_format list"
  io_buffer_size :: u64
  io_min_buffer_level :: u32
  io_dsp_context :: "dsp_context option"
  io_software_volume_needed :: bool
  io_software_gain_scaler :: c_float
  io_streams :: "'d dev_stream list"
  io_state :: iodev_state
  io_min_cb_level :: u32
  io_max_cb_level :: u32
  io_highest_hw_level :: u32
  io_largest_cb_level :: u32
  io_num_underruns :: u32
  io_buf_state :: "'d buffer_share option"
  io_idle_timeout :: timespec
  io_open_ts :: timespec
  io_loopbacks :: "cras_loopback list"
  io_has_pre_open_hook :: bool
  io_has_post_close_hook :: bool
  io_ext_dsp_module :: "ext_dsp_module option"
  io_reset_request_pending :: bool
  io_ramp :: "u32 cras_ramp option"
  io_input_streaming :: bool
  io_input_frames_read :: u32
  io_input_dsp_offset :: u32
  io_initial_ramp_request :: ramp_request
  io_input_data :: "input_data option"
  io_priv :: 'h
  io_trace :: "iodev_event list"

text \<open>The operations of a driver; an optional one may be a null pointer.  A result that is negative is an error.\<close>

record ('d, 'h) iodev_ops =
  op_set_mute :: "(('d, 'h) cras_iodev \<Rightarrow> ('d, 'h) cras_iodev) option"
  op_open_dev :: "(('d, 'h) cras_iodev \<Rightarrow> int \<times> ('d, 'h) cras_iodev) option"
  op_configure_dev :: "('d, 'h) cras_iodev \<Rightarrow> int \<times> ('d, 'h) cras_iodev"
  op_close_dev :: "('d, 'h) cras_iodev \<Rightarrow> int \<times> ('d, 'h) cras_iodev"
  op_update_supported_formats :: "(('d, 'h) cras_iodev \<Rightarrow> int \<times> ('d, 'h) cras_iodev) option"
  op_frames_queued :: "('d, 'h) cras_iodev \<Rightarrow> int \<times> timespec \<times> ('d, 'h) cras_iodev"
  op_delay_frames :: "('d, 'h) cras_iodev \<Rightarrow> int"
  op_get_buffer :: "u32 \<Rightarrow> ('d, 'h) cras_iodev \<Rightarrow> int \<times> u32 \<times> cras_audio_area option \<times> ('d, 'h) cras_iodev"
  op_put_buffer :: "u32 \<Rightarrow> ('d, 'h) cras_iodev \<Rightarrow> int \<times> ('d, 'h) cras_iodev"
  op_flush_buffer :: "('d, 'h) cras_iodev \<Rightarrow> int \<times> ('d, 'h) cras_iodev"
  op_start :: "(('d, 'h) cras_iodev \<Rightarrow> int \<times> ('d, 'h) cras_iodev) option"
  op_is_free_running :: "(('d, 'h) cras_iodev \<Rightarrow> bool) option"
  op_output_underrun :: "(('d, 'h) cras_iodev \<Rightarrow> (int \<times> ('d, 'h) cras_iodev) option) option"
  op_no_stream :: "bool \<Rightarrow> ('d, 'h) cras_iodev \<Rightarrow> (int \<times> ('d, 'h) cras_iodev) option"
  op_update_channel_layout :: "(('d, 'h) cras_iodev \<Rightarrow> int \<times> ('d, 'h) cras_iodev) option"
  op_get_num_severe_underruns :: "(('d, 'h) cras_iodev \<Rightarrow> u32) option"
  op_get_valid_frames :: "(('d, 'h) cras_iodev \<Rightarrow> int \<times> timespec \<times> ('d, 'h) cras_iodev) option"
  op_frames_to_play_in_sleep :: "(('d, 'h) cras_iodev \<Rightarrow> u32 \<times> u32 \<times> timespec \<times> ('d, 'h) cras_iodev) option"

text \<open>The surroundings: rounding of \<^verbatim>\<open>float\<close>, the sample widths, the volume curve and conversion from decibels, the
  loading of signal processing pipelines, and for each number of frames the result of running one and the
  number of frames that reach its external module.\<close>

record iodev_env =
  env_rnd :: rounding
  env_width :: "snd_pcm_format \<Rightarrow> nat"
  env_softvol :: "u32 \<Rightarrow> c_float"
  env_from_dB :: "int \<Rightarrow> c_float"
  env_malloc :: bool
  env_dsp_load :: "bool \<Rightarrow> dsp_context \<Rightarrow> dsp_context"
  env_dsp_dummy :: "u64 \<Rightarrow> dsp_context \<Rightarrow> dsp_context"
  env_dsp_run :: "u32 \<Rightarrow> int \<times> u32"

definition log_event :: "iodev_event \<Rightarrow> ('d, 'h) cras_iodev \<Rightarrow> ('d, 'h) cras_iodev" where
  "log_event e dev = dev\<lparr>io_trace := io_trace dev @ [e]\<rparr>"

definition active_node :: "('d, 'h) cras_iodev \<Rightarrow> cras_ionode option" where
  \<comment> \<open>\<^verbatim>\<open>iodev->active_node\<close>\<close>
  "active_node dev = Option.bind (io_active_node dev) (\<lambda>i. find (\<lambda>n. nd_idx n = i) (io_nodes dev))"

definition cras_iodev_is_open :: "('d, 'h) cras_iodev \<Rightarrow> bool" where
  "cras_iodev_is_open dev \<longleftrightarrow> io_state dev \<noteq> CRAS_IODEV_STATE_CLOSE"

section \<open>Volume\<close>

definition cras_iodev_adjust_node_volume :: "cras_ionode \<Rightarrow> u32 \<Rightarrow> u32" where
  "cras_iodev_adjust_node_volume node system_volume =
     (let node_vol_offset = 100 - nd_volume node
      in if system_volume > node_vol_offset then system_volume - node_vol_offset else 0)"

definition cras_iodev_adjust_active_node_volume :: "('d, 'h) cras_iodev \<Rightarrow> u32 \<Rightarrow> u32" where
  "cras_iodev_adjust_active_node_volume dev system_volume =
     (case active_node dev of None \<Rightarrow> system_volume | Some node \<Rightarrow> cras_iodev_adjust_node_volume node system_volume)"

definition cras_iodev_software_volume_needed :: "('d, 'h) cras_iodev \<Rightarrow> bool" where
  "cras_iodev_software_volume_needed dev =
     (if io_software_volume_needed dev then True
      else case active_node dev of None \<Rightarrow> False
        | Some node \<Rightarrow> if nd_intrinsic_sensitivity node \<noteq> 0 then True else nd_software_volume_needed node)"

definition cras_iodev_get_ui_gain_scaler :: "('d, 'h) cras_iodev \<Rightarrow> c_float" where
  "cras_iodev_get_ui_gain_scaler dev = (case active_node dev of None \<Rightarrow> Fin 1 | Some node \<Rightarrow> nd_ui_gain_scaler node)"

definition cras_iodev_is_zero_volume :: "('p, 's) system_state \<Rightarrow> ('d, 'h) cras_iodev \<Rightarrow> bool" where
  "cras_iodev_is_zero_volume sys dev =
     (case active_node dev of
        Some node \<Rightarrow> cras_iodev_adjust_node_volume node (ucast (cras_system_get_volume sys)) = 0
      | None \<Rightarrow> cras_system_get_volume sys = 0)"

definition output_should_mute :: "('p, 's) system_state \<Rightarrow> ('d, 'h) cras_iodev \<Rightarrow> bool" where
  "output_should_mute sys dev \<longleftrightarrow> cras_system_get_mute sys \<or> cras_iodev_is_zero_volume sys dev"

definition cras_iodev_get_software_volume_scaler :: "iodev_env \<Rightarrow> ('p, 's) system_state \<Rightarrow> ('d, 'h) cras_iodev \<Rightarrow> c_float" where
  "cras_iodev_get_software_volume_scaler env sys dev =
     (let volume = cras_iodev_adjust_active_node_volume dev (ucast (cras_system_get_volume sys)) in
      case Option.bind (active_node dev) nd_softvol_scalers of
        Some sc \<Rightarrow> sc ! unat volume
      | None \<Rightarrow> env_softvol env volume)"

definition cras_iodev_get_software_gain_scaler :: "iodev_env \<Rightarrow> ('d, 'h) cras_iodev \<Rightarrow> c_float option" where
  \<comment> \<open>\<open>None\<close>: the device needs software volume and has no active node\<close>
  "cras_iodev_get_software_gain_scaler env dev =
     (if cras_iodev_software_volume_needed dev
      then map_option (\<lambda>node. env_from_dB env (nd_capture_gain node)) (active_node dev)
      else Some (Fin 1))"

definition cras_iodev_is_aec_use_case :: "cras_ionode \<Rightarrow> bool" where
  "cras_iodev_is_aec_use_case node =
     (if nd_type node = CRAS_NODE_TYPE_INTERNAL_SPEAKER \<or> nd_type node = CRAS_NODE_TYPE_ECHO_REFERENCE then True
      else if nd_type node = CRAS_NODE_TYPE_MIC
      then nd_position node = NODE_POSITION_INTERNAL \<or> nd_position node = NODE_POSITION_FRONT
      else False)"

section \<open>Formats\<close>

text \<open>The arrays of supported values end in zero; here they are lists without it.\<close>

fun best_rate_loop :: "u64 \<Rightarrow> u64 \<Rightarrow> u64 list \<Rightarrow> u64" where
  "best_rate_loop rrate best [] = best"
| "best_rate_loop rrate best (r # rs) =
     (if rrate = r \<and> rrate \<ge> 44100 then rrate
      else best_rate_loop rrate (if best = 0 \<and> (rrate mod r = 0 \<or> r mod rrate = 0) then r else best) rs)"

definition get_best_rate :: "('d, 'h) cras_iodev \<Rightarrow> u64 \<Rightarrow> u64" where
  "get_best_rate dev rrate =
     (case io_supported_rates dev of [] \<Rightarrow> 0
      | r0 # rs \<Rightarrow> let best = best_rate_loop rrate 0 (r0 # rs) in if best \<noteq> 0 then best else r0)"

definition get_best_channel_count :: "('d, 'h) cras_iodev \<Rightarrow> u64 \<Rightarrow> u64 option" where
  "get_best_channel_count dev count =
     (case io_supported_channel_counts dev of [] \<Rightarrow> None
      | c0 # cs \<Rightarrow> Some (if count \<in> set (c0 # cs) then count else if 2 \<in> set (c0 # cs) then 2 else c0))"

definition get_best_pcm_format :: "('d, 'h) cras_iodev \<Rightarrow> snd_pcm_format \<Rightarrow> snd_pcm_format option" where
  \<comment> \<open>\<open>None\<close> is the format 0 at the end of an empty array\<close>
  "get_best_pcm_format dev fmt =
     (case io_supported_formats dev of [] \<Rightarrow> None
      | f0 # fs \<Rightarrow> Some (if fmt \<in> set (f0 # fs) then fmt else f0))"

definition trim_channel_layout :: "cras_audio_format \<Rightarrow> cras_audio_format" where
  "trim_channel_layout fmt =
     fmt\<lparr>channel_layout := map (\<lambda>c. if (of_int c :: u64) \<ge> num_channels fmt then - 1 else c) (channel_layout fmt)\<rparr>"

definition cras_iodev_free_dsp :: "('d, 'h) cras_iodev \<Rightarrow> ('d, 'h) cras_iodev" where
  "cras_iodev_free_dsp dev = dev\<lparr>io_dsp_context := None\<rparr>"

definition cras_iodev_alloc_dsp :: "('d, 'h) cras_iodev \<Rightarrow> ('d, 'h) cras_iodev" where
  "cras_iodev_alloc_dsp dev =
     dev\<lparr>io_dsp_context := Some \<lparr>dsp_pipeline = False, dsp_in_channels = 0, dsp_out_channels = 0, dsp_ext = None, dsp_delay = 0\<rparr>\<rparr>"

definition cras_iodev_update_dsp :: "iodev_env \<Rightarrow> ('d, 'h) cras_iodev \<Rightarrow> ('d, 'h) cras_iodev" where
  "cras_iodev_update_dsp env dev =
     (let swap_lr_disabled = (case active_node dev of Some node \<Rightarrow> \<not> nd_left_right_swapped node | None \<Rightarrow> True)
      in dev\<lparr>io_dsp_context := map_option (env_dsp_load env swap_lr_disabled) (io_dsp_context dev)\<rparr>)"

definition adjust_dev_channel_for_dsp :: "('d, 'h) cras_iodev \<Rightarrow> cras_audio_format \<Rightarrow> cras_audio_format" where
  "adjust_dev_channel_for_dsp dev fmt =
     (case io_dsp_context dev of None \<Rightarrow> fmt
      | Some ctx \<Rightarrow> if \<not> dsp_pipeline ctx then fmt
          else fmt\<lparr>num_channels := (if io_direction dev = CRAS_STREAM_OUTPUT then dsp_out_channels ctx else dsp_in_channels ctx)\<rparr>)"

definition update_channel_layout :: "('d, 'h) iodev_ops \<Rightarrow> ('d, 'h) cras_iodev \<Rightarrow> ('d, 'h) cras_iodev" where
  "update_channel_layout ops dev =
     (case op_update_channel_layout ops of None \<Rightarrow> dev
      | Some f \<Rightarrow> let (rc, dev') = f dev
          in if rc < 0 then dev'\<lparr>io_format := map_option cras_audio_format_set_default_channel_layout (io_format dev')\<rparr> else dev')"

definition set_format_rate_est :: "u64 \<Rightarrow> ('d, 'h) cras_iodev \<Rightarrow> ('d, 'h) cras_iodev" where
  "set_format_rate_est rate dev =
     (if \<not> io_rate_est dev then log_event (Rate_created rate) (dev\<lparr>io_rate_est := True\<rparr>)
      else log_event (Rate_reset rate) dev)"

definition choose_format :: "iodev_env \<Rightarrow> ('d, 'h) iodev_ops \<Rightarrow> cras_audio_format \<Rightarrow> cras_audio_format \<Rightarrow> ('d, 'h) cras_iodev \<Rightarrow>
    (int \<times> ('d, 'h) cras_iodev) option" where
  \<comment> \<open>from the choice of the rate on; \<open>f1\<close> is the format of the device so far\<close>
  "choose_format env ops fmt f1 dev =
     (let rate = get_best_rate dev (frame_rate fmt);
          d2 = cras_iodev_update_dsp env (cras_iodev_alloc_dsp (dev\<lparr>io_format := Some (f1\<lparr>frame_rate := rate\<rparr>)\<rparr>));
          f2 = adjust_dev_channel_for_dsp d2 (f1\<lparr>frame_rate := rate\<rparr>)
      in case (get_best_channel_count d2 (num_channels f2), get_best_pcm_format d2 (pcm_format fmt)) of
           (None, _) \<Rightarrow> None
         | (Some channels, None) \<Rightarrow> Some (- EINVAL, d2\<lparr>io_format := None\<rparr>)
         | (Some channels, Some actual) \<Rightarrow>
             if rate = 0 \<or> channels = 0 then Some (- EINVAL, d2\<lparr>io_format := None\<rparr>)
             else
               let f3 = f2\<lparr>pcm_format := actual\<rparr>;
                   d3 = (if num_channels f3 \<noteq> channels
                     then cras_iodev_free_dsp (d2\<lparr>io_format := Some (trim_channel_layout (f3\<lparr>num_channels := channels\<rparr>))\<rparr>)
                     else d2\<lparr>io_format := Some f3\<rparr>)
               in Some (0, set_format_rate_est rate (update_channel_layout ops d3)))"

definition cras_iodev_set_format :: "iodev_env \<Rightarrow> ('d, 'h) iodev_ops \<Rightarrow> cras_audio_format \<Rightarrow> ('d, 'h) cras_iodev \<Rightarrow>
    (int \<times> ('d, 'h) cras_iodev) option" where
  "cras_iodev_set_format env ops fmt dev =
     (if io_format dev \<noteq> None then Some (0, dev)
      else if \<not> env_malloc env then Some (- ENOMEM, dev)
      else
        let (rc, d1) = (case op_update_supported_formats ops of None \<Rightarrow> (0, dev\<lparr>io_format := Some fmt\<rparr>)
              | Some f \<Rightarrow> f (dev\<lparr>io_format := Some fmt\<rparr>))
        in if rc \<noteq> 0 then Some (rc, d1\<lparr>io_format := None\<rparr>)
           else case io_format d1 of None \<Rightarrow> None | Some f1 \<Rightarrow> choose_format env ops fmt f1 d1)"

definition cras_iodev_free_format :: "('d, 'h) cras_iodev \<Rightarrow> ('d, 'h) cras_iodev" where
  "cras_iodev_free_format dev = dev\<lparr>io_format := None\<rparr>"

section \<open>Signal processing\<close>

definition apply_dsp :: "iodev_env \<Rightarrow> u32 \<Rightarrow> u32 \<Rightarrow> ('d, 'h) cras_iodev \<Rightarrow> (int \<times> ('d, 'h) cras_iodev) option" where
  \<comment> \<open>on \<open>frames\<close> frames of the buffer, from frame \<open>offs\<close> on\<close>
  "apply_dsp env offs frames dev =
     (case io_dsp_context dev of None \<Rightarrow> Some (0, dev)
      | Some ctx \<Rightarrow>
          if \<not> dsp_pipeline ctx \<or> frames = 0 then Some (0, dev)
          else let (rc, k) = env_dsp_run env frames; dev1 = log_event (Dsp_applied offs frames) dev
            in if dsp_ext ctx = Some Ext_input_data
               then map_option (\<lambda>dt. (rc, dev1\<lparr>io_input_data := Some dt\<rparr>)) (Option.bind (io_input_data dev) (input_data_run k))
               else Some (rc, dev1))"

definition with_dsp_pipeline :: "iodev_env \<Rightarrow> cras_audio_format \<Rightarrow> ('d, 'h) cras_iodev \<Rightarrow> ('d, 'h) cras_iodev" where
  \<comment> \<open>without a pipeline a dummy one is loaded\<close>
  "with_dsp_pipeline env fmt dev =
     (if case io_dsp_context dev of None \<Rightarrow> False | Some ctx \<Rightarrow> dsp_pipeline ctx then dev
      else let d = cras_iodev_alloc_dsp dev
        in d\<lparr>io_dsp_context := map_option (env_dsp_dummy env (num_channels fmt)) (io_dsp_context d)\<rparr>)"

definition configure_ext_module :: "cras_audio_format \<Rightarrow> ('d, 'h) cras_iodev \<Rightarrow> ('d, 'h) cras_iodev option" where
  "configure_ext_module fmt dev =
     (if io_ext_dsp_module dev = Some Ext_input_data
      then map_option (\<lambda>dt. dev\<lparr>io_input_data := Some (input_data_configure (ucast (io_buffer_size dev)) (ucast (num_channels fmt)) dt)\<rparr>)
        (io_input_data dev)
      else Some dev)"

definition add_ext_dsp_module_to_pipeline :: "iodev_env \<Rightarrow> ('d, 'h) cras_iodev \<Rightarrow> ('d, 'h) cras_iodev option" where
  "add_ext_dsp_module_to_pipeline env dev =
     do {
       fmt \<leftarrow> io_format dev;
       ctx \<leftarrow> io_dsp_context (with_dsp_pipeline env fmt dev);
       if \<not> dsp_pipeline ctx then None
       else map_option (\<lambda>d. d\<lparr>io_dsp_context := Some (ctx\<lparr>dsp_ext := io_ext_dsp_module d\<rparr>)\<rparr>)
         (configure_ext_module fmt (with_dsp_pipeline env fmt dev)) }"

definition release_ext_dsp_module_from_pipeline :: "('d, 'h) cras_iodev \<Rightarrow> ('d, 'h) cras_iodev" where
  "release_ext_dsp_module_from_pipeline dev =
     dev\<lparr>io_dsp_context := map_option (\<lambda>ctx. if dsp_pipeline ctx then ctx\<lparr>dsp_ext := None\<rparr> else ctx) (io_dsp_context dev)\<rparr>"

definition cras_iodev_set_ext_dsp_module :: "iodev_env \<Rightarrow> ext_dsp_module option \<Rightarrow> ('d, 'h) cras_iodev \<Rightarrow>
    ('d, 'h) cras_iodev option" where
  "cras_iodev_set_ext_dsp_module env ext dev =
     (let d = dev\<lparr>io_ext_dsp_module := ext\<rparr> in
      if \<not> cras_iodev_is_open d then Some d
      else if ext \<noteq> None then add_ext_dsp_module_to_pipeline env d else Some (release_ext_dsp_module_from_pipeline d))"

definition update_node :: "u32 \<Rightarrow> (cras_ionode \<Rightarrow> cras_ionode) \<Rightarrow> ('d, 'h) cras_iodev \<Rightarrow> ('d, 'h) cras_iodev" where
  "update_node i f dev = dev\<lparr>io_nodes := map (\<lambda>n. if nd_idx n = i then f n else n) (io_nodes dev)\<rparr>"

definition cras_iodev_dsp_set_swap_mode_for_node :: "iodev_env \<Rightarrow> cras_ionode \<Rightarrow> bool \<Rightarrow> ('d, 'h) cras_iodev \<Rightarrow> ('d, 'h) cras_iodev" where
  "cras_iodev_dsp_set_swap_mode_for_node env node enable dev =
     (if nd_left_right_swapped node = enable then dev
      else let d = update_node (nd_idx node) (\<lambda>n. n\<lparr>nd_left_right_swapped := enable\<rparr>) dev
        in if io_active_node d = Some (nd_idx node) then cras_iodev_update_dsp env d else d)"

definition cras_iodev_get_dsp_delay :: "('d, 'h) cras_iodev \<Rightarrow> int" where
  "cras_iodev_get_dsp_delay dev =
     (case io_dsp_context dev of None \<Rightarrow> 0 | Some ctx \<Rightarrow> if dsp_pipeline ctx then dsp_delay ctx else 0)"

definition cras_iodev_delay_frames :: "('d, 'h) iodev_ops \<Rightarrow> ('d, 'h) cras_iodev \<Rightarrow> int" where
  "cras_iodev_delay_frames ops dev = op_delay_frames ops dev + cras_iodev_get_dsp_delay dev"

definition cras_iodev_init_audio_area :: "nat \<Rightarrow> ('d, 'h) cras_iodev \<Rightarrow> ('d, 'h) cras_iodev option" where
  "cras_iodev_init_audio_area n dev =
     map_option (\<lambda>fmt. dev\<lparr>io_area := Some (cras_audio_area_config_channels (cras_audio_area_create n) fmt)\<rparr>) (io_format dev)"

definition cras_iodev_free_audio_area :: "('d, 'h) cras_iodev \<Rightarrow> ('d, 'h) cras_iodev" where
  "cras_iodev_free_audio_area dev = dev\<lparr>io_area := None\<rparr>"

definition cras_iodev_free_resources :: "('d, 'h) cras_iodev \<Rightarrow> ('d, 'h) cras_iodev" where
  "cras_iodev_free_resources dev = (cras_iodev_free_dsp dev)\<lparr>io_rate_est := False, io_ramp := None\<rparr>"

section \<open>Buffers of the device\<close>

definition cras_iodev_frames_queued :: "('d, 'h) iodev_ops \<Rightarrow> ('d, 'h) cras_iodev \<Rightarrow> int \<times> timespec \<times> ('d, 'h) cras_iodev" where
  "cras_iodev_frames_queued ops dev =
     (let (rc, tstamp, d) = op_frames_queued ops dev;
          d1 = (if rc = - EPIPE then log_event Severe_underrun d else d)
      in if rc < 0 then (rc, tstamp, d1)
         else if io_direction d1 = CRAS_STREAM_INPUT
         then (rc, tstamp, if rc > 0 then d1\<lparr>io_input_streaming := True\<rparr> else d1)
         else if rc < uint (io_min_buffer_level d1) then (0, tstamp, d1)
         else (rc - uint (io_min_buffer_level d1), tstamp, d1))"

definition cras_iodev_get_valid_frames :: "('d, 'h) iodev_ops \<Rightarrow> ('d, 'h) cras_iodev \<Rightarrow> int \<times> timespec option \<times> ('d, 'h) cras_iodev" where
  \<comment> \<open>the time stamp is written unless the device is no output device\<close>
  "cras_iodev_get_valid_frames ops dev =
     (if io_direction dev \<noteq> CRAS_STREAM_OUTPUT then (- EINVAL, None, dev)
      else case op_get_valid_frames ops of
        Some f \<Rightarrow>
          let (rc, tstamp, d) = f dev
          in (if rc < 0 then rc else if rc < uint (io_min_buffer_level d) then 0 else rc - uint (io_min_buffer_level d), Some tstamp, d)
      | None \<Rightarrow> let (rc, tstamp, d) = cras_iodev_frames_queued ops dev in (rc, Some tstamp, d))"

definition cras_iodev_buffer_avail :: "u32 \<Rightarrow> ('d, 'h) cras_iodev \<Rightarrow> int" where
  "cras_iodev_buffer_avail hw_level dev =
     (if io_direction dev = CRAS_STREAM_INPUT then sint hw_level
      else if ucast (hw_level + io_min_buffer_level dev) > io_buffer_size dev then 0
      else sint (ucast (io_buffer_size dev - ucast (io_min_buffer_level dev) - ucast hw_level) :: u32))"

definition cras_iodev_get_output_buffer :: "('d, 'h) iodev_ops \<Rightarrow> u32 \<Rightarrow> ('d, 'h) cras_iodev \<Rightarrow>
    int \<times> u32 \<times> cras_audio_area option \<times> ('d, 'h) cras_iodev" where
  "cras_iodev_get_output_buffer ops frames dev =
     (let (rc, n, a, d) = op_get_buffer ops frames dev in (if n > frames then - EINVAL else rc, n, a, d))"

definition log_loopbacks :: "loopback_type \<Rightarrow> u32 \<Rightarrow> ('d, 'h) cras_iodev \<Rightarrow> ('d, 'h) cras_iodev" where
  "log_loopbacks t nframes dev =
     fold (\<lambda>lb. log_event (Loopback_data (lb_data lb) nframes)) (filter (\<lambda>lb. lb_type lb = t) (io_loopbacks dev)) dev"

definition scaled_ramp :: "iodev_env \<Rightarrow> c_float \<Rightarrow> cras_ramp_action \<Rightarrow> rat \<times> rat \<times> rat" where
  \<comment> \<open>the ramp with the software volume, a finite number\<close>
  "scaled_ramp env vol a =
     (case vol of Fin v \<Rightarrow> (env_rnd env (act_scaler a * v), env_rnd env (act_increment a * v), env_rnd env (act_target a * v))
      | _ \<Rightarrow> (act_scaler a, act_increment a, act_target a))"

definition play_ramp :: "u32 \<Rightarrow> rat \<times> rat \<times> rat \<Rightarrow> u32 cras_ramp \<Rightarrow> ('d, 'h) cras_iodev \<Rightarrow> ('d, 'h) cras_iodev" where
  \<comment> \<open>\<^verbatim>\<open>cras_scale_buffer_increment\<close>, then the ramp is told the frames and may call back\<close>
  "play_ramp nframes sc ramp dev =
     (let (rc, cb, r') = cras_ramp_update_ramped_frames (sint nframes) ramp;
          d = log_event (Ramped nframes (fst sc) (fst (snd sc)) (snd (snd sc))) dev\<lparr>io_ramp := Some r'\<rparr>
      in case cb of None \<Rightarrow> d | Some i \<Rightarrow> log_event (Mute_request i) d)"

definition scale_output :: "iodev_env \<Rightarrow> ('p, 's) system_state \<Rightarrow> u32 \<Rightarrow> ('d, 'h) cras_iodev \<Rightarrow> ('d, 'h) cras_iodev" where
  \<comment> \<open>muting, ramping and software volume\<close>
  "scale_output env sys nframes dev =
     (let action = map_option (cras_ramp_get_current_action (env_rnd env)) (io_ramp dev);
          partial = (case action of None \<Rightarrow> False | Some a \<Rightarrow> act_type a = CRAS_RAMP_ACTION_PARTIAL);
          should_mute = output_should_mute sys dev;
          softvol = cras_iodev_software_volume_needed dev;
          vol = (if softvol then cras_iodev_get_software_volume_scaler env sys dev else Fin 1);
          d1 = (if should_mute \<and> \<not> partial then log_event (Muted nframes) dev else dev)
      in case (action, io_ramp dev) of
           (Some a, Some ramp) \<Rightarrow>
             if act_type a = CRAS_RAMP_ACTION_PARTIAL
             then play_ramp nframes (if softvol then scaled_ramp env vol a else (act_scaler a, act_increment a, act_target a)) ramp d1
             else if \<not> should_mute \<and> softvol then log_event (Scaled nframes vol) d1 else d1
         | _ \<Rightarrow> if \<not> should_mute \<and> softvol then log_event (Scaled nframes vol) d1 else d1)"

text \<open>The buffer is given by its bytes.  The result: the return value, the new \<^verbatim>\<open>*is_non_empty\<close> if it was asked for and
  the output is not empty, and the device.\<close>

definition cras_iodev_put_output_buffer :: "iodev_env \<Rightarrow> ('p, 's) system_state \<Rightarrow> ('d, 'h) iodev_ops \<Rightarrow> u8 list \<Rightarrow> u32 \<Rightarrow>
    bool \<Rightarrow> bool \<Rightarrow> ('d, 'h) cras_iodev \<Rightarrow> (int \<times> bool \<times> ('d, 'h) cras_iodev) option" where
  "cras_iodev_put_output_buffer env sys ops frames nframes check_empty remix dev =
     do {
       fmt \<leftarrow> io_format dev;
       let non_empty = (check_empty \<and> (\<exists>b \<in> set (take (unat (ucast nframes * cras_get_format_bytes (env_width env) fmt)) frames). b \<noteq> 0));
       (rc, d1) \<leftarrow> apply_dsp env 0 nframes (log_loopbacks LOOPBACK_POST_MIX_PRE_DSP nframes dev);
       if rc \<noteq> 0 then Some (rc, non_empty, d1)
       else
         let d2 = scale_output env sys nframes (log_loopbacks LOOPBACK_POST_DSP nframes d1);
             d3 = (if remix then log_event (Remixed nframes) d2 else d2);
             d4 = (if io_rate_est d3 then log_event (Rate_frames (sint nframes)) d3 else d3);
             (rc4, d5) = op_put_buffer ops nframes d4
         in Some (rc4, non_empty, d5) }"

partial_function (option) fill_zeros_loop :: "iodev_env \<Rightarrow> ('p, 's) system_state \<Rightarrow> ('d, 'h) iodev_ops \<Rightarrow>
    ('d, 'h) cras_iodev \<Rightarrow> u32 \<Rightarrow> (int \<times> ('d, 'h) cras_iodev) option" where
  "fill_zeros_loop env sys ops dev frames =
     (if frames = 0 then Some (0, dev)
      else let (rc, n, a, d1) = cras_iodev_get_output_buffer ops frames dev in
        if rc < 0 then Some (rc, d1)
        else if a = None then None
        else do {
          (rc2, ne, d2) \<leftarrow> cras_iodev_put_output_buffer env sys ops [] n False False (log_event (Zeroed n) d1);
          fill_zeros_loop env sys ops d2 (frames - n) })"

declare fill_zeros_loop.simps [code]

definition cras_iodev_fill_odev_zeros :: "iodev_env \<Rightarrow> ('p, 's) system_state \<Rightarrow> ('d, 'h) iodev_ops \<Rightarrow> u32 \<Rightarrow>
    ('d, 'h) cras_iodev \<Rightarrow> (int \<times> ('d, 'h) cras_iodev) option" where
  "cras_iodev_fill_odev_zeros env sys ops frames dev =
     (if io_direction dev \<noteq> CRAS_STREAM_OUTPUT then Some (- EINVAL, dev)
      else fill_zeros_loop env sys ops dev frames)"

definition cras_iodev_output_underrun :: "iodev_env \<Rightarrow> ('p, 's) system_state \<Rightarrow> ('d, 'h) iodev_ops \<Rightarrow>
    ('d, 'h) cras_iodev \<Rightarrow> (int \<times> ('d, 'h) cras_iodev) option" where
  "cras_iodev_output_underrun env sys ops dev =
     (let d = log_event Underrun (dev\<lparr>io_num_underruns := io_num_underruns dev + 1\<rparr>) in
      case op_output_underrun ops of Some f \<Rightarrow> f d
      | None \<Rightarrow> cras_iodev_fill_odev_zeros env sys ops (io_min_cb_level d) d)"

definition no_stream_level :: "iodev_env \<Rightarrow> ('p, 's) system_state \<Rightarrow> ('d, 'h) iodev_ops \<Rightarrow> int \<Rightarrow> ('d, 'h) cras_iodev \<Rightarrow>
    (int \<times> int \<times> ('d, 'h) cras_iodev) option" where
  \<comment> \<open>an underrun is handled and the level read again: the error, if any, and the level\<close>
  "no_stream_level env sys ops rc dev =
     (if rc \<noteq> 0 then Some (0, rc, dev)
      else do {
        (rc1, d) \<leftarrow> cras_iodev_output_underrun env sys ops dev;
        if rc1 < 0 then Some (rc1, 0, d)
        else let (rc2, ts1, d') = cras_iodev_frames_queued ops d in Some (if rc2 < 0 then rc2 else 0, rc2, d') })"

definition default_no_stream_playback :: "iodev_env \<Rightarrow> ('p, 's) system_state \<Rightarrow> ('d, 'h) iodev_ops \<Rightarrow>
    ('d, 'h) cras_iodev \<Rightarrow> (int \<times> ('d, 'h) cras_iodev) option" where
  "default_no_stream_playback env sys ops dev =
     (let target = io_min_cb_level dev * 2; (rc, ts0, d1) = cras_iodev_frames_queued ops dev in
      if rc < 0 then Some (rc, d1)
      else do {
        (rc2, lv, d2) \<leftarrow> no_stream_level env sys ops rc d1;
        if rc2 < 0 then Some (rc2, d2)
        else let hw_level = (of_int lv :: u32); avail = (of_int (cras_iodev_buffer_avail hw_level d2) :: u32) in
          if hw_level \<le> target then cras_iodev_fill_odev_zeros env sys ops (min (target - hw_level) avail) d2
          else Some (0, d2) })"

definition cras_iodev_default_no_stream_playback :: "iodev_env \<Rightarrow> ('p, 's) system_state \<Rightarrow> ('d, 'h) iodev_ops \<Rightarrow> bool \<Rightarrow>
    ('d, 'h) cras_iodev \<Rightarrow> (int \<times> ('d, 'h) cras_iodev) option" where
  "cras_iodev_default_no_stream_playback env sys ops enable dev =
     (if enable then default_no_stream_playback env sys ops dev else Some (0, dev))"

section \<open>Ramps\<close>

definition ramp_duration :: "iodev_env \<Rightarrow> rat \<Rightarrow> cras_audio_format \<Rightarrow> int" where
  \<comment> \<open>\<^verbatim>\<open>duration_secs * format->frame_rate\<close>, converted to \<^verbatim>\<open>int\<close>\<close>
  "ramp_duration env secs fmt = \<lfloor>env_rnd env (env_rnd env secs * env_rnd env (of_int (uint (frame_rate fmt))))\<rfloor>"

definition ramp_parameters :: "ramp_request \<Rightarrow> (rat \<times> rat \<times> rat) option" where
  "ramp_parameters request =
     (case request of
        CRAS_IODEV_RAMP_REQUEST_UP_UNMUTE \<Rightarrow> Some (0, 1, 1 / 2)
      | CRAS_IODEV_RAMP_REQUEST_UP_START_PLAYBACK \<Rightarrow> Some (0, 1, 1 / 100)
      | CRAS_IODEV_RAMP_REQUEST_DOWN_MUTE \<Rightarrow> Some (1, 0, 1 / 10)
      | CRAS_IODEV_RAMP_REQUEST_RESUME_MUTE \<Rightarrow> Some (0, 0, 1)
      | CRAS_IODEV_RAMP_REQUEST_SWITCH_MUTE \<Rightarrow> Some (0, 0, 1 / 2)
      | CRAS_IODEV_RAMP_REQUEST_NONE \<Rightarrow> None)"

definition cras_iodev_start_ramp :: "iodev_env \<Rightarrow> ramp_request \<Rightarrow> ('d, 'h) cras_iodev \<Rightarrow> (int \<times> ('d, 'h) cras_iodev) option" where
  "cras_iodev_start_ramp env request dev =
     (if \<not> cras_iodev_is_open dev then Some (0, dev)
      else case ramp_parameters request of None \<Rightarrow> Some (- EINVAL, dev)
      | Some (from, to, secs) \<Rightarrow> do {
          fmt \<leftarrow> io_format dev;
          let d1 = (if request = CRAS_IODEV_RAMP_REQUEST_RESUME_MUTE \<or> request = CRAS_IODEV_RAMP_REQUEST_SWITCH_MUTE
            then dev\<lparr>io_initial_ramp_request := CRAS_IODEV_RAMP_REQUEST_UP_START_PLAYBACK\<rparr> else dev);
          let (rc, ramp) = cras_mute_ramp_start (env_rnd env) from to (ramp_duration env secs fmt)
            (if request = CRAS_IODEV_RAMP_REQUEST_DOWN_MUTE then Some (io_idx dev) else None) (io_ramp d1);
          let d2 = d1\<lparr>io_ramp := ramp\<rparr>;
          if rc \<noteq> 0 then Some (rc, d2)
          else Some (0, if request = CRAS_IODEV_RAMP_REQUEST_UP_UNMUTE then log_event (Mute_request (io_idx d2)) d2 else d2) })"

definition cras_iodev_start_volume_ramp :: "iodev_env \<Rightarrow> u32 \<Rightarrow> u32 \<Rightarrow> ('d, 'h) cras_iodev \<Rightarrow> int \<times> ('d, 'h) cras_iodev" where
  \<comment> \<open>the scalers of the volume curve are finite\<close>
  "cras_iodev_start_volume_ramp env old_volume new_volume dev =
     (if old_volume = new_volume then (0, dev)
      else if \<not> cras_iodev_is_open dev then (0, dev)
      else case io_format dev of None \<Rightarrow> (- EINVAL, dev)
      | Some fmt \<Rightarrow>
          let scaler = (\<lambda>v. case Option.bind (active_node dev) nd_softvol_scalers of Some sc \<Rightarrow> sc ! unat v | None \<Rightarrow> env_softvol env v);
              rat_of = (\<lambda>c. case c of Fin x \<Rightarrow> x | _ \<Rightarrow> 0)
          in if scaler new_volume = Fin 0 then (- EINVAL, dev)
             else let (rc, ramp) = cras_volume_ramp_start (env_rnd env) (env_rnd env (rat_of (scaler old_volume) / rat_of (scaler new_volume)))
                   1 (ramp_duration env (1 / 10) fmt) None (io_ramp dev)
               in (rc, dev\<lparr>io_ramp := ramp\<rparr>))"

section \<open>The state machine of output devices\<close>

definition cras_iodev_start :: "('d, 'h) iodev_ops \<Rightarrow> ('d, 'h) cras_iodev \<Rightarrow> int \<times> ('d, 'h) cras_iodev" where
  "cras_iodev_start ops dev =
     (if \<not> cras_iodev_is_open dev then (- EPERM, dev)
      else case op_start ops of None \<Rightarrow> (- EINVAL, dev)
      | Some f \<Rightarrow> let (rc, d) = f dev in if rc \<noteq> 0 then (rc, d) else (0, d\<lparr>io_state := CRAS_IODEV_STATE_NORMAL_RUN\<rparr>))"

fun playback_frames_loop :: "rounding \<Rightarrow> int \<Rightarrow> 'd dev_stream list \<Rightarrow> int \<times> 'd dev_stream list" where
  "playback_frames_loop rnd frames [] = (frames, [])"
| "playback_frames_loop rnd frames (ds # rest) =
     (if \<not> ds_is_running ds
      then let (n, rest') = playback_frames_loop rnd frames rest in (n, ds # rest')
      else
        let ds' = (if dev_stream_attached_devs ds = 1 then dev_stream_update_frames ds else ds);
            dev_frames = dev_stream_playback_frames rnd ds'
        in if dev_frames = 0 \<and> is_draining (ds_stream ds') = 0 then (0, ds' # rest)
           else let frames' = (if dev_frames \<le> 0 then frames else if frames = 0 then dev_frames else min dev_frames frames);
                    (n, rest') = playback_frames_loop rnd frames' rest
             in (n, ds' # rest'))"

definition dev_playback_frames :: "iodev_env \<Rightarrow> ('d, 'h) cras_iodev \<Rightarrow> int \<times> ('d, 'h) cras_iodev" where
  "dev_playback_frames env dev =
     (let (n, ss) = playback_frames_loop (env_rnd env) 0 (io_streams dev) in (n, dev\<lparr>io_streams := ss\<rparr>))"

definition cras_iodev_no_stream_playback_transition :: "('d, 'h) iodev_ops \<Rightarrow> bool \<Rightarrow> ('d, 'h) cras_iodev \<Rightarrow>
    (int \<times> ('d, 'h) cras_iodev) option" where
  "cras_iodev_no_stream_playback_transition ops enable dev =
     (if io_direction dev \<noteq> CRAS_STREAM_OUTPUT then Some (- EINVAL, dev)
      else if io_state dev \<noteq> CRAS_IODEV_STATE_NORMAL_RUN \<and> io_state dev \<noteq> CRAS_IODEV_STATE_NO_STREAM_RUN
      then Some (- EINVAL, dev)
      else do {
        (rc, d) \<leftarrow> op_no_stream ops enable dev;
        if rc < 0 then Some (rc, d)
        else Some (0, d\<lparr>io_state := if enable then CRAS_IODEV_STATE_NO_STREAM_RUN else CRAS_IODEV_STATE_NORMAL_RUN\<rparr>) })"

definition cras_iodev_output_event_sample_ready :: "iodev_env \<Rightarrow> ('p, 's) system_state \<Rightarrow> ('d, 'h) iodev_ops \<Rightarrow>
    ('d, 'h) cras_iodev \<Rightarrow> (int \<times> ('d, 'h) cras_iodev) option" where
  "cras_iodev_output_event_sample_ready env sys ops dev =
     do {
       (rc0, d1) \<leftarrow> (if (io_state dev = CRAS_IODEV_STATE_OPEN \<or> io_state dev = CRAS_IODEV_STATE_NO_STREAM_RUN) \<and>
              io_ramp dev \<noteq> None \<and> \<not> output_should_mute sys dev
            then cras_iodev_start_ramp env (io_initial_ramp_request dev) dev else Some (0, dev));
       if io_state d1 = CRAS_IODEV_STATE_OPEN then do {
         (rc, d2) \<leftarrow> cras_iodev_fill_odev_zeros env sys ops (io_min_cb_level d1) d1;
         Some (cras_iodev_start ops d2) }
       else if io_state d1 = CRAS_IODEV_STATE_NO_STREAM_RUN then cras_iodev_no_stream_playback_transition ops False d1
       else Some (- EINVAL, d1) }"

definition cras_iodev_prepare_output_before_write_samples :: "iodev_env \<Rightarrow> ('p, 's) system_state \<Rightarrow> ('d, 'h) iodev_ops \<Rightarrow>
    ('d, 'h) cras_iodev \<Rightarrow> (int \<times> ('d, 'h) cras_iodev) option" where
  "cras_iodev_prepare_output_before_write_samples env sys ops dev =
     (if io_direction dev \<noteq> CRAS_STREAM_OUTPUT then Some (- EINVAL, dev)
      else
        let may_enter = (io_state dev = CRAS_IODEV_STATE_OPEN \<or> io_state dev = CRAS_IODEV_STATE_NO_STREAM_RUN);
            (n, d1) = (if may_enter then dev_playback_frames env dev else (0, dev))
        in if may_enter \<and> n \<noteq> 0 then cras_iodev_output_event_sample_ready env sys ops d1
           else if io_state dev = CRAS_IODEV_STATE_NO_STREAM_RUN then op_no_stream ops True d1
           else Some (0, d1))"

section \<open>Streams of a device\<close>

definition cras_iodev_start_stream :: "iodev_env \<Rightarrow> (nat \<Rightarrow> 'd id_offset) \<Rightarrow> 'd dev_stream \<Rightarrow> ('d, 'h) cras_iodev \<Rightarrow>
    ('d, 'h) cras_iodev option" where
  "cras_iodev_start_stream env junk ds dev =
     (let thr = dev_stream_cb_threshold (env_rnd env) ds; s = ds_stream ds in
      if ds_is_running ds then Some dev
      else do {
        bs \<leftarrow> (if flags s AND TRIGGER_ONLY = 0
          then do { b \<leftarrow> io_buf_state dev; (rc, b') \<leftarrow> buffer_share_add_id junk b (stream_id s) None; Some (Some b') }
          else Some (io_buf_state dev));
        Some (dev\<lparr>io_buf_state := bs, io_min_cb_level := min (io_min_cb_level dev) thr,
          io_max_cb_level := max (io_max_cb_level dev) thr, io_largest_cb_level := max (io_largest_cb_level dev) thr,
          io_streams := map (\<lambda>d. if stream_id (ds_stream d) = stream_id s then d\<lparr>ds_is_running := True\<rparr> else d) (io_streams dev)\<rparr>) })"

definition cras_iodev_add_stream :: "iodev_env \<Rightarrow> (nat \<Rightarrow> 'd id_offset) \<Rightarrow> 'd dev_stream \<Rightarrow> ('d, 'h) cras_iodev \<Rightarrow>
    ('d, 'h) cras_iodev option" where
  "cras_iodev_add_stream env junk ds dev =
     (let d1 = dev\<lparr>io_streams := io_streams dev @ [ds],
            io_buf_state := (case io_buf_state dev of None \<Rightarrow> Some (buffer_share_create (ucast (io_buffer_size dev))) | bs \<Rightarrow> bs)\<rparr>
      in if direction (ds_stream ds) = CRAS_STREAM_INPUT then cras_iodev_start_stream env junk ds d1 else Some d1)"

text \<open>The loop over the streams when one is removed: it recomputes the levels and the earliest callback of the streams
  that run.\<close>

definition cb_levels :: "rounding \<Rightarrow> 'd dev_stream list \<Rightarrow> u32 \<times> u32 \<Rightarrow> u32 \<times> u32" where
  "cb_levels rnd ss lv = fold (\<lambda>ds (mn, mx). let t = dev_stream_cb_threshold rnd ds in (min mn t, max mx t))
     (filter ds_is_running ss) lv"

definition earliest_cb :: "'d dev_stream list \<Rightarrow> timespec option" where
  "earliest_cb ss = fold (\<lambda>ds e. case e of None \<Rightarrow> Some (next_cb_ts (ds_stream ds))
       | Some t \<Rightarrow> Some (if timespec_after t (next_cb_ts (ds_stream ds)) then next_cb_ts (ds_stream ds) else t))
     (filter ds_is_running ss) None"

definition cras_iodev_rm_stream :: "iodev_env \<Rightarrow> ('d, 'h) iodev_ops \<Rightarrow> u32 \<Rightarrow> ('d, 'h) cras_iodev \<Rightarrow>
    ('d dev_stream option \<times> ('d, 'h) cras_iodev) option" where
  \<comment> \<open>the stream is given by its number\<close>
  "cras_iodev_rm_stream env ops sid dev =
     (let out = find (\<lambda>ds. stream_id (ds_stream ds) = sid) (io_streams dev);
          rest = filter (\<lambda>ds. stream_id (ds_stream ds) \<noteq> sid) (io_streams dev);
          (mn, mx) = cb_levels (env_rnd env) rest (ucast (io_buffer_size dev div 2), 0)
      in do {
        bs \<leftarrow> (if out = None then Some (io_buf_state dev)
          else map_option (\<lambda>b. Some (snd (buffer_share_rm_id b sid))) (io_buf_state dev));
        let d1 = dev\<lparr>io_streams := rest, io_buf_state := bs, io_min_cb_level := mn, io_max_cb_level := mx\<rparr>;
        d2 \<leftarrow> (if rest \<noteq> [] then Some d1
          else let d = d1\<lparr>io_buf_state := None, io_min_cb_level := ucast (io_buffer_size dev div 2)\<rparr> in
            if io_direction d = CRAS_STREAM_OUTPUT \<and> io_state d = CRAS_IODEV_STATE_NORMAL_RUN
            then map_option snd (cras_iodev_no_stream_playback_transition ops True d) else Some d);
        Some (out, case earliest_cb rest of None \<Rightarrow> d2
          | Some t \<Rightarrow> d2\<lparr>io_streams := map (\<lambda>ds. if ds_is_running ds then ds
              else ds\<lparr>ds_stream := (ds_stream ds)\<lparr>next_cb_ts := t\<rparr>\<rparr>) (io_streams d2)\<rparr>) })"

definition cras_iodev_stream_offset :: "u32 \<Rightarrow> ('d, 'h) cras_iodev \<Rightarrow> u32 option" where
  "cras_iodev_stream_offset sid dev = map_option (\<lambda>b. buffer_share_id_offset b sid) (io_buf_state dev)"

definition cras_iodev_stream_written :: "u32 \<Rightarrow> u32 \<Rightarrow> ('d, 'h) cras_iodev \<Rightarrow> ('d, 'h) cras_iodev option" where
  "cras_iodev_stream_written sid nwritten dev =
     map_option (\<lambda>b. dev\<lparr>io_buf_state := Some (snd (buffer_share_offset_update b sid nwritten))\<rparr>) (io_buf_state dev)"

definition cras_iodev_all_streams_written :: "('d, 'h) cras_iodev \<Rightarrow> u32 \<times> ('d, 'h) cras_iodev" where
  "cras_iodev_all_streams_written dev =
     (case io_buf_state dev of None \<Rightarrow> (0, dev)
      | Some b \<Rightarrow> let (n, b') = buffer_share_get_new_write_point b in (n, dev\<lparr>io_buf_state := Some b'\<rparr>))"

definition cras_iodev_max_stream_offset :: "('d, 'h) cras_iodev \<Rightarrow> u32 option" where
  "cras_iodev_max_stream_offset dev =
     (let running = filter ds_is_running (io_streams dev) in
      if running = [] then Some 0
      else map_option (\<lambda>b. fold (\<lambda>ds m. max m (buffer_share_id_offset b (stream_id (ds_stream ds)))) running 0) (io_buf_state dev))"

section \<open>Opening and closing\<close>

definition log_loopback_control :: "bool \<Rightarrow> ('d, 'h) cras_iodev \<Rightarrow> ('d, 'h) cras_iodev" where
  "log_loopback_control start dev =
     fold (\<lambda>lb. log_event (Loopback_control (lb_data lb) start)) (filter lb_has_control (io_loopbacks dev)) dev"

definition open_driver :: "iodev_env \<Rightarrow> ('d, 'h) iodev_ops \<Rightarrow> cras_audio_format \<Rightarrow> ('d, 'h) cras_iodev \<Rightarrow>
    (int \<times> ('d, 'h) cras_iodev) option" where
  \<comment> \<open>the hooks, the driver and the format, up to \<^verbatim>\<open>configure_dev\<close>\<close>
  "open_driver env ops fmt dev =
     (let d0 = log_loopback_control True (if io_has_pre_open_hook dev then log_event Pre_open_hook dev else dev);
          (rc1, d1) = (case op_open_dev ops of None \<Rightarrow> (0, d0) | Some f \<Rightarrow> f d0)
      in if rc1 \<noteq> 0 then Some (rc1, d1)
         else do {
           (rc2, d2) \<leftarrow> (if io_format d1 = None then cras_iodev_set_format env ops fmt d1 else Some (0, d1));
           if rc2 \<noteq> 0 then Some (rc2, snd (op_close_dev ops d2))
           else let (rc3, d3) = op_configure_dev ops d2 in
             if rc3 < 0 then Some (rc3, snd (op_close_dev ops d3)) else Some (0, d3) })"

definition enter_run_state :: "iodev_env \<Rightarrow> ('p, 's) system_state \<Rightarrow> ('d, 'h) iodev_ops \<Rightarrow> ('d, 'h) cras_iodev \<Rightarrow>
    ('d, 'h) cras_iodev option" where
  \<comment> \<open>an output device with \<^verbatim>\<open>start\<close> stays open, another plays zeros; an input device runs\<close>
  "enter_run_state env sys ops dev =
     (if io_direction dev = CRAS_STREAM_OUTPUT
      then (if op_start ops \<noteq> None then Some dev
        else map_option snd (cras_iodev_fill_odev_zeros env sys ops (io_min_cb_level dev) (dev\<lparr>io_state := CRAS_IODEV_STATE_NO_STREAM_RUN\<rparr>)))
      else map_option (\<lambda>gain. dev\<lparr>io_input_data := Some input_data_create,
          io_ext_dsp_module := (case io_ext_dsp_module dev of None \<Rightarrow> Some Ext_input_data | e \<Rightarrow> e),
          io_state := CRAS_IODEV_STATE_NORMAL_RUN, io_input_streaming := False, io_software_gain_scaler := gain\<rparr>)
        (cras_iodev_get_software_gain_scaler env dev))"

definition reset_for_open :: "u32 \<Rightarrow> ('d, 'h) cras_iodev \<Rightarrow> ('d, 'h) cras_iodev" where
  "reset_for_open cb dev =
     dev\<lparr>io_min_cb_level := ucast (min (io_buffer_size dev div 2) (ucast cb)), io_max_cb_level := 0,
       io_largest_cb_level := 0, io_num_underruns := 0, io_reset_request_pending := False,
       io_state := CRAS_IODEV_STATE_OPEN, io_highest_hw_level := 0, io_input_dsp_offset := 0\<rparr>"

definition cras_iodev_open :: "iodev_env \<Rightarrow> ('p, 's) system_state \<Rightarrow> ('d, 'h) iodev_ops \<Rightarrow> timespec \<Rightarrow> u32 \<Rightarrow>
    cras_audio_format \<Rightarrow> ('d, 'h) cras_iodev \<Rightarrow> (int \<times> ('d, 'h) cras_iodev) option" where
  "cras_iodev_open env sys ops now cb_level fmt dev =
     do {
       (rc, d3) \<leftarrow> open_driver env ops fmt dev;
       if rc \<noteq> 0 then Some (rc, d3)
       else do {
         f \<leftarrow> io_format d3;
         let cb = (ucast (cras_frames_at_rate (frame_rate fmt) (ucast cb_level) (frame_rate f)) :: u32);
         d5 \<leftarrow> enter_run_state env sys ops (reset_for_open cb d3);
         d6 \<leftarrow> add_ext_dsp_module_to_pipeline env d5;
         Some (0, d6\<lparr>io_open_ts := now\<rparr>) } }"

definition cras_iodev_close :: "('d, 'h) iodev_ops \<Rightarrow> ('d, 'h) cras_iodev \<Rightarrow> int \<times> ('d, 'h) cras_iodev" where
  "cras_iodev_close ops dev =
     (if \<not> cras_iodev_is_open dev then (0, dev)
      else
        let d1 = (if io_input_data dev \<noteq> None
              then dev\<lparr>io_ext_dsp_module := (if io_ext_dsp_module dev = Some Ext_input_data then None else io_ext_dsp_module dev),
                       io_input_data := None\<rparr>
              else dev);
            (rc, d2) = op_close_dev ops d1
        in if rc \<noteq> 0 then (rc, d2)
           else let d3 = d2\<lparr>io_state := CRAS_IODEV_STATE_CLOSE, io_ramp := map_option cras_ramp_reset (io_ramp d2)\<rparr>
             in (0, log_loopback_control False (if io_has_post_close_hook d3 then log_event Post_close_hook d3 else d3)))"

section \<open>Reading from an input device\<close>

definition cras_iodev_get_input_buffer :: "iodev_env \<Rightarrow> ('p, 's) system_state \<Rightarrow> ('d, 'h) iodev_ops \<Rightarrow> u32 \<Rightarrow>
    ('d, 'h) cras_iodev \<Rightarrow> (int \<times> u32 \<times> ('d, 'h) cras_iodev) option" where
  "cras_iodev_get_input_buffer env sys ops requested dev =
     do {
       dt \<leftarrow> io_input_data dev;
       let (rc, n, a, d) = op_get_buffer ops requested dev;
       let d1 = d\<lparr>io_input_data := Some (dt\<lparr>id_area := a\<rparr>)\<rparr>;
       if rc < 0 \<or> n = 0 then Some (rc, n, d1)
       else if n > requested then Some (- EINVAL, n, d1)
       else
         let d2 = d1\<lparr>io_input_frames_read := n\<rparr> in
         do {
           (rc2, d3) \<leftarrow> (if n > io_input_dsp_offset d2
             then apply_dsp env (io_input_dsp_offset d2) (n - io_input_dsp_offset d2) d2 else Some (rc, d2));
           if n > io_input_dsp_offset d2 \<and> rc2 \<noteq> 0 then Some (rc2, n, d3)
           else Some (rc2, n, if cras_system_get_capture_mute sys then log_event (Muted n) d3 else d3) } }"

definition cras_iodev_put_input_buffer :: "('d, 'h) iodev_ops \<Rightarrow> ('d, 'h) cras_iodev \<Rightarrow> (int \<times> ('d, 'h) cras_iodev) option" where
  "cras_iodev_put_input_buffer ops dev =
     do {
       dt \<leftarrow> io_input_data dev;
       (n, d1) \<leftarrow> (if io_streams dev \<noteq> []
         then map_option (\<lambda>b. let (n, b') = buffer_share_get_new_write_point b in (n, dev\<lparr>io_buf_state := Some b'\<rparr>)) (io_buf_state dev)
         else map_option (\<lambda>a. (area_frames a, dev)) (id_area dt));
       let dsp_frames = max (io_input_frames_read d1) (io_input_dsp_offset d1);
       let d2 = log_event (Rate_frames (sint (- n)))
         (d1\<lparr>io_input_dsp_offset := dsp_frames - n, io_input_data := Some (input_data_set_all_streams_read n dt)\<rparr>);
       let (rc, d3) = op_put_buffer ops n d2;
       Some (if rc < 0 then rc else sint n, d3) }"

definition drop_round :: "('d, 'h) iodev_ops \<Rightarrow> u32 \<Rightarrow> ('d, 'h) cras_iodev \<Rightarrow> (int \<times> u32 \<times> ('d, 'h) cras_iodev) option" where
  \<comment> \<open>one round of the loop: the result and the frames read\<close>
  "drop_round ops frames dev =
     do {
       dt \<leftarrow> io_input_data dev;
       let (rc, n, a, d) = op_get_buffer ops frames dev;
       let d1 = d\<lparr>io_input_data := Some (dt\<lparr>id_area := a\<rparr>)\<rparr>;
       if rc < 0 then Some (rc, n, d1)
       else let (rc2, d2) = op_put_buffer ops n d1
         in Some (if rc2 < 0 then (rc2, n, d2) else (0, n, log_event (Rate_frames (sint (- n))) d2)) }"

text \<open>The loop runs at most twice; \<open>i\<close> counts the rounds left.  The result is the last \<^verbatim>\<open>frames\<close>, not the sum.\<close>

fun drop_loop :: "('d, 'h) iodev_ops \<Rightarrow> nat \<Rightarrow> u32 \<Rightarrow> u32 \<Rightarrow> u32 \<Rightarrow> ('d, 'h) cras_iodev \<Rightarrow> (int \<times> u32 \<times> ('d, 'h) cras_iodev) option" where
  "drop_loop ops 0 target dropped frames dev = Some (sint frames, dropped, dev)"
| "drop_loop ops (Suc i) target dropped frames dev =
     (if \<not> dropped < target then Some (sint frames, dropped, dev)
      else do {
        (rc, n, d) \<leftarrow> drop_round ops (target - dropped) dev;
        if rc < 0 then Some (rc, dropped, d) else drop_loop ops i target (dropped + n) n d })"

definition cras_iodev_drop_frames :: "('d, 'h) iodev_ops \<Rightarrow> u32 \<Rightarrow> ('d, 'h) cras_iodev \<Rightarrow> (int \<times> u32 \<times> ('d, 'h) cras_iodev) option" where
  \<comment> \<open>the return value and the number of frames really dropped\<close>
  "cras_iodev_drop_frames ops frames dev =
     (if io_direction dev \<noteq> CRAS_STREAM_INPUT then Some (- EINVAL, 0, dev)
      else let (rc, tstamp, d) = cras_iodev_frames_queued ops dev in
        if rc < 0 then Some (rc, 0, d) else drop_loop ops 2 (min frames (of_int rc)) 0 frames d)"

text \<open>The estimator of the sample rate is driven through the events of the trace; \<open>check\<close> and \<open>est_rate\<close> are its
  answers for a device with that history: whether the estimate changed, and the estimate.\<close>

definition cras_iodev_update_rate :: "(('d, 'h) cras_iodev \<Rightarrow> bool) \<Rightarrow> u32 \<Rightarrow> timespec \<Rightarrow> ('d, 'h) cras_iodev \<Rightarrow>
    (bool \<times> ('d, 'h) cras_iodev) option" where
  "cras_iodev_update_rate check lv tstamp dev =
     do {
       d1 \<leftarrow> (if io_direction dev = CRAS_STREAM_OUTPUT \<and> lv = 0
         then map_option (\<lambda>fmt. log_event (Rate_reset (frame_rate fmt)) dev) (io_format dev) else Some dev);
       let d2 = log_event (Rate_check lv tstamp) d1;
       Some (check d2, d2) }"

definition cras_iodev_reset_rate_estimator :: "('d, 'h) cras_iodev \<Rightarrow> (int \<times> ('d, 'h) cras_iodev) option" where
  "cras_iodev_reset_rate_estimator dev = map_option (\<lambda>fmt. (0, log_event (Rate_reset (frame_rate fmt)) dev)) (io_format dev)"

definition cras_iodev_get_est_rate_ratio :: "rounding \<Rightarrow> (('d, 'h) cras_iodev \<Rightarrow> rat) \<Rightarrow> ('d, 'h) cras_iodev \<Rightarrow> rat option" where
  "cras_iodev_get_est_rate_ratio dbl est_rate dev =
     map_option (\<lambda>fmt. dbl (est_rate dev / of_int (uint (frame_rate fmt)))) (io_format dev)"

definition dev_est_rate :: "rounding \<Rightarrow> (('d, 'h) cras_iodev \<Rightarrow> rat) \<Rightarrow> ('d, 'h) cras_iodev \<Rightarrow> rat option" where
  \<comment> \<open>\<^verbatim>\<open>iodev->format->frame_rate * cras_iodev_get_est_rate_ratio(iodev)\<close>\<close>
  "dev_est_rate dbl est_rate dev =
     do { fmt \<leftarrow> io_format dev; ratio \<leftarrow> cras_iodev_get_est_rate_ratio dbl est_rate dev;
          Some (dbl (of_int (uint (frame_rate fmt)) * ratio)) }"

definition cras_iodev_drop_frames_by_time :: "rounding \<Rightarrow> (('d, 'h) cras_iodev \<Rightarrow> rat) \<Rightarrow> ('d, 'h) iodev_ops \<Rightarrow> timespec \<Rightarrow>
    ('d, 'h) cras_iodev \<Rightarrow> (int \<times> u32 \<times> ('d, 'h) cras_iodev) option" where
  "cras_iodev_drop_frames_by_time dbl est_rate ops t dev =
     do { r \<leftarrow> dev_est_rate dbl est_rate dev;
          cras_iodev_drop_frames ops (ucast (cras_time_to_frames t (to_unsigned r))) dev }"

section \<open>Waking up\<close>

definition cras_iodev_odev_should_wake :: "('d, 'h) iodev_ops \<Rightarrow> ('d, 'h) cras_iodev \<Rightarrow> bool" where
  "cras_iodev_odev_should_wake ops dev =
     (if io_direction dev \<noteq> CRAS_STREAM_OUTPUT then False
      else if case op_is_free_running ops of None \<Rightarrow> False | Some f \<Rightarrow> f dev then False
      else io_state dev = CRAS_IODEV_STATE_NORMAL_RUN \<or> io_state dev = CRAS_IODEV_STATE_NO_STREAM_RUN)"

definition cras_iodev_default_frames_to_play_in_sleep :: "iodev_env \<Rightarrow> ('d, 'h) iodev_ops \<Rightarrow> ('d, 'h) cras_iodev \<Rightarrow>
    (u32 \<times> u32 \<times> timespec \<times> ('d, 'h) cras_iodev) option" where
  \<comment> \<open>the frames, \<^verbatim>\<open>*hw_level\<close>, \<^verbatim>\<open>*hw_tstamp\<close>\<close>
  "cras_iodev_default_frames_to_play_in_sleep env ops dev =
     do {
       fmt \<leftarrow> io_format dev;
       let (rc, tstamp, d1) = cras_iodev_frames_queued ops dev;
       let lv = (if rc < 0 then 0 else of_int rc :: u32);
       Some (if io_streams d1 \<noteq> []
         then let (n, d2) = (if lv > io_min_cb_level d1 then dev_playback_frames env d1 else (0, d1));
                  wakeup = (ucast (cras_time_to_frames (Timespec 0 1000000) (ucast (frame_rate fmt))) :: u32)
           in if lv > io_min_cb_level d1 \<and> n \<noteq> 0 then (lv - io_min_cb_level d1, lv, tstamp, d2)
              else (if lv > wakeup then lv - wakeup else lv, lv, tstamp, d2)
         else let m = min (io_min_cb_level d1) (ucast (cras_time_to_frames (Timespec 0 5000000) (ucast (frame_rate fmt))))
           in (if lv > m then lv - m else 0, lv, tstamp, d1)) }"

definition cras_iodev_frames_to_play_in_sleep :: "iodev_env \<Rightarrow> ('d, 'h) iodev_ops \<Rightarrow> ('d, 'h) cras_iodev \<Rightarrow>
    (u32 \<times> u32 \<times> timespec \<times> ('d, 'h) cras_iodev) option" where
  "cras_iodev_frames_to_play_in_sleep env ops dev =
     (case op_frames_to_play_in_sleep ops of Some f \<Rightarrow> Some (f dev) | None \<Rightarrow> cras_iodev_default_frames_to_play_in_sleep env ops dev)"

function fill_time_loop :: "nat \<Rightarrow> int \<Rightarrow> timespec" where
  "fill_time_loop usec sec = (if usec > 1000000 then fill_time_loop (usec - 1000000) (sec + 1) else Timespec sec (int usec * 1000))"
  by auto
termination by (relation "measure fst") auto

declare fill_time_loop.simps [simp del]

definition cras_iodev_fill_time_from_frames :: "u64 \<Rightarrow> u64 \<Rightarrow> timespec" where
  "cras_iodev_fill_time_from_frames frames rate = fill_time_loop (unat (frames * 1000000 div rate)) 0"

section \<open>Small operations\<close>

definition cras_iodev_reset_request :: "int \<Rightarrow> ('d, 'h) cras_iodev \<Rightarrow> int \<times> ('d, 'h) cras_iodev" where
  \<comment> \<open>the first argument: the result of sending the message\<close>
  "cras_iodev_reset_request send_rc dev =
     (if io_reset_request_pending dev then (0, dev)
      else (if send_rc < 0 then send_rc else 0, log_event (Reset_request (io_idx dev)) (dev\<lparr>io_reset_request_pending := True\<rparr>)))"

definition cras_iodev_update_highest_hw_level :: "u32 \<Rightarrow> ('d, 'h) cras_iodev \<Rightarrow> ('d, 'h) cras_iodev" where
  "cras_iodev_update_highest_hw_level hw_level dev = dev\<lparr>io_highest_hw_level := max (io_highest_hw_level dev) hw_level\<rparr>"

definition cras_iodev_set_mute :: "('d, 'h) iodev_ops \<Rightarrow> ('d, 'h) cras_iodev \<Rightarrow> int \<times> ('d, 'h) cras_iodev" where
  "cras_iodev_set_mute ops dev =
     (if \<not> cras_iodev_is_open dev then (0, dev)
      else case op_set_mute ops of None \<Rightarrow> (0, dev) | Some f \<Rightarrow> (0, f dev))"

definition cras_iodev_get_num_severe_underruns :: "('d, 'h) iodev_ops \<Rightarrow> ('d, 'h) cras_iodev \<Rightarrow> u32" where
  "cras_iodev_get_num_severe_underruns ops dev = (case op_get_num_severe_underruns ops of Some f \<Rightarrow> f dev | None \<Rightarrow> 0)"

definition cras_iodev_exit_idle :: "('d, 'h) cras_iodev \<Rightarrow> ('d, 'h) cras_iodev" where
  "cras_iodev_exit_idle dev = dev\<lparr>io_idle_timeout := Timespec 0 (tv_nsec (io_idle_timeout dev))\<rparr>"

definition cras_iodev_set_node_plugged :: "int \<times> int \<Rightarrow> cras_ionode \<Rightarrow> bool \<Rightarrow> ('d, 'h) cras_iodev \<Rightarrow> ('d, 'h) cras_iodev" where
  "cras_iodev_set_node_plugged now node plugged dev =
     (if nd_plugged node = plugged then dev
      else let d1 = update_node (nd_idx node) (\<lambda>n. n\<lparr>nd_plugged := plugged\<rparr>) dev;
               d2 = (if plugged then update_node (nd_idx node) (\<lambda>n. n\<lparr>nd_plugged_time := now\<rparr>) d1
                 else if io_active_node d1 = Some (nd_idx node) then log_event Disabled d1 else d1)
        in log_event Nodes_changed d2)"

definition cras_iodev_add_node :: "cras_ionode \<Rightarrow> ('d, 'h) cras_iodev \<Rightarrow> ('d, 'h) cras_iodev" where
  "cras_iodev_add_node node dev = log_event Nodes_changed (dev\<lparr>io_nodes := io_nodes dev @ [node]\<rparr>)"

definition cras_iodev_rm_node :: "u32 \<Rightarrow> ('d, 'h) cras_iodev \<Rightarrow> ('d, 'h) cras_iodev" where
  "cras_iodev_rm_node i dev = log_event Nodes_changed (dev\<lparr>io_nodes := filter (\<lambda>n. nd_idx n \<noteq> i) (io_nodes dev)\<rparr>)"

definition cras_iodev_set_active_node :: "u32 option \<Rightarrow> ('d, 'h) cras_iodev \<Rightarrow> ('d, 'h) cras_iodev" where
  "cras_iodev_set_active_node node dev = log_event (Active_node_changed (io_direction dev)) (dev\<lparr>io_active_node := node\<rparr>)"

section \<open>The contract of a driver\<close>

text \<open>Between \<^verbatim>\<open>configure_dev\<close> and \<^verbatim>\<open>close_dev\<close> a driver changes its private data and the audio area of the device, and
  leaves the state, streams and levels to the server.\<close>

definition driver_only :: "('d, 'h) cras_iodev \<Rightarrow> ('d, 'h) cras_iodev \<Rightarrow> bool" where
  "driver_only dev d \<longleftrightarrow> d = dev\<lparr>io_priv := io_priv d, io_area := io_area d\<rparr>"

lemma driver_onlyD:
  assumes "driver_only dev d"
  shows
    "io_state d = io_state dev" "io_direction d = io_direction dev" "io_streams d = io_streams dev"
    "io_buf_state d = io_buf_state dev" "io_min_cb_level d = io_min_cb_level dev" "io_max_cb_level d = io_max_cb_level dev"
    "io_largest_cb_level d = io_largest_cb_level dev" "io_buffer_size d = io_buffer_size dev" "io_min_buffer_level d = io_min_buffer_level dev"
    "io_format d = io_format dev" "io_dsp_context d = io_dsp_context dev" "io_input_data d = io_input_data dev"
    "io_input_dsp_offset d = io_input_dsp_offset dev" "io_trace d = io_trace dev" "io_ramp d = io_ramp dev"
    "io_rate_est d = io_rate_est dev" "io_loopbacks d = io_loopbacks dev" "io_nodes d = io_nodes dev"
    "io_active_node d = io_active_node dev" "io_software_volume_needed d = io_software_volume_needed dev"
proof -
  have e: "d = dev\<lparr>io_priv := io_priv d, io_area := io_area d\<rparr>" using assms by (simp only: driver_only_def)
  show
    "io_state d = io_state dev" "io_direction d = io_direction dev" "io_streams d = io_streams dev"
    "io_buf_state d = io_buf_state dev" "io_min_cb_level d = io_min_cb_level dev" "io_max_cb_level d = io_max_cb_level dev"
    "io_largest_cb_level d = io_largest_cb_level dev" "io_buffer_size d = io_buffer_size dev" "io_min_buffer_level d = io_min_buffer_level dev"
    "io_format d = io_format dev" "io_dsp_context d = io_dsp_context dev" "io_input_data d = io_input_data dev"
    "io_input_dsp_offset d = io_input_dsp_offset dev" "io_trace d = io_trace dev" "io_ramp d = io_ramp dev"
    "io_rate_est d = io_rate_est dev" "io_loopbacks d = io_loopbacks dev" "io_nodes d = io_nodes dev"
    "io_active_node d = io_active_node dev" "io_software_volume_needed d = io_software_volume_needed dev"
    by (subst e, simp)+
qed

locale iodev_driver =
  fixes ops :: "('d, 'h) iodev_ops"
  assumes frames_queued_driver: "op_frames_queued ops dev = (rc, t, d) \<Longrightarrow> driver_only dev d"
    and get_buffer_driver: "op_get_buffer ops n dev = (rc, k, a, d) \<Longrightarrow> driver_only dev d"
    and put_buffer_driver: "op_put_buffer ops n dev = (rc, d) \<Longrightarrow> driver_only dev d"
begin

lemmas get_buffer_keeps = driver_onlyD [OF get_buffer_driver]
lemmas put_buffer_keeps = driver_onlyD [OF put_buffer_driver]

lemma frames_queued_keeps:
  assumes "cras_iodev_frames_queued ops dev = (rc, t, d)"
  shows "io_state d = io_state dev" "io_direction d = io_direction dev" "io_streams d = io_streams dev"
    "io_buf_state d = io_buf_state dev" "io_min_cb_level d = io_min_cb_level dev" "io_buffer_size d = io_buffer_size dev"
proof -
  obtain rc0 t0 d0 where q: "op_frames_queued ops dev = (rc0, t0, d0)" by (metis prod_cases3)
  note k = driver_onlyD [OF frames_queued_driver [OF q]]
  show "io_state d = io_state dev" "io_direction d = io_direction dev" "io_streams d = io_streams dev"
    "io_buf_state d = io_buf_state dev" "io_min_cb_level d = io_min_cb_level dev" "io_buffer_size d = io_buffer_size dev"
    using assms k by (auto simp: cras_iodev_frames_queued_def q Let_def log_event_def split: if_splits)
qed

end

end
