(* ===== verification/Empty_Iodev.thy ===== *)
theory Empty_Iodev
  imports Iodev
begin

text \<open>
  \<^verbatim>\<open>server/cras_empty_iodev.c\<close>: the silent device that is used when no other is enabled.  Its level is made up from
  the frames read or written and the time since its start.  The clock is a function from the number of
  readings to their values.  The operations that the server only calls on an open device use the rate of
  the format that device has.
\<close>

section \<open>Operations\<close>

abbreviation EMPTY_FRAMES :: u32 where "EMPTY_FRAMES \<equiv> 4096"

record empty_iodev =
  ei_audio_buffer :: bool
  ei_read_frames :: u64
  ei_written_frames :: u64
  ei_dev_start_time :: timespec
  ei_clock :: "nat \<Rightarrow> timespec"
  ei_ticks :: nat

type_synonym 'd empty_dev = "('d, empty_iodev) cras_iodev"

definition priv_update :: "(empty_iodev \<Rightarrow> empty_iodev) \<Rightarrow> 'd empty_dev \<Rightarrow> 'd empty_dev" where
  "priv_update f dev = dev\<lparr>io_priv := f (io_priv dev)\<rparr>"

definition read_clock :: "'d empty_dev \<Rightarrow> timespec \<times> 'd empty_dev" where
  \<comment> \<open>\<^verbatim>\<open>clock_gettime\<close>\<close>
  "read_clock dev = (let p = io_priv dev in (ei_clock p (ei_ticks p), dev\<lparr>io_priv := p\<lparr>ei_ticks := Suc (ei_ticks p)\<rparr>\<rparr>))"

definition dev_rate :: "'d empty_dev \<Rightarrow> u32" where
  "dev_rate dev = (case io_format dev of None \<Rightarrow> 0 | Some f \<Rightarrow> ucast (frame_rate f))"

definition current_level :: "'d empty_dev \<Rightarrow> u32 \<times> 'd empty_dev" where
  "current_level dev =
     (if map_option nd_type (active_node dev) = Some CRAS_NODE_TYPE_HOTWORD then (0, dev)
      else
        let (now, d) = read_clock dev; p = io_priv d;
            frames_since_start = cras_frames_since_time now (ei_dev_start_time p) (dev_rate d)
        in (if io_direction d = CRAS_STREAM_INPUT
            then ucast (min (frames_since_start - ei_read_frames p) (ucast EMPTY_FRAMES))
            else if ei_written_frames p \<le> frames_since_start then 0
            else ucast (ei_written_frames p - frames_since_start), d))"

definition frames_queued :: "'d empty_dev \<Rightarrow> int \<times> timespec \<times> 'd empty_dev" where
  "frames_queued dev = (let (t, d1) = read_clock dev; (lv, d2) = current_level d1 in (sint lv, t, d2))"

definition close_dev :: "'d empty_dev \<Rightarrow> int \<times> 'd empty_dev" where
  "close_dev dev = (0, cras_iodev_free_audio_area (priv_update (\<lambda>p. p\<lparr>ei_audio_buffer := False\<rparr>) dev))"

definition configure_dev :: "'d empty_dev \<Rightarrow> int \<times> 'd empty_dev" where
  "configure_dev dev =
     (case io_format dev of None \<Rightarrow> (- EINVAL, dev)
      | Some f \<Rightarrow>
          (case cras_iodev_init_audio_area (unat (num_channels f)) dev of None \<Rightarrow> (- EINVAL, dev)
           | Some d \<Rightarrow>
             let d1 = priv_update (\<lambda>p. p\<lparr>ei_audio_buffer := True, ei_read_frames := 0, ei_written_frames := 0\<rparr>) d;
                 (t, d2) = read_clock d1
             in (0, priv_update (\<lambda>p. p\<lparr>ei_dev_start_time := t\<rparr>) d2)))"

definition get_buffer :: "(snd_pcm_format \<Rightarrow> nat) \<Rightarrow> u32 \<Rightarrow> 'd empty_dev \<Rightarrow> int \<times> u32 \<times> cras_audio_area option \<times> 'd empty_dev" where
  "get_buffer phys_width frames dev =
     (let (lv, d) = current_level dev;
          n = min frames (if io_direction d = CRAS_STREAM_OUTPUT then EMPTY_FRAMES - lv else lv);
          a = (case (io_area d, io_format d) of
                 (Some ar, Some f) \<Rightarrow> Some (cras_audio_area_config_buf_pointers phys_width (ar\<lparr>area_frames := n\<rparr>) f 0)
               | _ \<Rightarrow> None)
      in (0, n, a, d\<lparr>io_area := a\<rparr>))"

definition put_buffer :: "u32 \<Rightarrow> 'd empty_dev \<Rightarrow> int \<times> 'd empty_dev" where
  "put_buffer frames dev =
     (let (lv, d) = current_level dev in
      if io_direction d = CRAS_STREAM_INPUT
      then if lv < frames then (- EPIPE, d)
        else (0, priv_update (\<lambda>p. p\<lparr>ei_read_frames := ei_read_frames p + ucast frames\<rparr>) d)
      else if EMPTY_FRAMES - lv < frames then (- EPIPE, d)
        else (0, priv_update (\<lambda>p. p\<lparr>ei_written_frames := ei_written_frames p + ucast frames\<rparr>) d))"

definition flush_buffer :: "'d empty_dev \<Rightarrow> int \<times> 'd empty_dev" where
  "flush_buffer dev =
     (let d = priv_update (\<lambda>p. if io_direction dev = CRAS_STREAM_INPUT then p\<lparr>ei_read_frames := 0\<rparr> else p\<lparr>ei_written_frames := 0\<rparr>) dev;
          (t, d1) = read_clock d
      in (0, priv_update (\<lambda>p. p\<lparr>ei_dev_start_time := t\<rparr>) d1))"

definition empty_base_ops :: "(snd_pcm_format \<Rightarrow> nat) \<Rightarrow> ('d, empty_iodev) iodev_ops" where
  "empty_base_ops phys_width =
     \<lparr>op_set_mute = None, op_open_dev = None, op_configure_dev = configure_dev, op_close_dev = close_dev,
      op_update_supported_formats = None, op_frames_queued = frames_queued, op_delay_frames = (\<lambda>_. 0),
      op_get_buffer = get_buffer phys_width, op_put_buffer = put_buffer, op_flush_buffer = flush_buffer,
      op_start = None, op_is_free_running = None, op_output_underrun = None, op_no_stream = (\<lambda>_ dev. Some (0, dev)),
      op_update_channel_layout = None, op_get_num_severe_underruns = None, op_get_valid_frames = None,
      op_frames_to_play_in_sleep = None\<rparr>"

text \<open>\<^verbatim>\<open>no_stream\<close> is the default implementation, which uses the other operations.\<close>

definition empty_ops :: "iodev_env \<Rightarrow> ('p, 's) system_state \<Rightarrow> ('d, empty_iodev) iodev_ops" where
  "empty_ops env sys =
     (let base = empty_base_ops (env_width env)
      in base\<lparr>op_no_stream := cras_iodev_default_no_stream_playback env sys base\<rparr>)"

definition empty_iodev_create :: "(nat \<Rightarrow> timespec) \<Rightarrow> u32 \<Rightarrow> node_type \<Rightarrow> 'd empty_dev option" where
  "empty_iodev_create clk dir t =
     (if dir \<noteq> CRAS_STREAM_INPUT \<and> dir \<noteq> CRAS_STREAM_OUTPUT then None
      else Some (cras_iodev_set_active_node (Some 0) (cras_iodev_add_node
        \<lparr>nd_idx = 0, nd_plugged = False, nd_plugged_time = (0, 0), nd_volume = 100, nd_capture_gain = 0,
         nd_ui_gain_scaler = Fin 1, nd_left_right_swapped = False, nd_type = t, nd_position = NODE_POSITION_EXTERNAL,
         nd_softvol_scalers = None, nd_software_volume_needed = False, nd_intrinsic_sensitivity = 0\<rparr>
        \<lparr>io_idx = (if dir = CRAS_STREAM_INPUT then (if t = CRAS_NODE_TYPE_HOTWORD then 3 else 1) else 2),
         io_format = None, io_rate_est = False, io_area = None, io_nodes = [], io_active_node = None, io_direction = dir,
         io_supported_rates = [44100, 48000], io_supported_channel_counts = [1, 2],
         io_supported_formats = [S16_LE, S24_LE, S32_LE, S24_3LE], io_buffer_size = 4096, io_min_buffer_level = 0,
         io_dsp_context = None, io_software_volume_needed = False, io_software_gain_scaler = Fin 0, io_streams = [],
         io_state = CRAS_IODEV_STATE_CLOSE, io_min_cb_level = 0, io_max_cb_level = 0, io_highest_hw_level = 0,
         io_largest_cb_level = 0, io_num_underruns = 0, io_buf_state = None, io_idle_timeout = Timespec 0 0,
         io_open_ts = Timespec 0 0, io_loopbacks = [], io_has_pre_open_hook = False, io_has_post_close_hook = False,
         io_ext_dsp_module = None, io_reset_request_pending = False, io_ramp = None, io_input_streaming = False,
         io_input_frames_read = 0, io_input_dsp_offset = 0, io_initial_ramp_request = CRAS_IODEV_RAMP_REQUEST_NONE,
         io_input_data = None,
         io_priv = \<lparr>ei_audio_buffer = False, ei_read_frames = 0, ei_written_frames = 0, ei_dev_start_time = Timespec 0 0,
           ei_clock = clk, ei_ticks = 0\<rparr>, io_trace = []\<rparr>)))"

section \<open>The contract\<close>

lemma dev_update_same [simp]: "dev\<lparr>io_priv := io_priv dev\<rparr> = dev" "dev\<lparr>io_area := io_area dev\<rparr> = dev"
  by (rule cras_iodev.equality; simp)+

lemma driver_only_trans:
  assumes "driver_only a b" and "driver_only b c"
  shows "driver_only a c"
proof -
  have b: "b = a\<lparr>io_priv := io_priv b, io_area := io_area b\<rparr>" and c: "c = b\<lparr>io_priv := io_priv c, io_area := io_area c\<rparr>"
    using assms by (simp_all only: driver_only_def)
  show ?thesis unfolding driver_only_def by (subst c, subst b) simp
qed

lemma priv_set_driver: "driver_only dev (dev\<lparr>io_priv := p\<rparr>)"
proof -
  have "(dev\<lparr>io_area := io_area dev\<rparr>)\<lparr>io_priv := p\<rparr> = dev\<lparr>io_priv := p\<rparr>" by simp
  then show ?thesis by (simp add: driver_only_def del: dev_update_same)
qed

lemma area_update_driver: "driver_only dev (dev\<lparr>io_area := a\<rparr>)"
  by (simp add: driver_only_def)

lemma read_clock_driver: "driver_only dev (snd (read_clock dev))"
  by (simp add: read_clock_def Let_def priv_set_driver)

lemma priv_update_driver: "driver_only dev (priv_update f dev)"
  by (simp add: priv_update_def priv_set_driver)

lemma driver_only_refl: "driver_only dev dev"
  by (simp add: driver_only_def)

lemma current_level_driver: "driver_only dev (snd (current_level dev))"
  using read_clock_driver [of dev] driver_only_refl [of dev] by (auto simp: current_level_def case_prod_beta Let_def)

lemmas empty_driver_steps = driver_only_refl read_clock_driver priv_update_driver area_update_driver current_level_driver

lemma frames_queued_only: "frames_queued dev = (rc, t, d) \<Longrightarrow> driver_only dev d"
proof -
  assume "frames_queued dev = (rc, t, d)"
  then have "d = snd (current_level (snd (read_clock dev)))" by (auto simp: frames_queued_def case_prod_beta Let_def)
  then show ?thesis using driver_only_trans [OF read_clock_driver current_level_driver] by simp
qed

lemma get_buffer_only: "get_buffer w n dev = (rc, k, a, d) \<Longrightarrow> driver_only dev d"
proof -
  assume "get_buffer w n dev = (rc, k, a, d)"
  then have "\<exists>a. d = (snd (current_level dev))\<lparr>io_area := a\<rparr>" by (auto simp: get_buffer_def case_prod_beta Let_def)
  then show ?thesis using driver_only_trans [OF current_level_driver area_update_driver] by auto
qed

lemma put_buffer_only: "put_buffer n dev = (rc, d) \<Longrightarrow> driver_only dev d"
proof -
  assume "put_buffer n dev = (rc, d)"
  then have "d = snd (current_level dev) \<or> (\<exists>f. d = priv_update f (snd (current_level dev)))"
    by (auto simp: put_buffer_def case_prod_beta Let_def split: if_splits)
  then show ?thesis using driver_only_trans [OF current_level_driver priv_update_driver] current_level_driver by auto
qed

lemma empty_base_ops_simps [simp]:
  "op_frames_queued (empty_base_ops w) = frames_queued" "op_get_buffer (empty_base_ops w) = get_buffer w"
  "op_put_buffer (empty_base_ops w) = put_buffer" "op_output_underrun (empty_base_ops w) = None"
  by (simp_all add: empty_base_ops_def)

lemma empty_ops_simps [simp]:
  "op_start (empty_ops env sys) = None" "op_output_underrun (empty_ops env sys) = None" "op_open_dev (empty_ops env sys) = None"
  "op_update_supported_formats (empty_ops env sys) = None" "op_update_channel_layout (empty_ops env sys) = None"
  "op_configure_dev (empty_ops env sys) = configure_dev" "op_close_dev (empty_ops env sys) = close_dev"
  "op_no_stream (empty_ops env sys) = cras_iodev_default_no_stream_playback env sys (empty_base_ops (env_width env))"
  "op_frames_queued (empty_ops env sys) = frames_queued" "op_get_buffer (empty_ops env sys) = get_buffer (env_width env)"
  "op_put_buffer (empty_ops env sys) = put_buffer"
  by (simp_all add: empty_ops_def empty_base_ops_def Let_def)

interpretation empty_base: iodev_driver "empty_base_ops w" for w
  by unfold_locales (auto dest: frames_queued_only get_buffer_only put_buffer_only)

interpretation empty: iodev_driver "empty_ops env sys" for env sys
  by unfold_locales (auto dest: frames_queued_only get_buffer_only put_buffer_only)

text \<open>Surroundings without rounding, with a pipeline that never fails, and a clock that ticks once a second.\<close>

definition mic_env :: iodev_env where
  "mic_env = \<lparr>env_rnd = (\<lambda>x. x), env_width = sample_width, env_softvol = (\<lambda>_. Fin 1), env_from_dB = (\<lambda>_. Fin 1),
     env_malloc = True, env_dsp_load = (\<lambda>_ c. c), env_dsp_dummy = (\<lambda>_ c. c\<lparr>dsp_pipeline := True\<rparr>), env_dsp_run = (\<lambda>n. (0, n))\<rparr>"

definition mic_clock :: "nat \<Rightarrow> timespec" where
  "mic_clock k = Timespec (int k + 1) 0"

end
