(* ===== verification/Input_Device.thy ===== *)
theory Input_Device
  imports Empty_Iodev
begin

text \<open>
  An input device over time: the signal processing of captured frames.  A read may ask for fewer frames than an
  earlier one processed already; \<^verbatim>\<open>input_dsp_offset\<close> counts the frames at the start of the buffer that are
  processed.  Every captured frame is processed exactly once, in order, and the ring of deinterleaved frames
  holds exactly the processed frames that are not yet consumed.
\<close>

section \<open>One cycle\<close>

text \<open>The frames a cycle processes, counted from the first frame ever captured: \<open>c\<close> frames were consumed before.\<close>

fun dsp_frames :: "nat \<Rightarrow> iodev_event list \<Rightarrow> nat list" where
  "dsp_frames c [] = []"
| "dsp_frames c (Dsp_applied offs n # es) = [c + unat offs ..< c + unat offs + unat n] @ dsp_frames c es"
| "dsp_frames c (_ # es) = dsp_frames c es"

lemma dsp_frames_append [simp]: "dsp_frames c (xs @ ys) = dsp_frames c xs @ dsp_frames c ys"
  by (induction c xs rule: dsp_frames.induct) auto

text \<open>The processing runs and hands its frames to the ring of the input data.\<close>

definition dsp_ready :: "iodev_env \<Rightarrow> ('d, 'h) cras_iodev \<Rightarrow> bool" where
  "dsp_ready env dev \<longleftrightarrow> (\<forall>n. env_dsp_run env n = (0, n)) \<and>
     (\<exists>ctx. io_dsp_context dev = Some ctx \<and> dsp_pipeline ctx \<and> dsp_ext ctx = Some Ext_input_data)"

definition ring_of :: "('d, 'h) cras_iodev \<Rightarrow> float_buffer option" where
  "ring_of dev = Option.bind (io_input_data dev) id_fbuffer"

definition in_step :: "('d, 'h) cras_iodev \<Rightarrow> bool" where
  "in_step dev \<longleftrightarrow> (\<exists>b. ring_of dev = Some b \<and> fb_wf b \<and> unat (float_buffer_level b) = unat (io_input_dsp_offset dev))"

text \<open>A run of the audio thread on the device: \<open>c\<close> frames consumed so far and the frames processed so far.  Between
  reading and releasing the buffer the streams move their offsets; no more frames are released than were read
  or processed, and the ring is large enough for what is read.\<close>

inductive capture_run :: "iodev_env \<Rightarrow> ('p, 's) system_state \<Rightarrow> ('d, 'h) iodev_ops \<Rightarrow> ('d, 'h) cras_iodev \<Rightarrow>
    nat \<Rightarrow> nat list \<Rightarrow> ('d, 'h) cras_iodev \<Rightarrow> bool" for env sys ops dev0 where
  Start: "capture_run env sys ops dev0 0 [] dev0"
| Cycle: "\<lbrakk>capture_run env sys ops dev0 c ps d; cras_iodev_get_input_buffer env sys ops req d = Some (rc, n, d1);
    0 \<le> rc; n \<noteq> 0; \<forall>b. ring_of d = Some b \<longrightarrow> unat n \<le> unat (max_size (fb_buf b));
    cras_iodev_put_input_buffer ops (d1\<lparr>io_buf_state := bs, io_streams := ss\<rparr>) = Some (m, d2); 0 \<le> m;
    m \<le> int (max (unat n) (unat (io_input_dsp_offset d)))\<rbrakk> \<Longrightarrow>
    capture_run env sys ops dev0 (c + nat m) (ps @ dsp_frames c (drop (length (io_trace d)) (io_trace d1))) d2"

section \<open>Reading\<close>

lemma log_event_simps [simp]:
  "io_trace (log_event e d) = io_trace d @ [e]" "io_input_data (log_event e d) = io_input_data d"
  "io_input_dsp_offset (log_event e d) = io_input_dsp_offset d" "io_dsp_context (log_event e d) = io_dsp_context d"
  "io_input_frames_read (log_event e d) = io_input_frames_read d" "io_buf_state (log_event e d) = io_buf_state d"
  "io_streams (log_event e d) = io_streams d"
  by (simp_all add: log_event_def)

lemma input_data_run_ring:
  assumes "id_fbuffer dt = Some b" "fb_wf b" "unat (float_buffer_level b) + unat k \<le> unat (max_size (fb_buf b))"
  obtains b' where "input_data_run k dt = Some (dt\<lparr>id_fbuffer := Some b'\<rparr>)" "fb_wf b'"
    "max_size (fb_buf b') = max_size (fb_buf b)" "unat (float_buffer_level b') = unat (float_buffer_level b) + unat k"
proof -
  obtain cps b' where r: "input_data_run_loop k 0 b = (cps, b')" by fastforce
  show thesis
    using that [of b'] assms input_data_run_level [OF assms(2) r] by (simp add: input_data_run_def r)
qed

lemma apply_dsp_ring:
  assumes "dsp_ready env d" and "ring_of d = Some b" "fb_wf b" and "k \<noteq> 0"
    and "unat (float_buffer_level b) + unat k \<le> unat (max_size (fb_buf b))"
  obtains b' dt where "apply_dsp env offs k d = Some (0, (log_event (Dsp_applied offs k) d)\<lparr>io_input_data := Some dt\<rparr>)"
    "id_fbuffer dt = Some b'" "fb_wf b'" "unat (float_buffer_level b') = unat (float_buffer_level b) + unat k"
proof -
  obtain ctx where ctx: "io_dsp_context d = Some ctx" "dsp_pipeline ctx" "dsp_ext ctx = Some Ext_input_data"
    and run: "env_dsp_run env k = (0, k)" using assms(1) by (auto simp: dsp_ready_def)
  obtain dt where dt: "io_input_data d = Some dt" "id_fbuffer dt = Some b"
    using assms(2) by (auto simp: ring_of_def bind_eq_Some_conv)
  obtain b' where b': "input_data_run k dt = Some (dt\<lparr>id_fbuffer := Some b'\<rparr>)" "fb_wf b'"
    "unat (float_buffer_level b') = unat (float_buffer_level b) + unat k"
    using input_data_run_ring [OF dt(2) assms(3,5)] by metis
  show thesis
    using that [of "dt\<lparr>id_fbuffer := Some b'\<rparr>" b'] ctx run dt b' assms(4)
    by (simp add: apply_dsp_def Let_def log_event_def)
qed

lemma unat_sint_nonneg:
  fixes x :: u32
  assumes "0 \<le> sint x"
  shows "unat x = nat (sint x)"
proof -
  have "sint x < 2 ^ 32" using sint_lt [of x] by simp
  then have "uint x = sint x" using assms by (simp add: uint_sint take_bit_int_eq_self)
  then show ?thesis by (metis nat_uint_eq)
qed

context iodev_driver
begin

lemma get_input_buffer_cases:
  assumes "cras_iodev_get_input_buffer env sys ops req d = Some (rc, n, d1)" "0 \<le> rc" "n \<noteq> 0"
  obtains d0 dt0 dt rc2 d3 where "io_input_data d = Some dt0" "dt = dt0\<lparr>id_area := id_area dt\<rparr>"
    "io_input_data d0 = Some dt" "io_input_dsp_offset d0 = io_input_dsp_offset d" "io_dsp_context d0 = io_dsp_context d"
    "io_trace d0 = io_trace d" "io_input_frames_read d0 = n"
    "(if n > io_input_dsp_offset d then apply_dsp env (io_input_dsp_offset d) (n - io_input_dsp_offset d) d0 else Some (rc2, d0)) = Some (rc2, d3)"
    "d1 = (if cras_system_get_capture_mute sys then log_event (Muted n) d3 else d3) \<or> 0 < rc2 \<and> n > io_input_dsp_offset d \<and> d1 = d3"
proof -
  obtain dt0 where dt0: "io_input_data d = Some dt0" using assms(1) by (auto simp: cras_iodev_get_input_buffer_def bind_eq_Some_conv)
  obtain rc0 k a e where g: "op_get_buffer ops req d = (rc0, k, a, e)" by (metis prod_cases4)
  have es: "io_input_dsp_offset e = io_input_dsp_offset d" "io_dsp_context e = io_dsp_context d" "io_trace e = io_trace d"
    by (fact get_buffer_keeps [OF g])+
  let ?d0 = "e\<lparr>io_input_data := Some (dt0\<lparr>id_area := a\<rparr>), io_input_frames_read := k\<rparr>"
  have k: "k = n" "\<not> rc0 < 0" "\<not> k > req"
    using assms g dt0 by (auto simp: cras_iodev_get_input_buffer_def Let_def bind_eq_Some_conv split: if_splits)
  obtain rc2 d3 where ap: "(if n > io_input_dsp_offset d then apply_dsp env (io_input_dsp_offset d) (n - io_input_dsp_offset d) ?d0
      else Some (rc0, ?d0)) = Some (rc2, d3)"
    and res: "(if n > io_input_dsp_offset d \<and> rc2 \<noteq> 0 then Some (rc2, n, d3)
      else Some (rc2, n, if cras_system_get_capture_mute sys then log_event (Muted n) d3 else d3)) = Some (rc, n, d1)"
    using assms(1,3) k g dt0 es by (auto simp: cras_iodev_get_input_buffer_def Let_def bind_eq_Some_conv split: if_splits)
  show thesis
  proof (rule that [of dt0 "dt0\<lparr>id_area := a\<rparr>" ?d0 rc2 d3])
    show "(if n > io_input_dsp_offset d then apply_dsp env (io_input_dsp_offset d) (n - io_input_dsp_offset d) ?d0 else Some (rc2, ?d0)) = Some (rc2, d3)"
      using ap by (auto split: if_splits)
  qed (use dt0 es k res assms(2) in \<open>auto split: if_splits\<close>)
qed

text \<open>A read processes the frames behind those already processed, and nothing else.\<close>

lemma get_input_buffer_step:
  assumes rdy: "dsp_ready env d" and stp: "in_step d"
    and get: "cras_iodev_get_input_buffer env sys ops req d = Some (rc, n, d1)" "0 \<le> rc" "n \<noteq> 0"
    and room: "\<forall>b. ring_of d = Some b \<longrightarrow> unat n \<le> unat (max_size (fb_buf b))"
  shows "\<exists>b es. ring_of d1 = Some b \<and> fb_wf b \<and>
    unat (float_buffer_level b) = max (unat n) (unat (io_input_dsp_offset d)) \<and>
    io_input_dsp_offset d1 = io_input_dsp_offset d \<and> io_input_frames_read d1 = n \<and> io_dsp_context d1 = io_dsp_context d \<and>
    io_trace d1 = io_trace d @ es \<and>
    dsp_frames c es = [c + unat (io_input_dsp_offset d) ..< c + max (unat n) (unat (io_input_dsp_offset d))]"
proof -
  let ?o = "io_input_dsp_offset d"
  obtain d0 dt0 dt rc2 d3 where d0: "io_input_data d = Some dt0" "dt = dt0\<lparr>id_area := id_area dt\<rparr>"
    "io_input_data d0 = Some dt" "io_input_dsp_offset d0 = ?o" "io_dsp_context d0 = io_dsp_context d"
    "io_trace d0 = io_trace d" "io_input_frames_read d0 = n"
    and ap: "(if n > ?o then apply_dsp env ?o (n - ?o) d0 else Some (rc2, d0)) = Some (rc2, d3)"
    and d1: "d1 = (if cras_system_get_capture_mute sys then log_event (Muted n) d3 else d3) \<or> 0 < rc2 \<and> n > ?o \<and> d1 = d3"
    using get_input_buffer_cases [OF get] by metis
  obtain b where b: "ring_of d = Some b" "fb_wf b" "unat (float_buffer_level b) = unat ?o"
    using stp by (auto simp: in_step_def)
  have b0: "ring_of d0 = Some b" using b(1) d0(1-3)
    by (simp add: ring_of_def) (metis input_data.select_convs(2) input_data.surjective input_data.update_convs(1))
  have rdy0: "dsp_ready env d0" using rdy d0(5) by (simp add: dsp_ready_def)
  show ?thesis
  proof (cases "n > ?o")
    case True
    have sub: "unat (n - ?o) = unat n - unat ?o" using True by (simp add: unat_sub word_less_nat_alt word_le_nat_alt)
    have lt: "unat ?o < unat n" using True by (simp add: word_less_nat_alt)
    have "n - ?o \<noteq> 0" using True by auto
    moreover have "unat (float_buffer_level b) + unat (n - ?o) \<le> unat (max_size (fb_buf b))" using room b lt sub by simp
    ultimately obtain b' dt' where a: "apply_dsp env ?o (n - ?o) d0 = Some (0, (log_event (Dsp_applied ?o (n - ?o)) d0)\<lparr>io_input_data := Some dt'\<rparr>)"
      "id_fbuffer dt' = Some b'" "fb_wf b'" "unat (float_buffer_level b') = unat (float_buffer_level b) + unat (n - ?o)"
      using apply_dsp_ring [OF rdy0 b0 b(2), of "n - ?o" ?o] by metis
    have d3: "d3 = (log_event (Dsp_applied ?o (n - ?o)) d0)\<lparr>io_input_data := Some dt'\<rparr>" "rc2 = 0" using ap a(1) True by simp_all
    show ?thesis
      by (rule exI [of _ b'], rule exI [of _ "if cras_system_get_capture_mute sys then [Dsp_applied ?o (n - ?o), Muted n] else [Dsp_applied ?o (n - ?o)]"])
        (use a d0 d1 d3 b lt sub in \<open>auto simp: ring_of_def\<close>)
  next
    case False
    then have "unat n \<le> unat ?o" by (simp add: word_less_nat_alt)
    moreover have "d3 = d0" using ap False by simp
    ultimately show ?thesis
      by (intro exI [of _ b] exI [of _ "if cras_system_get_capture_mute sys then [Muted n] else []"])
        (use False d0 d1 b b0 in \<open>auto simp: ring_of_def\<close>)
  qed
qed

text \<open>Releasing the buffer moves the processed part to the front.\<close>

lemma put_input_buffer_cases:
  assumes "cras_iodev_put_input_buffer ops d = Some (m, d2)" and "0 \<le> m"
  obtains n dt where "io_input_data d = Some dt" "unat n = nat m"
    "io_input_data d2 = Some (input_data_set_all_streams_read n dt)" "io_dsp_context d2 = io_dsp_context d"
    "io_input_dsp_offset d2 = max (io_input_frames_read d) (io_input_dsp_offset d) - n"
proof -
  obtain dt where dt: "io_input_data d = Some dt"
    using assms(1) by (auto simp: cras_iodev_put_input_buffer_def bind_eq_Some_conv)
  let ?written = "if io_streams d \<noteq> []
     then map_option (\<lambda>b. let (n, b') = buffer_share_get_new_write_point b in (n, d\<lparr>io_buf_state := Some b'\<rparr>)) (io_buf_state d)
     else map_option (\<lambda>a. (area_frames a, d)) (id_area dt)"
  obtain n d1 where w: "?written = Some (n, d1)"
    using assms(1) dt by (simp add: cras_iodev_put_input_buffer_def bind_eq_Some_conv) fastforce
  have d1: "io_input_frames_read d1 = io_input_frames_read d" "io_input_dsp_offset d1 = io_input_dsp_offset d"
      "io_dsp_context d1 = io_dsp_context d"
    using w by (auto simp: case_prod_beta Let_def split: if_splits)
  have put: "(case op_put_buffer ops n (log_event (Rate_frames (sint (- n)))
        (d1\<lparr>io_input_dsp_offset := max (io_input_frames_read d1) (io_input_dsp_offset d1) - n,
           io_input_data := Some (input_data_set_all_streams_read n dt)\<rparr>)) of (rc, d3) \<Rightarrow> Some (if rc < 0 then rc else sint n, d3)) = Some (m, d2)"
    using assms(1) dt w by (simp add: cras_iodev_put_input_buffer_def Let_def)
  obtain rc d3 where op: "op_put_buffer ops n (log_event (Rate_frames (sint (- n)))
        (d1\<lparr>io_input_dsp_offset := max (io_input_frames_read d1) (io_input_dsp_offset d1) - n,
           io_input_data := Some (input_data_set_all_streams_read n dt)\<rparr>)) = (rc, d3)" by fastforce
  have m: "m = sint n" "d3 = d2" using put op assms(2) by (auto split: if_splits)
  have core: "io_input_data d2 = Some (input_data_set_all_streams_read n dt)" "io_dsp_context d2 = io_dsp_context d1"
    "io_input_dsp_offset d2 = max (io_input_frames_read d1) (io_input_dsp_offset d1) - n"
    using put_buffer_keeps(11-13) [OF op] m(2) by simp_all
  show thesis
    using that [of dt n] dt d1 core unat_sint_nonneg [of n] assms(2) m(1) by simp
qed

lemma put_input_buffer_step:
  assumes put: "cras_iodev_put_input_buffer ops d = Some (m, d2)" "0 \<le> m"
    and b: "ring_of d = Some b" "fb_wf b" "unat (float_buffer_level b) = max (unat (io_input_frames_read d)) (unat (io_input_dsp_offset d))"
    and le: "m \<le> int (max (unat (io_input_frames_read d)) (unat (io_input_dsp_offset d)))"
  shows "in_step d2 \<and> io_dsp_context d2 = io_dsp_context d \<and>
    unat (io_input_dsp_offset d2) + nat m = max (unat (io_input_frames_read d)) (unat (io_input_dsp_offset d))"
proof -
  obtain n dt where dt: "io_input_data d = Some dt" and n: "unat n = nat m"
    and d2: "io_input_data d2 = Some (input_data_set_all_streams_read n dt)" "io_dsp_context d2 = io_dsp_context d"
      "io_input_dsp_offset d2 = max (io_input_frames_read d) (io_input_dsp_offset d) - n"
    using put_input_buffer_cases [OF put] by metis
  have le': "unat n \<le> unat (max (io_input_frames_read d) (io_input_dsp_offset d))" using le n put(2) by simp
  then have off: "unat (io_input_dsp_offset d2) = unat (max (io_input_frames_read d) (io_input_dsp_offset d)) - unat n"
    by (simp only: d2(3) word_le_nat_alt [symmetric] unat_sub)
  have dtb: "id_fbuffer dt = Some b" using b(1) dt by (simp add: ring_of_def)
  have lv: "unat n \<le> unat (float_buffer_level b)" using le' b(3) by simp
  have "ring_of d2 = Some (float_buffer_read n b)"
    using d2(1) dtb lv by (simp add: ring_of_def input_data_set_all_streams_read_def word_less_nat_alt)
  then have "in_step d2"
    using float_buffer_read_spec [OF b(2) lv] off b(3) by (simp add: in_step_def)
  then show ?thesis using d2(2) off le' n by simp
qed

end

section \<open>Whole runs\<close>

lemma upt_split: "i \<le> j \<Longrightarrow> j \<le> k \<Longrightarrow> [i ..< j] @ [j ..< k] = [i ..< k]"
  using upt_add_eq_append [of i j "k - j"] by simp

lemma capture_run_inv:
  assumes "capture_run env sys ops dev0 c ps d" and "iodev_driver ops" and "dsp_ready env dev0" and "in_step dev0"
    and "io_input_dsp_offset dev0 = 0"
  shows "in_step d \<and> dsp_ready env d \<and> ps = [0 ..< c + unat (io_input_dsp_offset d)]"
  using assms
proof (induction rule: capture_run.induct)
  case Start
  then show ?case by simp
next
  case (Cycle c ps d req rc n d1 ss bs m d2)
  let ?o = "io_input_dsp_offset d"
  have ih: "in_step d" "dsp_ready env d" "ps = [0 ..< c + unat ?o]" using Cycle by simp_all
  obtain b es where b: "ring_of d1 = Some b" "fb_wf b" "unat (float_buffer_level b) = max (unat n) (unat ?o)"
    and d1: "io_input_dsp_offset d1 = ?o" "io_input_frames_read d1 = n" "io_dsp_context d1 = io_dsp_context d"
      "io_trace d1 = io_trace d @ es" "dsp_frames c es = [c + unat ?o ..< c + max (unat n) (unat ?o)]"
    using iodev_driver.get_input_buffer_step [OF Cycle.prems(1) ih(2,1) Cycle.hyps(2,3,4,5), of c] by metis
  have r: "ring_of (d1\<lparr>io_buf_state := bs, io_streams := ss\<rparr>) = Some b" using b(1) by (simp add: ring_of_def)
  have "in_step d2 \<and> io_dsp_context d2 = io_dsp_context d \<and> unat (io_input_dsp_offset d2) + nat m = max (unat n) (unat ?o)"
    using iodev_driver.put_input_buffer_step [OF Cycle.prems(1) Cycle.hyps(6,7) r b(2)] b(3) d1 Cycle.hyps(8) by simp
  moreover have "[0 ..< c + unat ?o] @ [c + unat ?o ..< c + max (unat n) (unat ?o)] = [0 ..< c + max (unat n) (unat ?o)]"
    by (rule upt_split) simp_all
  ultimately show ?case
    using ih d1 by (auto simp: dsp_ready_def add.assoc add.commute add.left_commute)
qed

definition sample_mic :: "unit empty_dev" where
  "sample_mic = (the (empty_iodev_create mic_clock CRAS_STREAM_INPUT CRAS_NODE_TYPE_MIC))
     \<lparr>io_format := Some stereo_16, io_area := Some (cras_audio_area_create 2), io_state := CRAS_IODEV_STATE_NORMAL_RUN,
      io_dsp_context := Some \<lparr>dsp_pipeline = True, dsp_in_channels = 2, dsp_out_channels = 2, dsp_ext = Some Ext_input_data, dsp_delay = 0\<rparr>,
      io_input_data := Some \<lparr>id_area = None, id_fbuffer = Some (float_buffer_create 4096 2)\<rparr>\<rparr>"

lemma mic_frames_since: "cras_frames_since_time (mic_clock k) (Timespec 0 0) 48000 = of_int (48000 * (int k + 1))"
  by (simp add: cras_frames_since_time_def mic_clock_def timespec_after_def subtract_timespecs_def cras_time_to_frames_def)

lemmas mic_defs = sample_mic_def empty_iodev_create_def cras_iodev_set_active_node_def cras_iodev_add_node_def mic_env_def
  log_event_def stereo_16_def

lemma mic_cycle:
  "\<exists>d1 d2. cras_iodev_get_input_buffer mic_env fresh_state (empty_ops mic_env fresh_state) 480 sample_mic = Some (0, 480, d1) \<and>
     cras_iodev_put_input_buffer (empty_ops mic_env fresh_state) (d1\<lparr>io_buf_state := None, io_streams := []\<rparr>) = Some (480, d2)"
  by (simp add: mic_defs cras_iodev_get_input_buffer_def cras_iodev_put_input_buffer_def empty_ops_def empty_base_ops_def Let_def
     get_buffer_def put_buffer_def current_level_def read_clock_def mic_frames_since dev_rate_def active_node_def apply_dsp_def input_data_run_def
     cras_audio_area_create_def cras_audio_area_config_buf_pointers_def priv_update_def)

text \<open>Claim C13.  On an input device whose processing pipeline runs without error, whatever numbers of frames the audio
  thread asks for and releases, the frames processed so far are exactly the captured frames from the first
  to the last one processed, each once and in order; and the ring of deinterleaved frames holds exactly the
  processed frames that were not yet released.\<close>

theorem input_dsp_exactly_once:
  assumes "iodev_driver ops" and "dsp_ready env dev0" and "in_step dev0" and "io_input_dsp_offset dev0 = 0"
    and "capture_run env sys ops dev0 c ps d"
  shows "ps = [0 ..< c + unat (io_input_dsp_offset d)] \<and>
    (\<exists>b. ring_of d = Some b \<and> unat (float_buffer_level b) = length ps - c)"
proof -
  have "in_step d" "ps = [0 ..< c + unat (io_input_dsp_offset d)]" using capture_run_inv [OF assms(5,1-4)] by simp_all
  then show ?thesis by (auto simp: in_step_def)
qed


theorem input_dsp_exactly_once_witness:
  "\<exists>ps d. capture_run mic_env fresh_state (empty_ops mic_env fresh_state) sample_mic 480 ps d \<and>
     ps = [0 ..< 480 + unat (io_input_dsp_offset d)]"
proof -
  let ?ops = "empty_ops mic_env fresh_state :: (unit, empty_iodev) iodev_ops"
  obtain d1 d2 where g: "cras_iodev_get_input_buffer mic_env fresh_state ?ops 480 sample_mic = Some (0, 480, d1)"
    and p: "cras_iodev_put_input_buffer ?ops (d1\<lparr>io_buf_state := None, io_streams := []\<rparr>) = Some (480, d2)"
    using mic_cycle by blast
  have ring: "ring_of sample_mic = Some (float_buffer_create 4096 2)" by (simp add: mic_defs ring_of_def)
  have run: "capture_run mic_env fresh_state ?ops sample_mic (0 + nat 480) ([] @ dsp_frames 0 (drop (length (io_trace sample_mic)) (io_trace d1))) d2"
    by (rule capture_run.Cycle [OF capture_run.Start g _ _ _ p]) (simp_all add: ring float_buffer_create_def)
  have "dsp_ready mic_env sample_mic" by (simp add: mic_defs dsp_ready_def)
  moreover have "in_step sample_mic" "io_input_dsp_offset sample_mic = 0"
    using float_buffer_create_wf [of 4096 2] by (simp_all add: in_step_def ring) (simp_all add: mic_defs float_buffer_create_def float_buffer_level_def buf_queued_def)
  ultimately show ?thesis
    using input_dsp_exactly_once [OF empty.iodev_driver_axioms _ _ _ run] run by auto
qed

end
