(* ===== verification/Dev_Io.thy ===== *)
theory Dev_Io
  imports Iodev
begin

text \<open>
  \<^verbatim>\<open>server/dev_io.c\<close>: playing to and capturing from the open devices, on the audio thread.  A stream may be
  attached to several devices, so the streams are kept in a store under their numbers and the devices in one under
  their addresses; a device that is read from the store gets the current contents of its streams, one that is
  written puts the contents of its streams back.  The list of open devices is an argument and a result.

  Each use of the clock, of a socket or of the main thread's queue takes the next element of the sequences of
  \<open>thread_env\<close>; the counter and the log of what was sent and done are part of the state.  Loops over a list that
  may lose its current element run over the list as it was when they began, as \<^verbatim>\<open>DL_FOREACH\<close> does.
  \<open>None\<close> is the result of an operation that uses a null or uninitialised pointer or does not return.
\<close>

section \<open>State\<close>

record open_dev =
  od_dev :: nat
  od_last_wake :: timespec
  od_longest_wake :: timespec
  od_wake_ts :: timespec
  od_non_empty_check_pi :: "polled_interval option"
  od_empty_pi :: "polled_interval option"
  od_coarse_rate_adjust :: int

datatype thread_event =
    Stream_message u32 audio_message                 \<comment> \<open>to the client of a stream\<close>
  | Captured nat u32 u32 c_float capture_effect      \<comment> \<open>device, stream, frames, gain\<close>
  | Mix_area_zeroed nat u32 u32                      \<comment> \<open>device, first and last frame\<close>
  | Mixed nat u32 u32 "mix_call list"                \<comment> \<open>device, stream, first frame\<close>
  | Non_empty_msg bool
  | Longest_fetch_delay u32
  | Device_metrics u32 u32 u32 u32                   \<comment> \<open>underruns, highest and largest level, direction\<close>
  | Dropped_samples
  | Set_mute_msg u32                                 \<comment> \<open>of a device, to the main thread\<close>
  | Aec_dump u32 nat u32 int                         \<comment> \<open>stream, device, start, descriptor\<close>
  | Busyloop
  | Busyloops timespec u32

type_synonym thread_io = "nat \<times> thread_event list"
type_synonym 'h iodev = "(nat, 'h) cras_iodev"

record ('h, 'p, 's) thread_env =
  te_iodev :: iodev_env
  te_ops :: "nat \<Rightarrow> (nat, 'h) iodev_ops"
  te_sys :: "('p, 's) system_state"
  te_conv :: fmt_conv_env
  te_dbl :: rounding
  te_speex :: "u32 \<Rightarrow> u32 \<Rightarrow> u32 \<times> u32"
  te_now :: "nat \<Rightarrow> timespec"
  te_write :: "nat \<Rightarrow> int"
  te_flush :: "nat \<Rightarrow> nat \<times> (nat \<Rightarrow> poll_round)"
  te_send :: "nat \<Rightarrow> int"
  te_buffer :: "nat \<Rightarrow> u8 list"
  te_apm :: "nat \<Rightarrow> u32 \<Rightarrow> apm_env option"
  te_ppfmt :: "nat \<Rightarrow> u32 \<Rightarrow> cras_audio_format option"
  te_rs_area :: "u32 \<Rightarrow> cras_audio_area"
  te_rate_check :: "'h iodev \<Rightarrow> bool"
  te_est_rate :: "'h iodev \<Rightarrow> rat"
  te_junk :: "nat \<Rightarrow> nat id_offset"

record 'h audio_world =
  aw_dev :: "nat \<Rightarrow> 'h iodev"
  aw_stream :: "u32 \<Rightarrow> nat cras_rstream"
  aw_io :: thread_io
  aw_pic_now :: timespec
  aw_non_empty_count :: int

abbreviation emit :: "thread_event \<Rightarrow> thread_io \<Rightarrow> thread_io" where "emit e io \<equiv> (fst io, snd io @ [e])"
abbreviation later :: "nat \<Rightarrow> thread_io \<Rightarrow> thread_io" where "later n io \<equiv> (fst io + n, snd io)"

abbreviation env_round :: "('h, 'p, 's) thread_env \<Rightarrow> rounding" where "env_round env \<equiv> env_rnd (te_iodev env)"
abbreviation env_widths :: "('h, 'p, 's) thread_env \<Rightarrow> snd_pcm_format \<Rightarrow> nat" where "env_widths env \<equiv> env_width (te_iodev env)"

abbreviation ds_sid :: "'d dev_stream \<Rightarrow> u32" where "ds_sid ds \<equiv> stream_id (ds_stream ds)"
abbreviation dev_sids :: "('d, 'h) cras_iodev \<Rightarrow> u32 list" where "dev_sids dev \<equiv> map ds_sid (io_streams dev)"

definition find_ds :: "u32 \<Rightarrow> ('d, 'h) cras_iodev \<Rightarrow> 'd dev_stream option" where
  "find_ds sid dev = find (\<lambda>ds. ds_sid ds = sid) (io_streams dev)"

definition get_dev :: "nat \<Rightarrow> 'h audio_world \<Rightarrow> 'h iodev" where
  \<comment> \<open>the device at an address, with its streams as they are now\<close>
  "get_dev p w = (aw_dev w p)\<lparr>io_streams := map (\<lambda>ds. ds\<lparr>ds_stream := aw_stream w (ds_sid ds)\<rparr>) (io_streams (aw_dev w p))\<rparr>"

definition put_stream :: "nat cras_rstream \<Rightarrow> 'h audio_world \<Rightarrow> 'h audio_world" where
  "put_stream s w = w\<lparr>aw_stream := (aw_stream w)(stream_id s := s)\<rparr>"

definition put_dev :: "nat \<Rightarrow> 'h iodev \<Rightarrow> 'h audio_world \<Rightarrow> 'h audio_world" where
  "put_dev p dev w = fold (\<lambda>ds. put_stream (ds_stream ds)) (io_streams dev) (w\<lparr>aw_dev := (aw_dev w)(p := dev)\<rparr>)"

definition put_ds :: "nat \<Rightarrow> nat dev_stream \<Rightarrow> 'h audio_world \<Rightarrow> 'h audio_world" where
  \<comment> \<open>a change of one attached stream of a device\<close>
  "put_ds p ds w = put_dev p ((get_dev p w)\<lparr>io_streams :=
     map (\<lambda>d. if ds_sid d = ds_sid ds then ds else d) (io_streams (get_dev p w))\<rparr>) w"

fun each_stream :: "('d dev_stream \<Rightarrow> 'a \<Rightarrow> ('d dev_stream \<times> 'a) option) \<Rightarrow> 'd dev_stream list \<Rightarrow> 'a \<Rightarrow>
    ('d dev_stream list \<times> 'a) option" where
  \<comment> \<open>a loop over the streams of a device that changes each stream and an accumulator\<close>
  "each_stream f [] a = Some ([], a)"
| "each_stream f (ds # rest) a =
     do { (ds', a1) \<leftarrow> f ds a; (rest', a2) \<leftarrow> each_stream f rest a1; Some (ds' # rest', a2) }"

definition find_open :: "nat \<Rightarrow> open_dev list \<Rightarrow> open_dev option" where
  "find_open p ods = find (\<lambda>a. od_dev a = p) ods"

definition set_open :: "open_dev \<Rightarrow> open_dev list \<Rightarrow> open_dev list" where
  "set_open ad ods = map (\<lambda>a. if od_dev a = od_dev ad then ad else a) ods"

definition dev_io_find_open_dev :: "'h audio_world \<Rightarrow> u32 \<Rightarrow> open_dev list \<Rightarrow> open_dev option" where
  "dev_io_find_open_dev w idx ods = find (\<lambda>a. io_idx (aw_dev w (od_dev a)) = idx) ods"

definition dev_stream_next_cb_ts :: "'d cras_rstream \<Rightarrow> timespec option" where
  "dev_stream_next_cb_ts s = (if flags s AND USE_DEV_TIMING \<noteq> 0 then None else Some (next_cb_ts s))"

section \<open>Attaching and detaching streams\<close>

definition delete_stream_from_dev :: "('h, 'p, 's) thread_env \<Rightarrow> u32 \<Rightarrow> nat \<Rightarrow> 'h audio_world \<Rightarrow> 'h audio_world option" where
  "delete_stream_from_dev env sid p w =
     do { (out, d) \<leftarrow> cras_iodev_rm_stream (te_iodev env) (te_ops env p) sid (get_dev p w);
          Some (case out of None \<Rightarrow> put_dev p d w | Some ds \<Rightarrow> put_stream (dev_stream_destroy ds) (put_dev p d w)) }"

fun delete_from_devs :: "('h, 'p, 's) thread_env \<Rightarrow> u32 \<Rightarrow> nat list \<Rightarrow> 'h audio_world \<Rightarrow> 'h audio_world option" where
  "delete_from_devs env sid [] w = Some w"
| "delete_from_devs env sid (p # ps) w = do { w1 \<leftarrow> delete_stream_from_dev env sid p w; delete_from_devs env sid ps w1 }"

definition fetch_delay_msec :: "'d cras_rstream \<Rightarrow> u32" where
  "fetch_delay_msec s =
     (if timespec_after (longest_fetch_interval s) (sleep_interval_ts s)
      then let d = subtract_timespecs (longest_fetch_interval s) (sleep_interval_ts s)
        in of_int (tv_sec d * 1000 + tv_nsec d div 1000000)
      else 0)"

definition log_fetch_delay :: "u32 \<Rightarrow> 'h audio_world \<Rightarrow> 'h audio_world" where
  "log_fetch_delay sid w =
     (let n = fetch_delay_msec (aw_stream w sid) in if n \<noteq> 0 then w\<lparr>aw_io := emit (Longest_fetch_delay n) (aw_io w)\<rparr> else w)"

definition dev_io_remove_stream :: "('h, 'p, 's) thread_env \<Rightarrow> open_dev list \<Rightarrow> u32 \<Rightarrow> nat option \<Rightarrow> 'h audio_world \<Rightarrow>
    'h audio_world option" where
  \<comment> \<open>from the device, or from every open device of the list\<close>
  "dev_io_remove_stream env ods sid dev w =
     delete_from_devs env sid (case dev of None \<Rightarrow> map od_dev ods | Some p \<Rightarrow> [p]) (log_fetch_delay sid w)"

definition count_non_empty_dev :: "timespec \<Rightarrow> open_dev list \<Rightarrow> int" where
  "count_non_empty_dev now ods =
     int (length (filter (\<lambda>a. case od_empty_pi a of None \<Rightarrow> True | Some p \<Rightarrow> \<not> pic_interval_elapsed now p) ods))"

definition check_non_empty_state_transition :: "open_dev list \<Rightarrow> 'h audio_world \<Rightarrow> 'h audio_world" where
  "check_non_empty_state_transition ods w =
     (let n = count_non_empty_dev (aw_pic_now w) ods;
          w1 = (if (aw_non_empty_count w = 0) \<noteq> (n = 0) then w\<lparr>aw_io := emit (Non_empty_msg (n > 0)) (aw_io w)\<rparr> else w)
      in w1\<lparr>aw_non_empty_count := n\<rparr>)"

fun detach_all :: "('h, 'p, 's) thread_env \<Rightarrow> nat \<Rightarrow> u32 list \<Rightarrow> 'h audio_world \<Rightarrow> 'h audio_world option" where
  \<comment> \<open>the loop over the streams of a device that is removed\<close>
  "detach_all env p [] w = Some w"
| "detach_all env p (sid # sids) w = do { w1 \<leftarrow> delete_stream_from_dev env sid p w; detach_all env p sids w1 }"

definition dev_io_rm_open_dev :: "('h, 'p, 's) thread_env \<Rightarrow> nat \<Rightarrow> open_dev list \<times> 'h audio_world \<Rightarrow>
    (open_dev list \<times> 'h audio_world) option" where
  "dev_io_rm_open_dev env p st =
     (let (ods, w) = st in
      if find_open p ods = None then Some (ods, w)
      else
        let ods' = filter (\<lambda>a. od_dev a \<noteq> p) ods;
            d = aw_dev w p;
            w1 = w\<lparr>aw_io := emit (Device_metrics (io_num_underruns d) (io_highest_hw_level d) (io_largest_cb_level d) (io_direction d)) (aw_io w)\<rparr>
        in map_option (Pair ods') (detach_all env p (dev_sids d) (check_non_empty_state_transition ods' w1)))"

text \<open>The first callback of a stream on a device: \<open>cb\<close> is the earliest callback of the streams seen so far, if any.\<close>

definition earlier_cb :: "timespec option \<Rightarrow> 'd dev_stream list \<Rightarrow> timespec option" where
  "earlier_cb cb dss = fold (\<lambda>ds c. case dev_stream_next_cb_ts (ds_stream ds) of None \<Rightarrow> c
     | Some t \<Rightarrow> (case c of None \<Rightarrow> Some t | Some u \<Rightarrow> if timespec_after u t then Some t else c)) dss cb"

definition init_cb_ts :: "('d, 'h) iodev_ops \<Rightarrow> timespec option \<Rightarrow> 'd cras_rstream \<Rightarrow> ('d, 'h) cras_iodev \<Rightarrow>
    ((int + timespec) \<times> timespec option \<times> ('d, 'h) cras_iodev) option" where
  \<comment> \<open>an error or the time, the earliest callback of the streams, the device\<close>
  "init_cb_ts ops cb s dev =
     (if direction s \<noteq> CRAS_STREAM_OUTPUT then Some (Inr (Timespec 0 0), cb, dev)
      else let cb' = earlier_cb cb (io_streams dev) in
        case cb' of Some t \<Rightarrow> Some (Inr t, cb', dev)
        | None \<Rightarrow>
            let (rc, tstamp, d) = cras_iodev_get_valid_frames ops dev in
            if rc < 0 then Some (Inl (- EINVAL), cb', d)
            else do {
              t \<leftarrow> tstamp;
              fmt \<leftarrow> io_format d;
              let lv = sint (of_int rc - ucast (cras_frames_at_rate (frame_rate (rs_format s)) (cb_threshold s) (frame_rate fmt)) :: u32);
              Some (Inr (add_timespecs t (cras_frames_to_time (if lv < 0 then 0 else of_int lv) (ucast (frame_rate fmt)))), cb', d) })"

definition align_input_offset :: "u32 \<Rightarrow> nat \<Rightarrow> 'h audio_world \<Rightarrow> 'h audio_world option" where
  \<comment> \<open>a new input stream starts at the offsets of the first stream of the device\<close>
  "align_input_offset sid p w =
     (let dev = get_dev p w; s = aw_stream w sid in
      if direction s \<noteq> CRAS_STREAM_INPUT \<or> hd (dev_sids dev) = sid then Some w
      else let clip = (\<lambda>x. if ucast x > cb_threshold s then ucast (cb_threshold s) else x :: u32);
               first = aw_stream w (hd (dev_sids dev))
        in do {
          offs \<leftarrow> cras_iodev_stream_offset (stream_id first) dev;
          d \<leftarrow> cras_iodev_stream_written sid (clip offs) dev;
          let w1 = put_dev p d w;
          Some (put_stream (cras_rstream_dev_offset_update (clip (cras_rstream_dev_offset first (io_idx dev))) (io_idx dev) (aw_stream w1 sid)) w1) })"

definition create_and_add :: "('h, 'p, 's) thread_env \<Rightarrow> u32 \<Rightarrow> nat \<Rightarrow> 'h iodev \<Rightarrow> timespec \<Rightarrow> 'h audio_world \<Rightarrow>
    (int \<times> 'h audio_world) option" where
  "create_and_add env sid p dev t w =
     do {
       fmt \<leftarrow> io_format dev;
       case dev_stream_create (env_round env) (env_widths env) (te_conv env) (te_ppfmt env p sid) (te_junk env)
           (aw_stream w sid) (io_idx dev) fmt (Some p) t of
         None \<Rightarrow> Some (- EINVAL, put_dev p dev w)
       | Some ds \<Rightarrow> do {
           d \<leftarrow> cras_iodev_add_stream (te_iodev env) (te_junk env) ds dev;
           map_option (Pair 0) (align_input_offset sid p (put_dev p d w)) } }"

definition append_to_dev :: "('h, 'p, 's) thread_env \<Rightarrow> u32 \<Rightarrow> nat \<Rightarrow> timespec option \<Rightarrow> 'h audio_world \<Rightarrow>
    (int \<times> timespec option \<times> 'h audio_world) option" where
  \<comment> \<open>one round of the loop, for an open device without the stream; the first component is not zero when the loop breaks\<close>
  "append_to_dev env sid p cb w =
     (let dev = get_dev p w; s = aw_stream w sid;
          (rc0, d0) = (if direction s = CRAS_STREAM_INPUT \<and> io_streams dev = [] then op_flush_buffer (te_ops env p) dev else (0, dev))
      in if rc0 < 0 then Some (rc0, cb, put_dev p d0 w)
         else do {
           (r, cb', d1) \<leftarrow> init_cb_ts (te_ops env p) cb s d0;
           case r of Inl rc \<Rightarrow> Some (rc, cb', put_dev p d1 w)
           | Inr t \<Rightarrow> map_option (\<lambda>(rc, w2). (rc, cb', w2)) (create_and_add env sid p d1 t w) })"

fun append_loop :: "('h, 'p, 's) thread_env \<Rightarrow> u32 \<Rightarrow> nat list \<Rightarrow> timespec option \<Rightarrow> open_dev list \<times> 'h audio_world \<Rightarrow>
    (int \<times> open_dev list \<times> 'h audio_world) option" where
  "append_loop env sid [] cb st = Some (0, st)"
| "append_loop env sid (p # ps) cb st =
     (let (ods, w) = st in
      case find_open p ods of None \<Rightarrow> append_loop env sid ps cb st
      | Some ad \<Rightarrow>
          if sid \<in> set (dev_sids (aw_dev w p)) then append_loop env sid ps cb st
          else
            let ods1 = (if io_streams (aw_dev w p) = []
                  then set_open (ad\<lparr>od_last_wake := Timespec 0 0, od_longest_wake := Timespec 0 0\<rparr>) ods else ods)
            in do {
              (rc, cb', w1) \<leftarrow> append_to_dev env sid p cb w;
              if rc \<noteq> 0 then Some (rc, ods1, w1) else append_loop env sid ps cb' (ods1, w1) })"

definition dev_io_append_stream :: "('h, 'p, 's) thread_env \<Rightarrow> u32 \<Rightarrow> nat list \<Rightarrow> open_dev list \<times> 'h audio_world \<Rightarrow>
    (int \<times> open_dev list \<times> 'h audio_world) option" where
  "dev_io_append_stream env sid iodevs st =
     do {
       (rc, ods, w) \<leftarrow> append_loop env sid iodevs None st;
       if rc = 0 then Some (0, ods, w)
       else map_option (\<lambda>w'. (rc, ods, w'))
         (delete_from_devs env sid (filter (\<lambda>p. sid \<in> set (dev_sids (aw_dev w p))) (map od_dev ods)) w) }"

section \<open>Rates\<close>

definition update_estimated_rate :: "('h, 'p, 's) thread_env \<Rightarrow> open_dev \<Rightarrow> (nat \<Rightarrow> 'h iodev) \<Rightarrow> 'h iodev \<Rightarrow> 'h iodev option" where
  \<comment> \<open>\<open>devs\<close>: the devices at their addresses, for the master devices of the streams\<close>
  "update_estimated_rate env ad devs dev =
     map_option (\<lambda>(ss, u). dev\<lparr>io_streams := ss\<rparr>)
       (each_stream (\<lambda>ds u. case m_dev_ptr (master_dev (ds_stream ds)) of None \<Rightarrow> Some (ds, u)
          | Some m \<Rightarrow> do {
              fmt \<leftarrow> io_format dev;
              r \<leftarrow> cras_iodev_get_est_rate_ratio (te_dbl env) (te_est_rate env) dev;
              rm \<leftarrow> cras_iodev_get_est_rate_ratio (te_dbl env) (te_est_rate env) (if m = od_dev ad then dev else devs m);
              Some (dev_stream_set_dev_rate (env_round env) (te_dbl env) (ucast (frame_rate fmt)) r rm (od_coarse_rate_adjust ad) ds, u) })
        (io_streams dev) ())"

definition check_rate :: "('h, 'p, 's) thread_env \<Rightarrow> u64 \<Rightarrow> timespec \<Rightarrow> (nat \<Rightarrow> 'h iodev) \<Rightarrow> open_dev \<times> 'h iodev \<Rightarrow>
    (open_dev \<times> 'h iodev) option" where
  \<comment> \<open>the same lines of \<^verbatim>\<open>capture_to_streams\<close> and \<^verbatim>\<open>write_output_samples\<close>\<close>
  "check_rate env hw_level tstamp devs st =
     (let (ad, dev) = st in
      if \<not> timespec_is_nonzero (Some tstamp) then Some (ad, dev)
      else
        let adj = (if hw_level < ucast (io_min_cb_level dev div 2) then 1
                   else if hw_level > ucast (io_max_cb_level dev * 2) then - 1 else 0);
            ad1 = ad\<lparr>od_coarse_rate_adjust := adj\<rparr>
        in do {
          (changed, d1) \<leftarrow> cras_iodev_update_rate (te_rate_check env) (ucast hw_level) tstamp dev;
          d2 \<leftarrow> (if changed then update_estimated_rate env ad1 devs d1 else Some d1);
          Some (ad1, d2) })"

end
