(* ===== verification/Dev_Playback.thy ===== *)
theory Dev_Playback
  imports Dev_Io
begin

text \<open>
  \<^verbatim>\<open>server/dev_io.c\<close>, playback: starting streams that are due, asking clients for samples, mixing the streams into the
  buffer of a device, committing the frames and computing when the device has to be served again.
\<close>

section \<open>Fetching\<close>

definition is_time_to_fetch :: "'d cras_rstream \<Rightarrow> timespec \<Rightarrow> bool" where
  "is_time_to_fetch s now =
     (case dev_stream_next_cb_ts s of None \<Rightarrow> False
      | Some t \<Rightarrow> timespec_after (add_timespecs now (Timespec 0 500000)) t)"

definition dev_stream_flush_old_audio_messages :: "('h, 'p, 's) thread_env \<Rightarrow> nat \<Rightarrow> 'd dev_stream \<Rightarrow> 'd dev_stream option" where
  \<comment> \<open>the second argument: which poll this is\<close>
  "dev_stream_flush_old_audio_messages env t ds =
     map_option (\<lambda>(rc, s). ds\<lparr>ds_stream := s\<rparr>)
       (cras_rstream_flush_old_audio_messages (fst (te_flush env t)) (snd (te_flush env t)) (ds_stream ds))"

text \<open>The body of the loop of \<^verbatim>\<open>fetch_streams\<close> from the test of the time on.\<close>

definition request_samples :: "('h, 'p, 's) thread_env \<Rightarrow> timespec \<Rightarrow> int \<Rightarrow> 'd dev_stream \<Rightarrow> thread_io \<Rightarrow> 'd dev_stream \<times> thread_io" where
  "request_samples env now delay ds io =
     (let ds1 = dev_stream_set_delay (env_round env) (tv_sec (te_now env (fst io)), tv_nsec (te_now env (fst io))) (of_int delay) ds;
          (rc, msg, s2) = dev_stream_request_playback_samples now (te_now env (fst io + 1)) (te_now env (fst io + 2)) (te_write env (fst io)) (ds_stream ds1);
          s3 = (if rc < 0 then s2\<lparr>is_draining := 1\<rparr> else s2)
      in (ds1\<lparr>ds_stream := s3\<rparr>,
          later 3 (case msg of None \<Rightarrow> io | Some m \<Rightarrow> emit (Stream_message (stream_id s3) m) io)))"

definition fetch_due_stream :: "('h, 'p, 's) thread_env \<Rightarrow> timespec \<Rightarrow> int \<Rightarrow> 'd dev_stream \<Rightarrow> thread_io \<Rightarrow> 'd dev_stream \<times> thread_io" where
  "fetch_due_stream env now delay ds io =
     (let s = (if cras_shm_get_frames (shm (ds_stream ds)) < 0 then (ds_stream ds)\<lparr>is_draining := 1\<rparr> else ds_stream ds);
          ds1 = ds\<lparr>ds_stream := s\<rparr>
      in if is_draining s \<noteq> 0 then (ds1, io)
         else if cras_rstream_is_pending_reply s then (ds1, io)
         else if \<not> cras_shm_is_buffer_available (shm s)
         then (ds1\<lparr>ds_stream := dev_stream_update_next_wake_time (te_now env (fst io)) (te_now env (fst io + 1)) s\<rparr>, later 2 io)
         else request_samples env now delay ds1 io)"

definition fetch_stream :: "('h, 'p, 's) thread_env \<Rightarrow> int \<Rightarrow> 'd dev_stream \<Rightarrow> thread_io \<Rightarrow> ('d dev_stream \<times> thread_io) option" where
  "fetch_stream env delay ds io =
     do {
       let now = te_now env (fst io);
       ds1 \<leftarrow> (if dev_stream_is_pending_reply ds
         then map_option (\<lambda>d. d\<lparr>ds_stream := cras_rstream_record_fetch_interval now (ds_stream d)\<rparr>)
           (dev_stream_flush_old_audio_messages env (fst io) ds)
         else Some ds);
       Some (if \<not> ds_is_running ds1 \<or> \<not> is_time_to_fetch (ds_stream ds1) now then (ds1, later 1 io)
         else fetch_due_stream env now delay ds1 (later 1 io)) }"

definition fetch_streams :: "('h, 'p, 's) thread_env \<Rightarrow> nat \<Rightarrow> 'h audio_world \<Rightarrow> (int \<times> 'h audio_world) option" where
  \<comment> \<open>of the device at the address\<close>
  "fetch_streams env p w =
     (let dev = get_dev p w; delay = cras_iodev_delay_frames (te_ops env p) dev in
      if delay < 0 then Some (delay, w)
      else map_option (\<lambda>(ss, io). (0, (put_dev p (dev\<lparr>io_streams := ss\<rparr>) w)\<lparr>aw_io := io\<rparr>))
        (each_stream (fetch_stream env delay) (io_streams dev) (aw_io w)))"

fun start_due_streams :: "('h, 'p, 's) thread_env \<Rightarrow> timespec \<Rightarrow> u32 list \<Rightarrow> 'h iodev \<Rightarrow> 'h iodev option" where
  \<comment> \<open>the loop of \<^verbatim>\<open>dev_io_check_dev_stream_start\<close>\<close>
  "start_due_streams env now [] dev = Some dev"
| "start_due_streams env now (sid # sids) dev =
     do {
       d \<leftarrow> (case find_ds sid dev of None \<Rightarrow> Some dev
         | Some ds \<Rightarrow> if is_time_to_fetch (ds_stream ds) now \<and> \<not> ds_is_running ds
             then cras_iodev_start_stream (te_iodev env) (te_junk env) ds dev else Some dev);
       start_due_streams env now sids d }"

definition dev_io_check_dev_stream_start :: "('h, 'p, 's) thread_env \<Rightarrow> nat \<Rightarrow> 'h audio_world \<Rightarrow> 'h audio_world option" where
  "dev_io_check_dev_stream_start env p w =
     map_option (\<lambda>d. (put_dev p d w)\<lparr>aw_io := later 1 (aw_io w)\<rparr>)
       (start_due_streams env (te_now env (fst (aw_io w))) (dev_sids (aw_dev w p)) (get_dev p w))"

fun each_open :: "(nat \<Rightarrow> 'h audio_world \<Rightarrow> 'h audio_world option) \<Rightarrow> nat list \<Rightarrow> 'h audio_world \<Rightarrow> 'h audio_world option" where
  \<comment> \<open>a loop over the open devices of a list\<close>
  "each_open f [] w = Some w"
| "each_open f (p # ps) w = do { w1 \<leftarrow> (if cras_iodev_is_open (aw_dev w p) then f p w else Some w); each_open f ps w1 }"

definition dev_io_playback_fetch :: "('h, 'p, 's) thread_env \<Rightarrow> open_dev list \<Rightarrow> 'h audio_world \<Rightarrow> 'h audio_world option" where
  "dev_io_playback_fetch env ods w =
     do {
       w1 \<leftarrow> each_open (dev_io_check_dev_stream_start env) (map od_dev ods) w;
       each_open (\<lambda>p w. map_option snd (fetch_streams env p w)) (map od_dev ods) w1 }"

section \<open>Mixing\<close>

text \<open>The frames every stream can give: the limit of the streams that play, the limit of those that drain and the number of
  those that play.\<close>

definition level_stream :: "('h, 'p, 's) thread_env \<Rightarrow> open_dev list \<Rightarrow> nat \<Rightarrow> u32 \<Rightarrow> u32 \<times> u32 \<times> nat \<Rightarrow> 'h audio_world \<Rightarrow>
    ((u32 \<times> u32 \<times> nat) \<times> 'h audio_world) option" where
  "level_stream env ods p sid lims w =
     (case find_ds sid (get_dev p w) of None \<Rightarrow> Some (lims, w)
      | Some ds \<Rightarrow>
          if \<not> ds_is_running ds then Some (lims, w)
          else
            let ds1 = (if dev_stream_attached_devs ds = 1 then dev_stream_update_frames ds else ds);
                w1 = put_ds p ds1 w;
                n = dev_stream_playback_frames (env_round env) ds1;
                (wl, dl, num) = lims
            in if n < 0 then map_option (Pair lims) (dev_io_remove_stream env ods sid None w1)
               else if is_draining (ds_stream ds1) \<noteq> 0
               then map_option (Pair (wl, min (of_int n) dl, num)) (if n = 0 then dev_io_remove_stream env ods sid None w1 else Some w1)
               else Some ((min (of_int n) wl, dl, Suc num), w1))"

fun level_loop :: "('h, 'p, 's) thread_env \<Rightarrow> open_dev list \<Rightarrow> nat \<Rightarrow> u32 list \<Rightarrow> u32 \<times> u32 \<times> nat \<Rightarrow> 'h audio_world \<Rightarrow>
    ((u32 \<times> u32 \<times> nat) \<times> 'h audio_world) option" where
  "level_loop env ods p [] lims w = Some (lims, w)"
| "level_loop env ods p (sid # sids) lims w =
     do { (lims1, w1) \<leftarrow> level_stream env ods p sid lims w; level_loop env ods p sids lims1 w1 }"

definition mix_stream :: "('h, 'p, 's) thread_env \<Rightarrow> open_dev list \<Rightarrow> nat \<Rightarrow> u32 \<Rightarrow> u32 \<Rightarrow> 'h audio_world \<Rightarrow> 'h audio_world option" where
  "mix_stream env ods p wl sid w =
     (let dev = get_dev p w in
      case find_ds sid dev of None \<Rightarrow> Some w
      | Some ds \<Rightarrow>
          if \<not> ds_is_running ds then Some w
          else do {
            offs \<leftarrow> cras_iodev_stream_offset sid dev;
            if offs \<ge> wl then Some w
            else do {
              fmt \<leftarrow> io_format dev;
              (n, calls, ds1) \<leftarrow> dev_stream_mix (env_round env) (te_speex env) (env_widths env) fmt (wl - offs) ds;
              let w1 = (put_ds p ds1 w)\<lparr>aw_io := emit (Mixed p sid offs calls) (aw_io w)\<rparr>;
              if n < 0 then dev_io_remove_stream env ods sid None w1
              else map_option (\<lambda>d. put_dev p d w1) (cras_iodev_stream_written sid (of_int n) (get_dev p w1)) } })"

fun mix_streams :: "('h, 'p, 's) thread_env \<Rightarrow> open_dev list \<Rightarrow> nat \<Rightarrow> u32 \<Rightarrow> u32 list \<Rightarrow> 'h audio_world \<Rightarrow> 'h audio_world option" where
  "mix_streams env ods p wl [] w = Some w"
| "mix_streams env ods p wl (sid # sids) w = do { w1 \<leftarrow> mix_stream env ods p wl sid w; mix_streams env ods p wl sids w1 }"

definition zero_mix_area :: "nat \<Rightarrow> u32 \<Rightarrow> u32 \<Rightarrow> 'h audio_world \<Rightarrow> 'h audio_world" where
  "zero_mix_area p max_offset wl w = (if wl > max_offset then w\<lparr>aw_io := emit (Mix_area_zeroed p max_offset wl) (aw_io w)\<rparr> else w)"

definition write_streams :: "('h, 'p, 's) thread_env \<Rightarrow> open_dev list \<Rightarrow> nat \<Rightarrow> u32 \<Rightarrow> 'h audio_world \<Rightarrow> (int \<times> 'h audio_world) option" where
  "write_streams env ods p write_limit w =
     do {
       max_offset \<leftarrow> cras_iodev_max_stream_offset (get_dev p w);
       (lims, w1) \<leftarrow> level_loop env ods p (dev_sids (aw_dev w p)) (write_limit, write_limit, 0) w;
       let wl = (if snd (snd lims) = 0 then fst (snd lims) else fst lims);
       w2 \<leftarrow> mix_streams env ods p wl (dev_sids (aw_dev w1 p)) (zero_mix_area p max_offset wl w1);
       let (n, d) = cras_iodev_all_streams_written (get_dev p w2);
       Some (sint n, put_dev p d w2) }"

section \<open>Writing\<close>

definition update_dev_wakeup_time :: "('h, 'p, 's) thread_env \<Rightarrow> open_dev \<Rightarrow> 'h audio_world \<Rightarrow> (u32 \<times> open_dev \<times> 'h audio_world) option" where
  \<comment> \<open>the level of the hardware, the open device with its new \<^verbatim>\<open>wake_ts\<close>\<close>
  "update_dev_wakeup_time env ad w =
     do {
       let now = te_now env (fst (aw_io w));
       let p = od_dev ad;
       (frames, lv, tstamp, d1) \<leftarrow> cras_iodev_frames_to_play_in_sleep (te_iodev env) (te_ops env p) (get_dev p w);
       let base = (if timespec_is_nonzero (Some tstamp) then tstamp else now);
       let d2 = (if io_state d1 = CRAS_IODEV_STATE_NORMAL_RUN then cras_iodev_update_highest_hw_level lv d1 else d1);
       rate \<leftarrow> dev_est_rate (te_dbl env) (te_est_rate env) d2;
       Some (lv, ad\<lparr>od_wake_ts := add_timespecs base (cras_frames_to_time_precise (te_dbl env) frames rate)\<rparr>,
         (put_dev p d2 w)\<lparr>aw_io := later 1 (aw_io w)\<rparr>) }"

definition check_emptiness :: "timespec \<Rightarrow> bool \<Rightarrow> open_dev \<Rightarrow> bool \<times> open_dev" where
  \<comment> \<open>whether to ask if the output is empty; \<open>asked\<close>: an earlier round asked\<close>
  "check_emptiness now asked ad =
     (let pi = (case od_non_empty_check_pi ad of None \<Rightarrow> pic_polled_interval_create now 5 | Some q \<Rightarrow> q);
          check = (od_empty_pi ad \<noteq> None \<or> pic_interval_elapsed now pi)
      in (asked \<or> check, ad\<lparr>od_non_empty_check_pi := Some (if check then pic_interval_reset now pi else pi)\<rparr>))"

definition update_empty_period :: "timespec \<Rightarrow> bool \<Rightarrow> bool \<Rightarrow> open_dev \<Rightarrow> open_dev" where
  "update_empty_period now asked non_empty ad =
     (let ad1 = (if non_empty \<and> od_empty_pi ad \<noteq> None then ad\<lparr>od_empty_pi := None\<rparr> else ad)
      in if asked \<and> \<not> non_empty \<and> od_empty_pi ad1 = None then ad1\<lparr>od_empty_pi := Some (pic_polled_interval_create now 30)\<rparr> else ad1)"

record write_state =
  wr_ad :: open_dev
  wr_written :: u64
  wr_asked :: bool
  wr_non_empty :: bool

definition write_round :: "('h, 'p, 's) thread_env \<Rightarrow> bool \<Rightarrow> open_dev list \<Rightarrow> u32 \<Rightarrow> write_state \<times> 'h audio_world \<Rightarrow>
    ((int + u32) \<times> write_state \<times> 'h audio_world) option" where
  \<comment> \<open>one round of the loop: the value to return, or the new \<^verbatim>\<open>fr_to_req\<close>\<close>
  "write_round env remix ods fr_to_req st =
     (let (x, w) = st; p = od_dev (wr_ad x);
          (rc, frames, area, d) = cras_iodev_get_output_buffer (te_ops env p) (fr_to_req - ucast (wr_written x)) (get_dev p w);
          w1 = put_dev p d w
      in if rc < 0 then Some (Inl rc, x, w1)
         else do {
           a \<leftarrow> area;
           (written, w2) \<leftarrow> write_streams env ods p frames w1;
           if written < 0 then Some (Inl written, x, w2)
           else do {
             let req = (if written < sint (ucast frames :: u64) then 0 else fr_to_req);
             let (asked, ad1) = check_emptiness (aw_pic_now w2) (wr_asked x) (wr_ad x);
             (rc2, ne, d2) \<leftarrow> cras_iodev_put_output_buffer (te_iodev env) (te_sys env) (te_ops env p) (te_buffer env (fst (aw_io w2))) (of_int written)
               asked remix (get_dev p w2);
             let w3 = (put_dev p d2 w2)\<lparr>aw_io := later 1 (aw_io w2)\<rparr>;
             let non_empty = (wr_non_empty x \<or> asked \<and> ne);
             if rc2 < 0 then Some (Inl rc2, x\<lparr>wr_ad := ad1, wr_asked := asked, wr_non_empty := non_empty\<rparr>, w3)
             else Some (Inr req, \<lparr>wr_ad = update_empty_period (aw_pic_now w3) asked non_empty ad1, wr_written = wr_written x + of_int written,
               wr_asked = asked, wr_non_empty = non_empty\<rparr>, w3) } })"

partial_function (option) write_loop :: "('h, 'p, 's) thread_env \<Rightarrow> bool \<Rightarrow> open_dev list \<Rightarrow> u32 \<Rightarrow> write_state \<times> 'h audio_world \<Rightarrow>
    (int \<times> open_dev \<times> 'h audio_world) option" where
  "write_loop env remix ods fr_to_req st =
     (if \<not> wr_written (fst st) < ucast fr_to_req then Some (sint (ucast (wr_written (fst st)) :: u32), wr_ad (fst st), snd st)
      else do {
        r \<leftarrow> write_round env remix ods fr_to_req st;
        case fst r of Inl rc \<Rightarrow> Some (rc, wr_ad (fst (snd r)), snd (snd r))
        | Inr req \<Rightarrow> write_loop env remix ods req (snd r) })"

declare write_loop.simps [code]

definition write_output_samples :: "('h, 'p, 's) thread_env \<Rightarrow> bool \<Rightarrow> open_dev list \<Rightarrow> open_dev \<Rightarrow> 'h audio_world \<Rightarrow>
    (int \<times> open_dev \<times> 'h audio_world) option" where
  \<comment> \<open>the second argument: there is an output converter\<close>
  "write_output_samples env remix ods ad w =
     do {
       let p = od_dev ad;
       let ops = te_ops env p;
       (rc, d1) \<leftarrow> cras_iodev_prepare_output_before_write_samples (te_iodev env) (te_sys env) ops (get_dev p w);
       let w1 = put_dev p d1 w;
       if rc < 0 then Some (rc, ad, w1)
       else if io_state d1 \<noteq> CRAS_IODEV_STATE_NORMAL_RUN then Some (0, ad, w1)
       else
         let (lv, tstamp, d2) = cras_iodev_frames_queued ops (get_dev p w1);
             w2 = put_dev p d2 w1
         in if lv < 0 then Some (lv, ad, w2)
            else do {
              (ad1, d3) \<leftarrow> check_rate env (of_int lv) tstamp (aw_dev w2) (ad, get_dev p w2);
              write_loop env remix ods (of_int (cras_iodev_buffer_avail (of_int lv) d3))
                (\<lparr>wr_ad = ad1, wr_written = 0, wr_asked = False, wr_non_empty = False\<rparr>, put_dev p d3 w2) } }"

definition handle_dev_err :: "('h, 'p, 's) thread_env \<Rightarrow> int \<Rightarrow> nat \<Rightarrow> open_dev list \<times> 'h audio_world \<Rightarrow> (open_dev list \<times> 'h audio_world) option" where
  "handle_dev_err env err p st =
     (let (ods, w) = st;
          w1 = (if err = - EPIPE
            then (put_dev p (snd (cras_iodev_reset_request (te_send env (fst (aw_io w))) (get_dev p w))) w)\<lparr>aw_io := later 1 (aw_io w)\<rparr> else w)
      in dev_io_rm_open_dev env p (ods, w1))"

definition write_one_dev :: "('h, 'p, 's) thread_env \<Rightarrow> bool \<Rightarrow> open_dev \<Rightarrow> open_dev list \<times> 'h audio_world \<Rightarrow> (open_dev list \<times> 'h audio_world) option" where
  \<comment> \<open>the body of the loop of \<^verbatim>\<open>dev_io_playback_write\<close> for an open device\<close>
  "write_one_dev env remix ad st =
     (let (ods, w) = st; p = od_dev ad in
      do {
        (rc, ad1, w1) \<leftarrow> write_output_samples env remix ods ad w;
        let ods1 = set_open ad1 ods;
        if rc < 0 then handle_dev_err env rc p (ods1, w1)
        else if \<not> cras_iodev_odev_should_wake (te_ops env p) (get_dev p w1) then Some (ods1, w1)
        else do {
          (lv, ad2, w2) \<leftarrow> update_dev_wakeup_time env ad1 w1;
          if lv > of_int rc then Some (set_open ad2 ods1, w2)
          else do {
            (rc2, d) \<leftarrow> cras_iodev_output_underrun (te_iodev env) (te_sys env) (te_ops env p) (get_dev p w2);
            let w3 = put_dev p d w2;
            if rc2 < 0 then handle_dev_err env rc2 p (set_open ad2 ods1, w3)
            else map_option (\<lambda>(lv', ad3, w4). (set_open ad3 ods1, w4)) (update_dev_wakeup_time env ad2 w3) } } })"

fun write_devs :: "('h, 'p, 's) thread_env \<Rightarrow> bool \<Rightarrow> nat list \<Rightarrow> open_dev list \<times> 'h audio_world \<Rightarrow> (open_dev list \<times> 'h audio_world) option" where
  "write_devs env remix [] st = Some st"
| "write_devs env remix (p # ps) st =
     (case find_open p (fst st) of None \<Rightarrow> write_devs env remix ps st
      | Some ad \<Rightarrow>
          if \<not> cras_iodev_is_open (aw_dev (snd st) p) then write_devs env remix ps st
          else do { st1 \<leftarrow> write_one_dev env remix ad st; write_devs env remix ps st1 })"

definition map_streams :: "(nat dev_stream \<Rightarrow> nat dev_stream) \<Rightarrow> nat \<Rightarrow> 'h audio_world \<Rightarrow> 'h audio_world" where
  \<comment> \<open>a loop over the streams of a device that only changes each stream\<close>
  "map_streams f p w = put_dev p ((get_dev p w)\<lparr>io_streams := map f (io_streams (get_dev p w))\<rparr>) w"

definition dev_io_playback_write :: "('h, 'p, 's) thread_env \<Rightarrow> bool \<Rightarrow> open_dev list \<times> 'h audio_world \<Rightarrow>
    (open_dev list \<times> 'h audio_world) option" where
  "dev_io_playback_write env remix st =
     (let (ods, w) = st;
          w1 = (if length ods > 1 then fold (map_streams dev_stream_update_frames) (map od_dev ods) w else w)
      in do {
        (ods1, w2) \<leftarrow> write_devs env remix (map od_dev ods) (ods, w1);
        w3 \<leftarrow> each_open (\<lambda>p w. Some (map_streams (\<lambda>ds. snd (dev_stream_playback_update_rstream ds)) p w)) (map od_dev ods1) w2;
        Some (ods1, w3) })"

end
