(* ===== verification/Dev_Capture.thy ===== *)
theory Dev_Capture
  imports Dev_Playback
begin

text \<open>
  \<^verbatim>\<open>server/dev_io.c\<close>, capture and the loop of the audio thread: reading the input devices into the streams, handing
  the samples to the clients, the time of the next wake up, dropping samples when a device has too many.
\<close>

section \<open>Reading a device\<close>

definition stream_limit_step :: "('h, 'p, 's) thread_env \<Rightarrow> 'd dev_stream \<Rightarrow> u32 \<times> u32 option \<Rightarrow> ('d dev_stream \<times> u32 \<times> u32 option) option" where
  "stream_limit_step env ds lims =
     (let s = ds_stream ds in
      if flags s AND TRIGGER_ONLY \<noteq> 0 then Some (ds, lims)
      else do {
        (overrun, sh) \<leftarrow> cras_shm_check_write_overrun (shm s);
        let ds1 = ds\<lparr>ds_stream := s\<lparr>shm := sh\<rparr>\<rparr>;
        let avail = dev_stream_capture_avail (env_round env) (env_widths env) ds1;
        Some (ds1, if avail < fst lims then (avail, Some (stream_id s)) else lims) })"

definition get_stream_limit :: "('h, 'p, 's) thread_env \<Rightarrow> u32 \<Rightarrow> ('d, 'h) cras_iodev \<Rightarrow> (u32 \<times> u32 option \<times> ('d, 'h) cras_iodev) option" where
  \<comment> \<open>the limit and the stream that causes it\<close>
  "get_stream_limit env write_limit dev =
     map_option (\<lambda>(ss, lims, who). (lims, who, dev\<lparr>io_streams := ss\<rparr>)) (each_stream (stream_limit_step env) (io_streams dev) (write_limit, None))"

fun input_delay_frames :: "('h, 'p, 's) thread_env \<Rightarrow> (nat \<Rightarrow> 'h iodev) \<Rightarrow> nat list \<Rightarrow> int \<Rightarrow> int" where
  "input_delay_frames env devs [] max_delay = max_delay"
| "input_delay_frames env devs (p # ps) max_delay =
     (if \<not> cras_iodev_is_open (devs p) then input_delay_frames env devs ps max_delay
      else let d = cras_iodev_delay_frames (te_ops env p) (devs p) in
        if d < 0 then d else input_delay_frames env devs ps (max d max_delay))"

definition set_stream_delay :: "('h, 'p, 's) thread_env \<Rightarrow> int \<Rightarrow> 'd dev_stream \<Rightarrow> thread_io \<Rightarrow> ('d dev_stream \<times> thread_io) option" where
  \<comment> \<open>for one stream\<close>
  "set_stream_delay env delay ds io =
     Some (if flags (ds_stream ds) AND TRIGGER_ONLY \<noteq> 0 then (ds, io)
       else (dev_stream_set_delay (env_round env) (tv_sec (te_now env (fst io)), tv_nsec (te_now env (fst io))) (of_int delay) ds, later 1 io))"

record capture_acc =
  ca_bs :: "nat buffer_share option"
  ca_io :: thread_io

definition capture_stream :: "('h, 'p, 's) thread_env \<Rightarrow> nat \<Rightarrow> 'h iodev \<Rightarrow> nat dev_stream \<Rightarrow> capture_acc \<Rightarrow> (nat dev_stream \<times> capture_acc) option" where
  \<comment> \<open>one stream of the loop over the streams; a stream whose echo canceller fails reads an uninitialised offset\<close>
  "capture_stream env p dev ds acc =
     (let s = ds_stream ds; sid = stream_id s; apm = te_apm env p sid in
      if flags s AND TRIGGER_ONLY \<noteq> 0 \<and> triggered s then Some (ds, acc)
      else do {
        dt \<leftarrow> io_input_data dev;
        bs \<leftarrow> ca_bs acc;
        (inp, bs1) \<leftarrow> input_data_get_for_stream apm dt s bs;
        case inp of Not_set \<Rightarrow> None
        | Stream_area a offs \<Rightarrow> do {
            let gain = float_times (env_round env) (cras_iodev_get_ui_gain_scaler dev)
              (input_data_get_software_gain_scaler (env_round env) apm (io_software_gain_scaler dev) s);
            (n, eff, ds1) \<leftarrow> dev_stream_capture (env_round env) (te_speex env) (env_widths env) (te_rs_area env sid) a offs ds;
            Some (ds1, \<lparr>ca_bs = Some (input_data_put_for_stream apm (ds_stream ds1) n bs1), ca_io = emit (Captured p sid n gain eff) (ca_io acc)\<rparr>) } })"

definition capture_round :: "('h, 'p, 's) thread_env \<Rightarrow> nat \<Rightarrow> u64 \<Rightarrow> 'h iodev \<times> thread_io \<Rightarrow> ((int + u64 \<times> bool) \<times> 'h iodev \<times> thread_io) option" where
  \<comment> \<open>one round of the loop: the value to return, or the remainder and whether to go on\<close>
  "capture_round env p remainder st =
     (let (dev, io) = st; ops = te_ops env p in
      do {
        (rc, nread, d1) \<leftarrow> cras_iodev_get_input_buffer (te_iodev env) (te_sys env) ops (ucast remainder) dev;
        if rc < 0 \<or> nread = 0 then Some (Inl rc, d1, io)
        else do {
          (ss, acc) \<leftarrow> each_stream (capture_stream env p d1) (io_streams d1) \<lparr>ca_bs = io_buf_state d1, ca_io = io\<rparr>;
          (rc2, d3) \<leftarrow> cras_iodev_put_input_buffer ops (d1\<lparr>io_streams := ss, io_buf_state := ca_bs acc\<rparr>);
          Some (if rc2 < 0 then Inl rc2 else Inr (remainder - ucast nread, \<not> of_int rc2 < nread), d3, ca_io acc) } })"

partial_function (option) capture_rounds :: "('h, 'p, 's) thread_env \<Rightarrow> nat \<Rightarrow> u64 \<Rightarrow> 'h iodev \<times> thread_io \<Rightarrow> (int \<times> 'h iodev \<times> thread_io) option" where
  "capture_rounds env p remainder st =
     (if remainder = 0 then Some (0, st)
      else do {
        r \<leftarrow> capture_round env p remainder st;
        case fst r of Inl rc \<Rightarrow> Some (rc, snd r)
        | Inr (rest, go_on) \<Rightarrow> if go_on then capture_rounds env p rest (snd r) else Some (0, snd r) })"

declare capture_rounds.simps [code]

definition flush_stream :: "('h, 'p, 's) thread_env \<Rightarrow> 'd dev_stream \<Rightarrow> thread_io \<Rightarrow> ('d dev_stream \<times> thread_io) option" where
  "flush_stream env ds io = map_option (\<lambda>d. (d, later 1 io)) (dev_stream_flush_old_audio_messages env (fst io) ds)"

definition capture_to_streams :: "('h, 'p, 's) thread_env \<Rightarrow> nat list \<Rightarrow> open_dev \<Rightarrow> 'h audio_world \<Rightarrow> (int \<times> open_dev \<times> 'h audio_world) option" where
  \<comment> \<open>the second argument: the addresses of the open devices from this one on, as \<^verbatim>\<open>input_delay_frames\<close> sees them\<close>
  "capture_to_streams env from_here ad w =
     do {
       let p = od_dev ad;
       let ops = te_ops env p;
       let dev = get_dev p w;
       (ss, io) \<leftarrow> each_stream (flush_stream env) (io_streams dev) (aw_io w);
       let (lv, tstamp, d1) = cras_iodev_frames_queued ops (dev\<lparr>io_streams := ss\<rparr>);
       if lv < 0 then Some (lv, ad, (put_dev p d1 w)\<lparr>aw_io := io\<rparr>)
       else do {
         let d2 = cras_iodev_update_highest_hw_level (of_int lv) d1;
         (ad1, d3) \<leftarrow> check_rate env (of_int lv) tstamp (aw_dev w) (ad, d2);
         (cap_limit, who, d4) \<leftarrow> get_stream_limit env (of_int lv) d3;
         let delay = input_delay_frames env ((aw_dev w)(p := d4)) from_here 0;
         (ss5, io5) \<leftarrow> each_stream (set_stream_delay env delay) (io_streams d4) io;
         let d5 = d4\<lparr>io_streams := ss5\<rparr>;
         if io_state d5 \<noteq> CRAS_IODEV_STATE_NORMAL_RUN then Some (0, ad1, (put_dev p d5 w)\<lparr>aw_io := io5\<rparr>)
         else do {
           (rc, d6, io6) \<leftarrow> capture_rounds env p (min (of_int lv) (ucast cap_limit)) (d5, io5);
           Some (rc, ad1, (put_dev p d6 w)\<lparr>aw_io := io6\<rparr>) } } }"

fun capture_devs :: "('h, 'p, 's) thread_env \<Rightarrow> nat list \<Rightarrow> open_dev list \<times> 'h audio_world \<Rightarrow> (open_dev list \<times> 'h audio_world) option" where
  "capture_devs env [] st = Some st"
| "capture_devs env (p # ps) st =
     (case find_open p (fst st) of None \<Rightarrow> capture_devs env ps st
      | Some ad \<Rightarrow>
          if \<not> cras_iodev_is_open (aw_dev (snd st) p) then capture_devs env ps st
          else do {
            (rc, ad1, w1) \<leftarrow> capture_to_streams env (p # ps) ad (snd st);
            st2 \<leftarrow> (if rc < 0 then handle_dev_err env rc p (set_open ad1 (fst st), w1) else Some (set_open ad1 (fst st), w1));
            capture_devs env ps st2 })"

definition dev_io_capture :: "('h, 'p, 's) thread_env \<Rightarrow> open_dev list \<times> 'h audio_world \<Rightarrow> (open_dev list \<times> 'h audio_world) option" where
  "dev_io_capture env st = capture_devs env (map od_dev (fst st)) st"

section \<open>Handing samples to the clients\<close>

definition get_input_dev_max_wake_ts :: "u32 \<Rightarrow> timespec \<Rightarrow> ('d, 'h) cras_iodev \<Rightarrow> int \<times> timespec" where
  \<comment> \<open>the time is only set when the result is zero\<close>
  "get_input_dev_max_wake_ts curr_level now dev =
     (case io_format dev of None \<Rightarrow> (- EINVAL, Timespec 0 0)
      | Some fmt \<Rightarrow>
          if frame_rate fmt = 0 \<or> io_buffer_size dev = 0 then (- EINVAL, Timespec 0 0)
          else let half = (ucast (io_buffer_size dev div 2) :: u32);
                   target = (if curr_level < half then half - curr_level else 0);
                   t = cras_frames_to_time target (ucast (frame_rate fmt));
                   res = (if timespec_after t (Timespec 0 5000000) then t else Timespec 0 5000000)
            in (0, add_timespecs res now))"

definition input_devices_can_drop_samples :: "('d, 'h) cras_iodev \<Rightarrow> bool" where
  "input_devices_can_drop_samples dev =
     (if \<not> cras_iodev_is_open dev then False
      else if io_streams dev = [] then False
      else case active_node dev of None \<Rightarrow> False | Some node \<Rightarrow> nd_type node \<noteq> CRAS_NODE_TYPE_HOTWORD)"

fun stream_wake_loop :: "('d dev_stream \<Rightarrow> int \<times> timespec option) \<Rightarrow> 'd dev_stream list \<Rightarrow> int \<times> timespec \<Rightarrow> int \<times> timespec" where
  \<comment> \<open>the last result and the earliest time so far; a negative result ends the loop\<close>
  "stream_wake_loop f [] st = st"
| "stream_wake_loop f (ds # rest) st =
     (let (rc, t) = f ds in
      if rc > 0 then stream_wake_loop f rest (rc, snd st)
      else if rc < 0 then (rc, snd st)
      else stream_wake_loop f rest (rc, case t of None \<Rightarrow> snd st | Some u \<Rightarrow> if timespec_after (snd st) u then u else snd st))"

definition wants_drop :: "int \<Rightarrow> ('d, 'h) cras_iodev \<Rightarrow> bool option" where
  \<comment> \<open>the device has half as much again as its largest callback, and at least 50 milliseconds\<close>
  "wants_drop lv dev =
     (if \<not> (input_devices_can_drop_samples dev \<and> 2 * lv \<ge> 3 * uint (io_largest_cb_level dev)) then Some False
      else map_option (\<lambda>fmt. cras_frames_to_ms (of_int lv) (ucast (frame_rate fmt)) \<ge> 50) (io_format dev))"

definition set_input_dev_wake_ts :: "('h, 'p, 's) thread_env \<Rightarrow> open_dev \<Rightarrow> bool \<Rightarrow> 'h audio_world \<Rightarrow>
    (int \<times> open_dev \<times> bool \<times> 'h audio_world) option" where
  "set_input_dev_wake_ts env ad need_to_drop w =
     do {
       let p = od_dev ad;
       let t = fst (aw_io w);
       let dflt = add_timespecs (Timespec 20 0) (te_now env t);
       let ad1 = ad\<lparr>od_wake_ts := dflt\<rparr>;
       let (rc, tstamp0, d1) = cras_iodev_frames_queued (te_ops env p) (get_dev p w);
       let w1 = (put_dev p d1 w)\<lparr>aw_io := later 1 (aw_io w)\<rparr>;
       if rc < 0 then Some (rc, ad1, need_to_drop, w1)
       else do {
         let tstamp = (if timespec_is_nonzero (Some tstamp0) then tstamp0 else te_now env (t + 1));
         dropping \<leftarrow> wants_drop rc d1;
         (cap_limit, who, d2) \<leftarrow> get_stream_limit env (- 1) d1;
         let w2 = (put_dev p d2 w)\<lparr>aw_io := later 3 (aw_io w)\<rparr>;
         let (rc1, ts1) = stream_wake_loop (\<lambda>ds. dev_stream_wake_time (env_round env) (env_widths env) (of_int rc) tstamp cap_limit (who = Some (ds_sid ds)) ds)
           (io_streams d2) (rc, dflt);
         Some (if rc1 < 0 then (rc1, ad1, need_to_drop \<or> dropping, w2)
           else if (case active_node d2 of None \<Rightarrow> False | Some node \<Rightarrow> nd_type node \<noteq> CRAS_NODE_TYPE_HOTWORD) \<and> cap_limit \<noteq> 0
           then let (rc2, ts2) = get_input_dev_max_wake_ts (of_int rc) (te_now env (t + 2)) d2
             in (rc2, ad\<lparr>od_wake_ts := if \<not> rc2 < 0 \<and> timespec_after ts1 ts2 then ts2 else ts1\<rparr>, need_to_drop \<or> dropping, w2)
           else (rc1, ad\<lparr>od_wake_ts := ts1\<rparr>, need_to_drop \<or> dropping, w2)) } }"

text \<open>The time to drop is not set when no device can be read.\<close>

fun get_input_devices_drop_time :: "('h, 'p, 's) thread_env \<Rightarrow> nat list \<Rightarrow> timespec option \<Rightarrow> 'h audio_world \<Rightarrow>
    (timespec option \<times> 'h audio_world) option" where
  "get_input_devices_drop_time env [] best w = Some (best, w)"
| "get_input_devices_drop_time env (p # ps) best w =
     (let dev = get_dev p w in
      if \<not> input_devices_can_drop_samples dev then get_input_devices_drop_time env ps best w
      else
        let (rc, tstamp, d) = cras_iodev_frames_queued (te_ops env p) dev; w1 = put_dev p d w in
        if rc < 0 then get_input_devices_drop_time env ps best w1
        else if of_int rc \<le> io_min_cb_level d then Some (Some (Timespec 0 0), w1)
        else do {
          rate \<leftarrow> dev_est_rate (te_dbl env) (te_est_rate env) d;
          let t = cras_frames_to_time (of_int rc - io_min_cb_level d) (to_unsigned rate);
          get_input_devices_drop_time env ps
            (case best of None \<Rightarrow> Some t | Some b \<Rightarrow> if timespec_after b t then Some t else best) w1 })"

fun drop_from_devs :: "('h, 'p, 's) thread_env \<Rightarrow> timespec \<Rightarrow> nat list \<Rightarrow> 'h audio_world \<Rightarrow> 'h audio_world option" where
  "drop_from_devs env t [] w = Some w"
| "drop_from_devs env t (p # ps) w =
     (if \<not> input_devices_can_drop_samples (get_dev p w) then drop_from_devs env t ps w
      else do {
        (rc, n, d) \<leftarrow> cras_iodev_drop_frames_by_time (te_dbl env) (te_est_rate env) (te_ops env p) t (get_dev p w);
        drop_from_devs env t ps (put_dev p d w) })"

definition dev_io_drop_samples :: "('h, 'p, 's) thread_env \<Rightarrow> open_dev list \<Rightarrow> 'h audio_world \<Rightarrow> 'h audio_world option" where
  "dev_io_drop_samples env ods w =
     do {
       (best, w1) \<leftarrow> get_input_devices_drop_time env (map od_dev ods) None w;
       t \<leftarrow> best;
       if timespec_is_zero (Some t) then Some w1
       else map_option (\<lambda>w2. w2\<lparr>aw_io := emit Dropped_samples (aw_io w2)\<rparr>) (drop_from_devs env t (map od_dev ods) w1) }"

definition post_stream :: "('h, 'p, 's) thread_env \<Rightarrow> 'd dev_stream \<Rightarrow> thread_io \<Rightarrow> ('d dev_stream \<times> thread_io) option" where
  \<comment> \<open>\<^verbatim>\<open>dev_stream_capture_update_rstream\<close> with the readings of the clock and the result of writing\<close>
  "post_stream env ds io =
     (let t = fst io;
          (rc, msg, s) = dev_stream_capture_update_rstream (te_now env t) (te_now env (t + 1)) (te_now env (t + 2)) (te_write env t) (ds_stream ds)
      in Some (ds\<lparr>ds_stream := s\<rparr>, later 3 (case msg of None \<Rightarrow> io | Some m \<Rightarrow> emit (Stream_message (stream_id s) m) io)))"

fun send_captured :: "('h, 'p, 's) thread_env \<Rightarrow> nat list \<Rightarrow> bool \<Rightarrow> open_dev list \<times> 'h audio_world \<Rightarrow>
    (int \<times> bool \<times> open_dev list \<times> 'h audio_world) option" where
  "send_captured env [] dropping st = Some (0, dropping, st)"
| "send_captured env (p # ps) dropping st =
     (let (ods, w) = st in
      case find_open p ods of None \<Rightarrow> send_captured env ps dropping st
      | Some ad \<Rightarrow>
          if \<not> cras_iodev_is_open (aw_dev w p) then send_captured env ps dropping st
          else do {
            let dev = get_dev p w;
            (ss, io) \<leftarrow> each_stream (post_stream env) (io_streams dev) (aw_io w);
            (rc, ad1, drop1, w2) \<leftarrow> set_input_dev_wake_ts env ad dropping ((put_dev p (dev\<lparr>io_streams := ss\<rparr>) w)\<lparr>aw_io := io\<rparr>);
            if rc < 0 then Some (rc, drop1, set_open ad1 ods, w2) else send_captured env ps drop1 (set_open ad1 ods, w2) })"

definition dev_io_send_captured_samples :: "('h, 'p, 's) thread_env \<Rightarrow> open_dev list \<times> 'h audio_world \<Rightarrow>
    (int \<times> open_dev list \<times> 'h audio_world) option" where
  "dev_io_send_captured_samples env st =
     do {
       (rc, dropping, ods, w) \<leftarrow> send_captured env (map od_dev (fst st)) False st;
       if rc < 0 then Some (rc, ods, w)
       else if dropping then map_option (\<lambda>w2. (0, ods, w2)) (dev_io_drop_samples env ods w) else Some (0, ods, w) }"

section \<open>One run of the audio thread\<close>

definition longest_wake_of :: "timespec \<Rightarrow> open_dev \<Rightarrow> open_dev" where
  "longest_wake_of now ad =
     (let iv = subtract_timespecs now (od_last_wake ad);
          ad1 = (if tv_sec (od_last_wake ad) \<noteq> 0 \<and> timespec_after iv (od_longest_wake ad) then ad\<lparr>od_longest_wake := iv\<rparr> else ad)
      in ad1\<lparr>od_last_wake := now\<rparr>)"

definition update_longest_wake :: "'h audio_world \<Rightarrow> timespec \<Rightarrow> open_dev list \<Rightarrow> open_dev list" where
  "update_longest_wake w now ods = map (\<lambda>ad. if io_streams (aw_dev w (od_dev ad)) = [] then ad else longest_wake_of now ad) ods"

definition dev_io_run :: "('h, 'p, 's) thread_env \<Rightarrow> bool \<Rightarrow> open_dev list \<times> open_dev list \<times> 'h audio_world \<Rightarrow>
    (open_dev list \<times> open_dev list \<times> 'h audio_world) option" where
  "dev_io_run env remix st =
     (let (odevs, idevs, w) = st; now = te_now env (fst (aw_io w));
          w0 = w\<lparr>aw_pic_now := te_now env (fst (aw_io w) + 1), aw_io := later 2 (aw_io w)\<rparr>;
          odevs0 = update_longest_wake w now odevs; idevs0 = update_longest_wake w now idevs
      in do {
        w1 \<leftarrow> dev_io_playback_fetch env odevs0 w0;
        (idevs2, w2) \<leftarrow> dev_io_capture env (idevs0, w1);
        (rc, idevs3, w3) \<leftarrow> dev_io_send_captured_samples env (idevs2, w2);
        (odevs4, w4) \<leftarrow> dev_io_playback_write env remix (odevs0, w3);
        Some (odevs4, idevs3, check_non_empty_state_transition odevs4 w4) })"

section \<open>The next wake up\<close>

definition input_adev_ignore_wake :: "'h audio_world \<Rightarrow> open_dev \<Rightarrow> bool" where
  "input_adev_ignore_wake w ad =
     (let dev = aw_dev w (od_dev ad) in
      if \<not> cras_iodev_is_open dev then True
      else case active_node dev of None \<Rightarrow> True
      | Some node \<Rightarrow> nd_type node = CRAS_NODE_TYPE_HOTWORD \<and> \<not> io_input_streaming dev)"

fun next_input_wake :: "'h audio_world \<Rightarrow> open_dev list \<Rightarrow> int \<times> timespec \<Rightarrow> int \<times> timespec" where
  "next_input_wake w [] st = st"
| "next_input_wake w (ad # ads) st =
     (if input_adev_ignore_wake w ad then next_input_wake w ads st
      else next_input_wake w ads (fst st + 1, if timespec_after (snd st) (od_wake_ts ad) then od_wake_ts ad else snd st))"

definition dev_io_next_input_wake :: "'h audio_world \<Rightarrow> open_dev list \<Rightarrow> timespec \<Rightarrow> int \<times> timespec" where
  "dev_io_next_input_wake w idevs min_ts = next_input_wake w idevs (0, min_ts)"

fun get_next_stream_wake_from_list :: "'d cras_rstream list \<Rightarrow> int \<times> timespec \<Rightarrow> int \<times> timespec" where
  "get_next_stream_wake_from_list [] st = st"
| "get_next_stream_wake_from_list (s # ss) st =
     (if is_draining s \<noteq> 0 \<or> cras_rstream_is_pending_reply s then get_next_stream_wake_from_list ss st
      else case dev_stream_next_cb_ts s of None \<Rightarrow> get_next_stream_wake_from_list ss st
      | Some t \<Rightarrow> get_next_stream_wake_from_list ss (fst st + 1, if timespec_after (snd st) t then t else snd st))"

fun next_dev_wake :: "('h, 'p, 's) thread_env \<Rightarrow> 'h audio_world \<Rightarrow> open_dev list \<Rightarrow> int \<times> timespec \<Rightarrow> int \<times> timespec" where
  "next_dev_wake env w [] st = st"
| "next_dev_wake env w (ad # ads) st =
     (if \<not> cras_iodev_odev_should_wake (te_ops env (od_dev ad)) (get_dev (od_dev ad) w) then next_dev_wake env w ads st
      else next_dev_wake env w ads (fst st + 1, if timespec_after (snd st) (od_wake_ts ad) then od_wake_ts ad else snd st))"

definition dev_io_next_output_wake :: "('h, 'p, 's) thread_env \<Rightarrow> 'h audio_world \<Rightarrow> open_dev list \<Rightarrow> timespec \<Rightarrow> int \<times> timespec" where
  "dev_io_next_output_wake env w odevs min_ts =
     next_dev_wake env w odevs
       (fold (\<lambda>ad. get_next_stream_wake_from_list (map ds_stream (io_streams (get_dev (od_dev ad) w)))) odevs (0, min_ts))"

end
