(* ===== verification/Output_Device.thy ===== *)
theory Output_Device
  imports Empty_Iodev
begin

text \<open>
  The states of a device over time.  \<^verbatim>\<open>cras_iodev.c\<close> draws them as a diagram: closed, open, normal run, no stream.
  The steps here are all operations that the audio thread and the device list use on a device.  Every step
  follows an edge of the diagram, and an output device runs normally only while it has streams.
\<close>

section \<open>What the data path leaves alone\<close>

definition dev_core :: "('d, 'h) cras_iodev \<Rightarrow> iodev_state \<times> u32 \<times> 'd dev_stream list \<times> 'd buffer_share option \<times> u32 \<times> u32 \<times>
    u64 \<times> cras_audio_format option \<times> u32" where
  "dev_core dev = (io_state dev, io_direction dev, io_streams dev, io_buf_state dev, io_min_cb_level dev, io_max_cb_level dev,
     io_buffer_size dev, io_format dev, io_idx dev)"

lemma dev_coreD:
  assumes "dev_core d = dev_core dev"
  shows "io_state d = io_state dev" "io_direction d = io_direction dev" "io_streams d = io_streams dev"
    "io_buf_state d = io_buf_state dev" "io_min_cb_level d = io_min_cb_level dev" "io_max_cb_level d = io_max_cb_level dev"
    "io_buffer_size d = io_buffer_size dev" "io_format d = io_format dev" "io_idx d = io_idx dev"
  using assms by (simp_all add: dev_core_def)

lemma driver_only_idx: "driver_only dev d \<Longrightarrow> io_idx d = io_idx dev"
proof -
  assume "driver_only dev d"
  then have e: "d = dev\<lparr>io_priv := io_priv d, io_area := io_area d\<rparr>" by (simp only: driver_only_def)
  show "io_idx d = io_idx dev" by (subst e) simp
qed

lemma driver_only_core: "driver_only dev d \<Longrightarrow> dev_core d = dev_core dev"
  by (simp add: dev_core_def driver_onlyD driver_only_idx)

lemma log_event_core [simp]: "dev_core (log_event e dev) = dev_core dev"
  by (simp add: dev_core_def log_event_def)

lemma fold_log_core: "dev_core (fold (\<lambda>x. log_event (f x)) xs dev) = dev_core dev"
  by (induction xs arbitrary: dev) simp_all

lemma dev_core_updates [simp]:
  "dev_core (dev\<lparr>io_trace := t\<rparr>) = dev_core dev" "dev_core (dev\<lparr>io_ramp := r\<rparr>) = dev_core dev"
  "dev_core (dev\<lparr>io_input_data := i\<rparr>) = dev_core dev" "dev_core (dev\<lparr>io_num_underruns := n\<rparr>) = dev_core dev"
  "dev_core (dev\<lparr>io_input_streaming := b\<rparr>) = dev_core dev" "dev_core (dev\<lparr>io_initial_ramp_request := q\<rparr>) = dev_core dev"
  by (simp_all add: dev_core_def)

lemma log_loopbacks_core [simp]: "dev_core (log_loopbacks t n dev) = dev_core dev"
  by (simp add: log_loopbacks_def fold_log_core)

lemma apply_dsp_core: "apply_dsp env offs n dev = Some (rc, d) \<Longrightarrow> dev_core d = dev_core dev"
  by (auto simp: apply_dsp_def Let_def split: option.splits if_splits prod.splits)

lemma play_ramp_core [simp]: "dev_core (play_ramp n sc ramp dev) = dev_core dev"
  by (simp add: play_ramp_def Let_def split: prod.split option.split)

lemma scale_output_core [simp]: "dev_core (scale_output env sys n dev) = dev_core dev"
  by (simp add: scale_output_def Let_def split: option.split)

context iodev_driver
begin

lemma put_output_buffer_core:
  assumes "cras_iodev_put_output_buffer env sys ops bs n chk rmx dev = Some (rc, ne, d)"
  shows "dev_core d = dev_core dev"
proof -
  obtain rc1 d1 where d1: "apply_dsp env 0 n (log_loopbacks LOOPBACK_POST_MIX_PRE_DSP n dev) = Some (rc1, d1)"
    using assms by (auto simp: cras_iodev_put_output_buffer_def Let_def bind_eq_Some_conv)
  have c1: "dev_core d1 = dev_core dev" using apply_dsp_core [OF d1] by simp
  show ?thesis
    using assms c1 d1
    by (auto simp: cras_iodev_put_output_buffer_def Let_def bind_eq_Some_conv split: if_splits prod.splits
        dest!: put_buffer_driver driver_only_core)
qed

lemma get_output_buffer_core: "cras_iodev_get_output_buffer ops n dev = (rc, k, a, d) \<Longrightarrow> dev_core d = dev_core dev"
  by (auto simp: cras_iodev_get_output_buffer_def Let_def split: prod.splits dest!: get_buffer_driver driver_only_core)

lemma frames_queued_core: "cras_iodev_frames_queued ops dev = (rc, t, d) \<Longrightarrow> dev_core d = dev_core dev"
  by (auto simp: cras_iodev_frames_queued_def Let_def split: prod.splits if_splits dest!: frames_queued_driver driver_only_core)

end

lemma fill_zeros_loop_core:
  fixes sys :: "('p, 's) system_state" and ops :: "('d, 'h) iodev_ops"
  assumes "fill_zeros_loop env sys ops dev n = Some y" and "iodev_driver ops"
  shows "dev_core (snd y) = dev_core dev"
proof -
  have "iodev_driver ops \<longrightarrow> dev_core (snd y) = dev_core dev"
  proof (rule fill_zeros_loop.raw_induct [where P = "\<lambda>env sys ops dev n y. iodev_driver ops \<longrightarrow> dev_core (snd y) = dev_core dev", OF _ assms(1)],
      rule impI)
    fix fl env and sys :: "('p, 's) system_state" and ops :: "('d, 'h) iodev_ops" and dev frames and y :: "int \<times> ('d, 'h) cras_iodev"
    assume ih: "\<And>env sys ops dev n y. fl env sys ops dev n = Some y \<Longrightarrow> iodev_driver ops \<longrightarrow> dev_core (snd y) = dev_core dev"
      and body: "(if frames = 0 then Some (0, dev)
        else let (rc, n, a, d1) = cras_iodev_get_output_buffer ops frames dev in
          if rc < 0 then Some (rc, d1) else if a = None then None
          else cras_iodev_put_output_buffer env sys ops [] n False False (log_event (Zeroed n) d1) \<bind>
            (\<lambda>(rc2, ne, d2). fl env sys ops d2 (frames - n))) = Some y"
      and drv: "iodev_driver ops"
    obtain rc n a d1 where g: "cras_iodev_get_output_buffer ops frames dev = (rc, n, a, d1)" by (metis prod_cases4)
    have c1: "dev_core d1 = dev_core dev" by (rule iodev_driver.get_output_buffer_core [OF drv g])
    consider "snd y = dev" | "snd y = d1" | rc2 ne d2 where "cras_iodev_put_output_buffer env sys ops [] n False False (log_event (Zeroed n) d1) = Some (rc2, ne, d2)"
        "fl env sys ops d2 (frames - n) = Some y"
      using body g by (auto simp: bind_eq_Some_conv split: if_splits)
    then show "dev_core (snd y) = dev_core dev"
    proof cases
      case 3
      then have "dev_core (snd y) = dev_core d2" using ih drv by blast
      also have "\<dots> = dev_core d1" using iodev_driver.put_output_buffer_core [OF drv 3(1)] by simp
      finally show ?thesis using c1 by simp
    qed (use c1 in simp_all)
  qed
  then show ?thesis using assms(2) by blast
qed

context iodev_driver
begin

lemma fill_odev_zeros_core: "cras_iodev_fill_odev_zeros env sys ops n dev = Some (rc, d) \<Longrightarrow> dev_core d = dev_core dev"
  by (auto simp: cras_iodev_fill_odev_zeros_def split: if_splits dest: fill_zeros_loop_core [OF _ iodev_driver_axioms])

lemma output_underrun_core:
  assumes und: "\<forall>f dev rc d. op_output_underrun ops = Some f \<longrightarrow> f dev = Some (rc, d) \<longrightarrow> dev_core d = dev_core dev"
    and r: "cras_iodev_output_underrun env sys ops dev = Some (rc, d)"
  shows "dev_core d = dev_core dev"
proof -
  let ?d = "log_event Underrun (dev\<lparr>io_num_underruns := io_num_underruns dev + 1\<rparr>)"
  have "dev_core d = dev_core ?d"
    using und r by (cases "op_output_underrun ops") (auto simp: cras_iodev_output_underrun_def Let_def dest!: fill_odev_zeros_core)
  then show ?thesis by simp
qed

lemma no_stream_level_core:
  assumes und: "\<forall>f dev rc d. op_output_underrun ops = Some f \<longrightarrow> f dev = Some (rc, d) \<longrightarrow> dev_core d = dev_core dev"
    and r: "no_stream_level env sys ops rc dev = Some (rc2, lv, d)"
  shows "dev_core d = dev_core dev"
  using r
  by (auto simp: no_stream_level_def bind_eq_Some_conv Let_def split: if_splits prod.splits
      dest!: output_underrun_core [OF und] frames_queued_core)

lemma default_no_stream_core:
  assumes und: "\<forall>f dev rc d. op_output_underrun ops = Some f \<longrightarrow> f dev = Some (rc, d) \<longrightarrow> dev_core d = dev_core dev"
    and r: "default_no_stream_playback env sys ops dev = Some (rc, d)"
  shows "dev_core d = dev_core dev"
proof -
  obtain rc0 ts0 d1 where q: "cras_iodev_frames_queued ops dev = (rc0, ts0, d1)" by (metis prod_cases3)
  note c1 = frames_queued_core [OF q]
  show ?thesis
    using r q c1
    by (auto simp: default_no_stream_playback_def Let_def bind_eq_Some_conv split: if_splits
        dest!: no_stream_level_core [OF und] fill_odev_zeros_core)
qed

end

section \<open>Steps of a device\<close>

text \<open>The contract of a driver for the operations that the server calls when it opens, starts and closes a device: they
  leave the state and the streams to the server.\<close>

definition dev_run :: "('d, 'h) cras_iodev \<Rightarrow> iodev_state \<times> u32 \<times> 'd dev_stream list \<times> 'd buffer_share option \<times> u32" where
  "dev_run dev = (io_state dev, io_direction dev, io_streams dev, io_buf_state dev, io_idx dev)"

locale server_driver = iodev_driver +
  assumes start_driver: "op_start ops = Some f \<Longrightarrow> f dev = (rc, d) \<Longrightarrow> dev_core d = dev_core dev"
    and no_stream_driver: "op_no_stream ops e dev = Some (rc, d) \<Longrightarrow> dev_core d = dev_core dev"
    and underrun_driver: "op_output_underrun ops = Some g \<Longrightarrow> g dev = Some (rc, d) \<Longrightarrow> dev_core d = dev_core dev"
    and open_driver_run: "op_open_dev ops = Some f \<Longrightarrow> f dev = (rc, d) \<Longrightarrow> dev_run d = dev_run dev"
    and formats_driver: "op_update_supported_formats ops = Some f \<Longrightarrow> f dev = (rc, d) \<Longrightarrow> dev_run d = dev_run dev"
    and layout_driver: "op_update_channel_layout ops = Some f \<Longrightarrow> f dev = (rc, d) \<Longrightarrow> dev_run d = dev_run dev"
    and configure_driver: "op_configure_dev ops dev = (rc, d) \<Longrightarrow> dev_run d = dev_run dev"
    and close_driver: "op_close_dev ops dev = (rc, d) \<Longrightarrow> dev_run d = dev_run dev"
    and close_levels: "op_close_dev ops dev = (rc, d) \<Longrightarrow> io_min_cb_level d = io_min_cb_level dev \<and> io_max_cb_level d = io_max_cb_level dev"

text \<open>A device is opened when it is closed and has no streams; a stream is added once, before it runs.\<close>

inductive dev_step :: "iodev_env \<Rightarrow> ('p, 's) system_state \<Rightarrow> ('d, 'h) iodev_ops \<Rightarrow> ('d, 'h) cras_iodev \<Rightarrow> ('d, 'h) cras_iodev \<Rightarrow> bool"
  for env sys ops where
  Open: "io_state dev = CRAS_IODEV_STATE_CLOSE \<Longrightarrow> io_streams dev = [] \<Longrightarrow>
    cras_iodev_open env sys ops now cb fmt dev = Some (rc, d) \<Longrightarrow> dev_step env sys ops dev d"
| Close: "cras_iodev_close ops dev = (rc, d) \<Longrightarrow> dev_step env sys ops dev d"
| Prepare: "cras_iodev_prepare_output_before_write_samples env sys ops dev = Some (rc, d) \<Longrightarrow> dev_step env sys ops dev d"
| Underrun: "cras_iodev_output_underrun env sys ops dev = Some (rc, d) \<Longrightarrow> dev_step env sys ops dev d"
| Queued: "cras_iodev_frames_queued ops dev = (rc, t, d) \<Longrightarrow> dev_step env sys ops dev d"
| Add: "stream_id (ds_stream ds) \<notin> stream_id ` ds_stream ` set (io_streams dev) \<Longrightarrow> \<not> ds_is_running ds \<Longrightarrow>
    (ucast (io_buffer_size dev) :: u32) \<noteq> - 1 \<Longrightarrow> cras_iodev_add_stream env junk ds dev = Some d \<Longrightarrow> dev_step env sys ops dev d"
| Run: "ds \<in> set (io_streams dev) \<Longrightarrow> cras_iodev_start_stream env junk ds dev = Some d \<Longrightarrow> dev_step env sys ops dev d"
| Remove: "cras_iodev_rm_stream env ops sid dev = Some (out, d) \<Longrightarrow> dev_step env sys ops dev d"
| Written: "cras_iodev_stream_written sid n dev = Some d \<Longrightarrow> dev_step env sys ops dev d"
| Commit: "cras_iodev_all_streams_written dev = (n, d) \<Longrightarrow> dev_step env sys ops dev d"

section \<open>The diagram\<close>

definition state_edge :: "u32 \<Rightarrow> bool \<Rightarrow> iodev_state \<Rightarrow> iodev_state \<Rightarrow> bool" where
  \<comment> \<open>the direction, and whether the driver has a \<^verbatim>\<open>start\<close> operation\<close>
  "state_edge dir has_start a b \<longleftrightarrow> a = b \<or> b = CRAS_IODEV_STATE_CLOSE \<or>
     (if dir = CRAS_STREAM_OUTPUT
      then (a, b) \<in> {(CRAS_IODEV_STATE_CLOSE, if has_start then CRAS_IODEV_STATE_OPEN else CRAS_IODEV_STATE_NO_STREAM_RUN),
        (CRAS_IODEV_STATE_OPEN, CRAS_IODEV_STATE_NORMAL_RUN), (CRAS_IODEV_STATE_NO_STREAM_RUN, CRAS_IODEV_STATE_NORMAL_RUN),
        (CRAS_IODEV_STATE_NORMAL_RUN, CRAS_IODEV_STATE_NO_STREAM_RUN)}
      else (a, b) = (CRAS_IODEV_STATE_CLOSE, CRAS_IODEV_STATE_NORMAL_RUN))"

definition run_state :: "u32 \<Rightarrow> bool \<Rightarrow> iodev_state" where
  \<comment> \<open>the state of a device that was just opened\<close>
  "run_state dir has_start =
     (if dir = CRAS_STREAM_OUTPUT then if has_start then CRAS_IODEV_STATE_OPEN else CRAS_IODEV_STATE_NO_STREAM_RUN
      else CRAS_IODEV_STATE_NORMAL_RUN)"

lemma state_edge_input:
  "state_edge dir s a b \<Longrightarrow> dir \<noteq> CRAS_STREAM_OUTPUT \<Longrightarrow> a \<in> {CRAS_IODEV_STATE_CLOSE, CRAS_IODEV_STATE_NORMAL_RUN} \<Longrightarrow>
    b \<in> {CRAS_IODEV_STATE_CLOSE, CRAS_IODEV_STATE_NORMAL_RUN}"
  by (auto simp: state_edge_def)

lemma state_edge_no_start: "state_edge dir False a b \<Longrightarrow> a \<noteq> CRAS_IODEV_STATE_OPEN \<Longrightarrow> b \<noteq> CRAS_IODEV_STATE_OPEN"
  by (auto simp: state_edge_def split: if_splits)

lemma dev_runD:
  assumes "dev_run d = dev_run dev"
  shows "io_state d = io_state dev" "io_direction d = io_direction dev" "io_streams d = io_streams dev" "io_buf_state d = io_buf_state dev"
    "io_idx d = io_idx dev"
  using assms by (simp_all add: dev_run_def)

lemma dev_run_updates [simp]:
  "dev_run (log_event e dev) = dev_run dev" "dev_run (dev\<lparr>io_format := f\<rparr>) = dev_run dev"
  "dev_run (dev\<lparr>io_dsp_context := c\<rparr>) = dev_run dev" "dev_run (dev\<lparr>io_rate_est := b\<rparr>) = dev_run dev"
  "dev_run (dev\<lparr>io_input_data := i\<rparr>) = dev_run dev" "dev_run (dev\<lparr>io_open_ts := t\<rparr>) = dev_run dev"
  by (simp_all add: dev_run_def log_event_def)

lemma log_loopback_control_run [simp]: "dev_run (log_loopback_control b dev) = dev_run dev"
proof -
  have "dev_run (fold (\<lambda>lb. log_event (Loopback_control (lb_data lb) b)) xs dev) = dev_run dev" for xs
    by (induction xs arbitrary: dev) simp_all
  then show ?thesis by (simp add: log_loopback_control_def)
qed

lemma with_dsp_pipeline_run [simp]: "dev_run (with_dsp_pipeline env fmt dev) = dev_run dev"
  by (simp add: with_dsp_pipeline_def cras_iodev_alloc_dsp_def Let_def)

lemma configure_ext_run: "configure_ext_module fmt dev = Some d \<Longrightarrow> dev_run d = dev_run dev"
  by (auto simp: configure_ext_module_def split: if_splits)

lemma add_ext_dsp_run: "add_ext_dsp_module_to_pipeline env dev = Some d \<Longrightarrow> dev_run d = dev_run dev"
  by (auto simp: add_ext_dsp_module_to_pipeline_def bind_eq_Some_conv split: if_splits dest!: configure_ext_run)

context server_driver
begin

lemma update_channel_layout_run [simp]: "dev_run (update_channel_layout ops dev) = dev_run dev"
  by (auto simp: update_channel_layout_def Let_def split: option.split prod.split dest!: layout_driver)

lemma choose_format_run: "choose_format env ops fmt f1 dev = Some (rc, d) \<Longrightarrow> dev_run d = dev_run dev"
  by (auto simp: choose_format_def set_format_rate_est_def cras_iodev_update_dsp_def cras_iodev_alloc_dsp_def
      cras_iodev_free_dsp_def Let_def split: if_splits option.splits)

lemma set_format_run: "cras_iodev_set_format env ops fmt dev = Some (rc, d) \<Longrightarrow> dev_run d = dev_run dev"
  by (auto simp: cras_iodev_set_format_def Let_def split: if_splits option.splits prod.splits
      dest!: formats_driver choose_format_run)

lemma close_run [simp]: "dev_run (snd (op_close_dev ops dev)) = dev_run dev"
  using close_driver [of dev "fst (op_close_dev ops dev)"] by simp

lemma open_driver_keeps: "open_driver env ops fmt dev = Some (rc, d) \<Longrightarrow> dev_run d = dev_run dev"
proof -
  let ?d0 = "log_loopback_control True (if io_has_pre_open_hook dev then log_event Pre_open_hook dev else dev)"
  assume o: "open_driver env ops fmt dev = Some (rc, d)"
  obtain rc1 d1 where d1: "(case op_open_dev ops of None \<Rightarrow> (0, ?d0) | Some f \<Rightarrow> f ?d0) = (rc1, d1)" by (metis prod.exhaust)
  have r1: "dev_run d1 = dev_run dev"
    using d1 by (cases "op_open_dev ops") (auto dest: open_driver_run)
  show ?thesis
    using o r1 unfolding open_driver_def Let_def d1
    by (auto simp: bind_eq_Some_conv Let_def split: if_splits prod.splits
        dest!: set_format_run configure_driver)
qed

lemma enter_run_state_mode:
  assumes e: "enter_run_state env sys ops dev = Some d" and o: "io_state dev = CRAS_IODEV_STATE_OPEN"
  shows "dev_run d = (run_state (io_direction dev) (op_start ops \<noteq> None), io_direction dev, io_streams dev, io_buf_state dev, io_idx dev)"
proof (cases "io_direction dev = CRAS_STREAM_OUTPUT \<and> op_start ops = None")
  case True
  then obtain rc where "cras_iodev_fill_odev_zeros env sys ops (io_min_cb_level dev) (dev\<lparr>io_state := CRAS_IODEV_STATE_NO_STREAM_RUN\<rparr>) = Some (rc, d)"
    using e by (auto simp: enter_run_state_def)
  from dev_coreD [OF fill_odev_zeros_core [OF this]] show ?thesis using True by (simp add: dev_run_def run_state_def)
next
  case False
  then show ?thesis using e o by (auto simp: enter_run_state_def dev_run_def run_state_def split: if_splits)
qed

lemma cras_iodev_open_mode:
  assumes "cras_iodev_open env sys ops now cb fmt dev = Some (rc, d)"
  shows "dev_run d = (if rc \<noteq> 0 then io_state dev else run_state (io_direction dev) (op_start ops \<noteq> None),
    io_direction dev, io_streams dev, io_buf_state dev, io_idx dev)"
proof -
  obtain rc1 d3 where d3: "open_driver env ops fmt dev = Some (rc1, d3)" using assms by (auto simp: cras_iodev_open_def bind_eq_Some_conv)
  note r3 = dev_runD [OF open_driver_keeps [OF d3]]
  show ?thesis
  proof (cases "rc1 = 0")
    case True
    obtain cb5 d5 d6 where d5: "enter_run_state env sys ops (reset_for_open cb5 d3) = Some d5"
      and d6: "add_ext_dsp_module_to_pipeline env d5 = Some d6" and d: "d = d6\<lparr>io_open_ts := now\<rparr>" "rc = 0"
      using assms d3 True by (auto simp: cras_iodev_open_def bind_eq_Some_conv Let_def)
    have "dev_run d5 = (run_state (io_direction dev) (op_start ops \<noteq> None), io_direction dev, io_streams dev, io_buf_state dev, io_idx dev)"
      using enter_run_state_mode [OF d5] r3 by (simp add: reset_for_open_def)
    then show ?thesis using add_ext_dsp_run [OF d6] d by simp
  next
    case False
    then show ?thesis using assms d3 r3 by (auto simp: cras_iodev_open_def dev_run_def)
  qed
qed

lemma cras_iodev_close_mode:
  assumes "cras_iodev_close ops dev = (rc, d)"
  shows "io_direction d = io_direction dev \<and> io_streams d = io_streams dev \<and> io_buf_state d = io_buf_state dev \<and> io_idx d = io_idx dev \<and>
    (io_state d = io_state dev \<or> io_state d = CRAS_IODEV_STATE_CLOSE)"
proof -
  let ?d1 = "if io_input_data dev \<noteq> None then dev\<lparr>io_ext_dsp_module :=
      (if io_ext_dsp_module dev = Some Ext_input_data then None else io_ext_dsp_module dev), io_input_data := None\<rparr> else dev"
  obtain rc1 d2 where c: "op_close_dev ops ?d1 = (rc1, d2)" by (metis prod.exhaust)
  have r2: "dev_run d2 = dev_run dev" using close_driver [OF c] by (simp add: dev_run_def split: if_splits)
  let ?d3 = "d2\<lparr>io_state := CRAS_IODEV_STATE_CLOSE, io_ramp := map_option cras_ramp_reset (io_ramp d2)\<rparr>"
  have r3: "dev_run ?d3 = (CRAS_IODEV_STATE_CLOSE, io_direction d2, io_streams d2, io_buf_state d2, io_idx d2)" by (simp add: dev_run_def)
  have "d = dev \<or> d = d2 \<or> dev_run d = dev_run ?d3"
    using assms unfolding cras_iodev_close_def Let_def c by (auto split: if_splits)
  then show ?thesis using r2 r3 by (auto simp: dev_run_def)
qed

lemma cras_iodev_start_mode:
  assumes "cras_iodev_start ops dev = (rc, d)"
  shows "io_direction d = io_direction dev \<and> io_streams d = io_streams dev \<and>
    (io_state d = io_state dev \<or> op_start ops \<noteq> None \<and> io_state d = CRAS_IODEV_STATE_NORMAL_RUN)"
  using assms by (auto simp: cras_iodev_start_def Let_def dev_core_def split: if_splits option.splits prod.splits dest!: start_driver)

lemma transition_mode:
  assumes "cras_iodev_no_stream_playback_transition ops enable dev = Some (rc, d)"
  shows "io_direction d = io_direction dev \<and> io_streams d = io_streams dev \<and>
    (io_state d = io_state dev \<or> io_direction dev = CRAS_STREAM_OUTPUT \<and>
       io_state dev \<in> {CRAS_IODEV_STATE_NORMAL_RUN, CRAS_IODEV_STATE_NO_STREAM_RUN} \<and>
       io_state d = (if enable then CRAS_IODEV_STATE_NO_STREAM_RUN else CRAS_IODEV_STATE_NORMAL_RUN))"
proof (cases "io_direction dev = CRAS_STREAM_OUTPUT \<and> io_state dev \<in> {CRAS_IODEV_STATE_NORMAL_RUN, CRAS_IODEV_STATE_NO_STREAM_RUN}")
  case True
  then obtain rc1 d1 where n: "op_no_stream ops enable dev = Some (rc1, d1)"
    and "d = d1 \<or> d = d1\<lparr>io_state := if enable then CRAS_IODEV_STATE_NO_STREAM_RUN else CRAS_IODEV_STATE_NORMAL_RUN\<rparr>"
    using assms by (auto simp: cras_iodev_no_stream_playback_transition_def bind_eq_Some_conv split: if_splits)
  then show ?thesis using dev_coreD(1-3) [OF no_stream_driver [OF n]] True by auto
next
  case False
  then show ?thesis using assms by (auto simp: cras_iodev_no_stream_playback_transition_def split: if_splits)
qed

lemma start_ramp_mode: "cras_iodev_start_ramp env request dev = Some (rc, d) \<Longrightarrow> dev_core d = dev_core dev"
  by (auto simp: cras_iodev_start_ramp_def bind_eq_Some_conv Let_def case_prod_beta split: if_splits option.splits)

lemma sample_ready_mode:
  assumes r: "cras_iodev_output_event_sample_ready env sys ops dev = Some (rc, d)" and dir: "io_direction dev = CRAS_STREAM_OUTPUT"
  shows "io_direction d = io_direction dev \<and> io_streams d = io_streams dev \<and>
    state_edge (io_direction dev) (op_start ops \<noteq> None) (io_state dev) (io_state d)"
proof -
  obtain rc0 d1 where d1: "(if (io_state dev = CRAS_IODEV_STATE_OPEN \<or> io_state dev = CRAS_IODEV_STATE_NO_STREAM_RUN) \<and>
              io_ramp dev \<noteq> None \<and> \<not> output_should_mute sys dev
            then cras_iodev_start_ramp env (io_initial_ramp_request dev) dev else Some (0, dev)) = Some (rc0, d1)"
    and r1: "(if io_state d1 = CRAS_IODEV_STATE_OPEN then do {
         (rc, d2) \<leftarrow> cras_iodev_fill_odev_zeros env sys ops (io_min_cb_level d1) d1;
         Some (cras_iodev_start ops d2) }
       else if io_state d1 = CRAS_IODEV_STATE_NO_STREAM_RUN then cras_iodev_no_stream_playback_transition ops False d1
       else Some (- EINVAL, d1)) = Some (rc, d)"
    using r unfolding cras_iodev_output_event_sample_ready_def by (fastforce simp only: bind_eq_Some_conv split: prod.splits)
  have "dev_core d1 = dev_core dev" using d1 by (auto split: if_splits dest!: start_ramp_mode)
  note c = dev_coreD(1-3) [OF this]
  consider (opened) rc2 d2 where "io_state dev = CRAS_IODEV_STATE_OPEN"
      "cras_iodev_fill_odev_zeros env sys ops (io_min_cb_level d1) d1 = Some (rc2, d2)" "cras_iodev_start ops d2 = (rc, d)"
    | (idle) "io_state dev = CRAS_IODEV_STATE_NO_STREAM_RUN" "cras_iodev_no_stream_playback_transition ops False d1 = Some (rc, d)"
    | (other) "d = d1"
    using r1 c(1) by (auto simp: bind_eq_Some_conv split: if_splits)
  then show ?thesis
  proof cases
    case opened
    note c2 = dev_coreD(1-3) [OF fill_odev_zeros_core [OF opened(2)]]
    show ?thesis using cras_iodev_start_mode [OF opened(3)] c c2 dir opened(1) by (auto simp: state_edge_def)
  next
    case idle
    then show ?thesis using transition_mode [OF idle(2)] c dir by (auto simp: state_edge_def)
  qed (use c in \<open>auto simp: state_edge_def\<close>)
qed

end

lemma playback_loop_cases:
  assumes "playback_frames_loop rnd n (ds # ss) = (m, ss')"
  obtains (idle) ss1 where "\<not> ds_is_running ds" "playback_frames_loop rnd n ss = (m, ss1)" "ss' = ds # ss1"
    | (empty) ds1 where "ds_is_running ds" "m = 0" "ss' = ds1 # ss" "ds1 = ds \<or> ds1 = dev_stream_update_frames ds"
    | (more) ds1 n1 ss1 where "ds_is_running ds" "playback_frames_loop rnd n1 ss = (m, ss1)" "ss' = ds1 # ss1"
        "ds1 = ds \<or> ds1 = dev_stream_update_frames ds"
  using assms by (cases "playback_frames_loop rnd n ss") (auto simp: Let_def split: if_splits prod.splits)

lemma playback_frames_loop_some:
  assumes "playback_frames_loop rnd n ss = (m, ss')"
  shows "(m \<noteq> n \<longrightarrow> (\<exists>ds \<in> set ss'. ds_is_running ds)) \<and>
    map (stream_id \<circ> ds_stream) ss' = map (stream_id \<circ> ds_stream) ss \<and> map ds_is_running ss' = map ds_is_running ss"
  using assms
proof (induction ss arbitrary: n ss')
  case (Cons ds ss)
  have k: "stream_id (ds_stream (dev_stream_update_frames ds)) = stream_id (ds_stream ds)"
      "ds_is_running (dev_stream_update_frames ds) = ds_is_running ds"
    by (simp_all add: dev_stream_update_frames_def Let_def cras_rstream_update_queued_frames_def)
  from Cons.prems show ?case
  proof (cases rule: playback_loop_cases)
    case (idle ss1)
    then show ?thesis using Cons.IH [OF idle(2)] by auto
  next
    case (empty ds1)
    then show ?thesis using k by auto
  next
    case (more ds1 n1 ss1)
    then show ?thesis using Cons.IH [OF more(2)] k by auto
  qed
qed simp

lemma dev_playback_frames_mode:
  assumes "dev_playback_frames env dev = (n, d)"
  shows "io_direction d = io_direction dev \<and> io_state d = io_state dev \<and> (n \<noteq> 0 \<longrightarrow> (\<exists>ds \<in> set (io_streams d). ds_is_running ds))"
  using assms by (auto simp: dev_playback_frames_def Let_def split: prod.splits dest!: playback_frames_loop_some)

lemma start_stream_mode: "cras_iodev_start_stream env junk ds dev = Some d \<Longrightarrow> io_direction d = io_direction dev \<and> io_state d = io_state dev"
  by (auto simp: cras_iodev_start_stream_def Let_def bind_eq_Some_conv split: if_splits)

lemma add_stream_mode: "cras_iodev_add_stream env junk ds dev = Some d \<Longrightarrow> io_direction d = io_direction dev \<and> io_state d = io_state dev"
  by (auto simp: cras_iodev_add_stream_def Let_def split: if_splits dest!: start_stream_mode)

context server_driver
begin

lemma prepare_mode:
  assumes "cras_iodev_prepare_output_before_write_samples env sys ops dev = Some (rc, d)"
  shows "io_direction d = io_direction dev \<and> state_edge (io_direction dev) (op_start ops \<noteq> None) (io_state dev) (io_state d) \<and>
    (io_state d \<noteq> io_state dev \<longrightarrow> (\<exists>ds \<in> set (io_streams d). ds_is_running ds))"
proof -
  obtain n d1 where d1: "(if io_state dev = CRAS_IODEV_STATE_OPEN \<or> io_state dev = CRAS_IODEV_STATE_NO_STREAM_RUN
      then dev_playback_frames env dev else (0, dev)) = (n, d1)" by (metis prod.exhaust)
  have m1: "io_direction d1 = io_direction dev" "io_state d1 = io_state dev" "n \<noteq> 0 \<longrightarrow> (\<exists>ds \<in> set (io_streams d1). ds_is_running ds)"
    using d1 dev_playback_frames_mode [of env dev] by (auto split: if_splits)
  consider (same) "d = dev \<or> d = d1" | (idle) "op_no_stream ops True d1 = Some (rc, d)"
    | (ready) "n \<noteq> 0" "io_direction d1 = CRAS_STREAM_OUTPUT" "cras_iodev_output_event_sample_ready env sys ops d1 = Some (rc, d)"
    using assms m1 unfolding cras_iodev_prepare_output_before_write_samples_def Let_def d1 by (auto split: if_splits)
  then show ?thesis
  proof cases
    case ready
    then show ?thesis using sample_ready_mode [OF ready(3,2)] m1 by simp
  next
    case idle
    then show ?thesis using dev_coreD(1,2) [OF no_stream_driver [OF idle]] m1 by (simp add: state_edge_def)
  qed (use m1 in \<open>auto simp: state_edge_def\<close>)
qed

lemma rm_stream_mode:
  assumes "cras_iodev_rm_stream env ops sid dev = Some (out, d)"
  shows "io_direction d = io_direction dev \<and> (io_state d = io_state dev \<or> io_direction dev = CRAS_STREAM_OUTPUT \<and>
    io_state dev = CRAS_IODEV_STATE_NORMAL_RUN \<and> io_state d = CRAS_IODEV_STATE_NO_STREAM_RUN \<and> io_streams d = [])"
proof -
  let ?rest = "filter (\<lambda>ds. stream_id (ds_stream ds) \<noteq> sid) (io_streams dev)"
  obtain bs mn mx d1 d2 where d1: "d1 = dev\<lparr>io_streams := ?rest, io_buf_state := bs, io_min_cb_level := mn, io_max_cb_level := mx\<rparr>"
    and d2: "(if ?rest \<noteq> [] then Some d1
          else let d = d1\<lparr>io_buf_state := None, io_min_cb_level := ucast (io_buffer_size dev div 2)\<rparr> in
            if io_direction d = CRAS_STREAM_OUTPUT \<and> io_state d = CRAS_IODEV_STATE_NORMAL_RUN
            then map_option snd (cras_iodev_no_stream_playback_transition ops True d) else Some d) = Some d2"
    and d: "d = (case earliest_cb ?rest of None \<Rightarrow> d2
          | Some t \<Rightarrow> d2\<lparr>io_streams := map (\<lambda>ds. if ds_is_running ds then ds
              else ds\<lparr>ds_stream := (ds_stream ds)\<lparr>next_cb_ts := t\<rparr>\<rparr>) (io_streams d2)\<rparr>)"
    using assms unfolding cras_iodev_rm_stream_def Let_def case_prod_beta by (auto simp: bind_eq_Some_conv)
  have "io_direction d2 = io_direction dev \<and> (io_state d2 = io_state dev \<or> io_direction dev = CRAS_STREAM_OUTPUT \<and>
    io_state dev = CRAS_IODEV_STATE_NORMAL_RUN \<and> io_state d2 = CRAS_IODEV_STATE_NO_STREAM_RUN \<and> io_streams d2 = [])"
    using d2 d1 by (auto simp: Let_def split: if_splits dest!: transition_mode)
  then show ?thesis using d by (auto split: option.splits)
qed

lemma dev_step_mode:
  assumes "dev_step env sys ops dev d"
  shows "io_direction d = io_direction dev \<and> state_edge (io_direction dev) (op_start ops \<noteq> None) (io_state dev) (io_state d) \<and>
    (io_direction dev = CRAS_STREAM_OUTPUT \<and> io_state d = CRAS_IODEV_STATE_NORMAL_RUN \<and> io_state d \<noteq> io_state dev \<longrightarrow>
       (\<exists>ds \<in> set (io_streams d). ds_is_running ds))"
  using assms
proof cases
  case (Open now cb fmt rc)
  then show ?thesis using cras_iodev_open_mode [OF Open(3)] by (auto simp: dev_run_def run_state_def state_edge_def)
next
  case (Close rc)
  then show ?thesis using cras_iodev_close_mode [OF Close] by (auto simp: state_edge_def)
next
  case (Prepare rc)
  then show ?thesis using prepare_mode [OF Prepare] by blast
next
  case (Underrun rc)
  then show ?thesis using dev_coreD(1,2) [OF output_underrun_core [OF _ Underrun]] underrun_driver by (simp add: state_edge_def)
next
  case (Queued rc t)
  then show ?thesis using dev_coreD(1,2) [OF frames_queued_core [OF Queued]] by (simp add: state_edge_def)
next
  case (Add ds junk)
  then show ?thesis using add_stream_mode [OF Add(4)] by (simp add: state_edge_def)
next
  case (Run ds junk)
  then show ?thesis using start_stream_mode [OF Run(2)] by (simp add: state_edge_def)
next
  case (Remove sid out)
  then show ?thesis using rm_stream_mode [OF Remove] by (auto simp: state_edge_def)
next
  case (Written sid n)
  then show ?thesis by (auto simp: cras_iodev_stream_written_def state_edge_def)
next
  case (Commit n)
  then show ?thesis by (auto simp: cras_iodev_all_streams_written_def state_edge_def Let_def split: option.splits prod.splits)
qed

lemma reachable_mode:
  assumes "(dev_step env sys ops)\<^sup>*\<^sup>* dev0 dev" and "io_state dev0 = CRAS_IODEV_STATE_CLOSE"
  shows "io_direction dev = io_direction dev0 \<and>
    (io_direction dev0 \<noteq> CRAS_STREAM_OUTPUT \<longrightarrow> io_state dev \<in> {CRAS_IODEV_STATE_CLOSE, CRAS_IODEV_STATE_NORMAL_RUN}) \<and>
    (op_start ops = None \<longrightarrow> io_state dev \<noteq> CRAS_IODEV_STATE_OPEN)"
  using assms
proof (induction rule: rtranclp_induct)
  case (step dev d)
  note m = dev_step_mode [OF step(2)]
  show ?case
    using step m state_edge_input [of "io_direction dev" "op_start ops \<noteq> None" "io_state dev" "io_state d"]
      state_edge_no_start [of "io_direction dev" "io_state dev" "io_state d"] by auto
qed simp

end

text \<open>The silent device keeps the contract: it starts without a \<^verbatim>\<open>start\<close> operation and leaves underruns to the server.\<close>

interpretation empty_server: server_driver "empty_ops env sys" for env sys
proof
  fix e and dev d :: "'d empty_dev" and rc
  assume "op_no_stream (empty_ops env sys) e dev = Some (rc, d)"
  then show "dev_core d = dev_core dev"
    by (auto simp: cras_iodev_default_no_stream_playback_def split: if_splits dest!: empty_base.default_no_stream_core [rotated])
next
  fix dev d :: "'d empty_dev" and rc
  assume "op_configure_dev (empty_ops env sys) dev = (rc, d)"
  then show "dev_run d = dev_run dev"
    by (auto simp: configure_dev_def cras_iodev_init_audio_area_def priv_update_def read_clock_def dev_run_def Let_def split: option.splits)
next
  fix dev d :: "'d empty_dev" and rc
  assume "op_close_dev (empty_ops env sys) dev = (rc, d)"
  then show "dev_run d = dev_run dev" "io_min_cb_level d = io_min_cb_level dev \<and> io_max_cb_level d = io_max_cb_level dev"
    by (auto simp: close_dev_def cras_iodev_free_audio_area_def priv_update_def dev_run_def)
qed simp_all

section \<open>The streams of a device\<close>

text \<open>What the other operations of a device rely on: the streams are told apart by their numbers, the shared
  offsets exist while there are streams and have an entry for each running stream that wants data, and the
  thresholds of the running streams lie between the two levels of the device.\<close>

definition stream_key :: "rounding \<Rightarrow> 'd dev_stream \<Rightarrow> u32 \<times> bool \<times> bool \<times> u32" where
  "stream_key rnd ds = (stream_id (ds_stream ds), ds_is_running ds, flags (ds_stream ds) AND TRIGGER_ONLY = 0, dev_stream_cb_threshold rnd ds)"

definition dev_share :: "rounding \<Rightarrow> ('d, 'h) cras_iodev \<Rightarrow> (u32 \<times> bool \<times> bool \<times> u32) list \<times> 'd buffer_share option \<times> u32 \<times> u32" where
  "dev_share rnd dev = (map (stream_key rnd) (io_streams dev), io_buf_state dev, io_min_cb_level dev, io_max_cb_level dev)"

definition data_ids :: "(u32 \<times> bool \<times> bool \<times> u32) list \<Rightarrow> u32 set" where
  "data_ids ks = {i. \<exists>t. (i, True, True, t) \<in> set ks}"

definition share_inv :: "(u32 \<times> bool \<times> bool \<times> u32) list \<times> 'd buffer_share option \<times> u32 \<times> u32 \<Rightarrow> bool" where
  "share_inv = (\<lambda>(ks, buf, mn, mx). distinct (map fst ks) \<and>
     (case buf of None \<Rightarrow> ks = [] | Some b \<Rightarrow> ks \<noteq> [] \<and> bs_inv b \<and> bs_users b = data_ids ks) \<and>
     (\<forall>i w t. (i, True, w, t) \<in> set ks \<longrightarrow> mn \<le> t \<and> t \<le> mx))"

definition streams_inv :: "rounding \<Rightarrow> ('d, 'h) cras_iodev \<Rightarrow> bool" where
  "streams_inv rnd dev \<longleftrightarrow> distinct (map (stream_id \<circ> ds_stream) (io_streams dev)) \<and>
     (case io_buf_state dev of None \<Rightarrow> io_streams dev = []
      | Some b \<Rightarrow> io_streams dev \<noteq> [] \<and> bs_inv b \<and>
          bs_users b = (stream_id \<circ> ds_stream) ` {ds \<in> set (io_streams dev). ds_is_running ds \<and> flags (ds_stream ds) AND TRIGGER_ONLY = 0}) \<and>
     (\<forall>ds \<in> set (io_streams dev). ds_is_running ds \<longrightarrow>
        io_min_cb_level dev \<le> dev_stream_cb_threshold rnd ds \<and> dev_stream_cb_threshold rnd ds \<le> io_max_cb_level dev)"

lemma streams_inv_share: "streams_inv rnd dev \<longleftrightarrow> share_inv (dev_share rnd dev)"
proof -
  have "map fst (map (stream_key rnd) ss) = map (stream_id \<circ> ds_stream) ss" for ss :: "'a dev_stream list"
    by (simp add: stream_key_def)
  moreover have "data_ids (map (stream_key rnd) ss) =
      (stream_id \<circ> ds_stream) ` {ds \<in> set ss. ds_is_running ds \<and> flags (ds_stream ds) AND TRIGGER_ONLY = 0}" for ss :: "'a dev_stream list"
    by (auto simp: data_ids_def stream_key_def image_iff)
  moreover have "(\<forall>i w t. (i, True, w, t) \<in> set (map (stream_key rnd) ss) \<longrightarrow> mn \<le> t \<and> t \<le> mx) \<longleftrightarrow>
      (\<forall>ds \<in> set ss. ds_is_running ds \<longrightarrow> mn \<le> dev_stream_cb_threshold rnd ds \<and> dev_stream_cb_threshold rnd ds \<le> mx)"
    for ss :: "'a dev_stream list" and mn mx
    unfolding stream_key_def set_map image_iff Bex_def prod.inject by blast
  ultimately show ?thesis by (simp only: streams_inv_def share_inv_def dev_share_def prod.case) (simp split: option.split)
qed

lemma dev_core_share: "dev_core d = dev_core dev \<Longrightarrow> dev_share rnd d = dev_share rnd dev"
  by (simp add: dev_core_def dev_share_def)

lemma playback_loop_key:
  assumes "playback_frames_loop r n ss = (m, ss')"
  shows "map (stream_key rnd) ss' = map (stream_key rnd) ss"
  using assms
proof (induction ss arbitrary: n ss')
  case (Cons ds ss)
  have k: "stream_key rnd (dev_stream_update_frames ds) = stream_key rnd ds"
    by (simp add: stream_key_def dev_stream_update_frames_def cras_rstream_update_queued_frames_def dev_stream_cb_threshold_def Let_def)
  from Cons.prems show ?case
    by (cases rule: playback_loop_cases) (use k Cons.IH in auto)
qed simp

lemma dev_playback_frames_share: "dev_playback_frames env dev = (n, d) \<Longrightarrow> dev_share rnd d = dev_share rnd dev"
  by (auto simp: dev_playback_frames_def dev_share_def Let_def split: prod.splits dest!: playback_loop_key)

context server_driver
begin

lemma start_share: "cras_iodev_start ops dev = (rc, d) \<Longrightarrow> dev_share rnd d = dev_share rnd dev"
  by (auto simp: cras_iodev_start_def Let_def dev_core_def dev_share_def split: if_splits option.splits prod.splits dest!: start_driver)

lemma transition_share:
  assumes "cras_iodev_no_stream_playback_transition ops enable dev = Some (rc, d)"
  shows "dev_share rnd d = dev_share rnd dev"
proof -
  have "d = dev \<or> (\<exists>rc1 d1. op_no_stream ops enable dev = Some (rc1, d1) \<and> (d = d1 \<or> (\<exists>s. d = d1\<lparr>io_state := s\<rparr>)))"
    using assms by (auto simp: cras_iodev_no_stream_playback_transition_def bind_eq_Some_conv split: if_splits)
  then show ?thesis using dev_coreD(3-6) [OF no_stream_driver] by (auto simp: dev_share_def)
qed

lemmas core_shares = start_ramp_mode [THEN dev_core_share] fill_odev_zeros_core [THEN dev_core_share]
  no_stream_driver [THEN dev_core_share] frames_queued_core [THEN dev_core_share]

lemma sample_ready_share:
  assumes "cras_iodev_output_event_sample_ready env sys ops dev = Some (rc, d)"
  shows "dev_share rnd d = dev_share rnd dev"
  using assms
  by (auto simp: cras_iodev_output_event_sample_ready_def bind_eq_Some_conv dest!: start_share [where rnd = rnd] transition_share [where rnd = rnd]
      core_shares(1,2) [where rnd = rnd] split: if_splits)

lemma prepare_share:
  assumes "cras_iodev_prepare_output_before_write_samples env sys ops dev = Some (rc, d)"
  shows "dev_share rnd d = dev_share rnd dev"
  using assms
  by (auto simp: cras_iodev_prepare_output_before_write_samples_def Let_def split: if_splits prod.splits
      dest!: sample_ready_share [where rnd = rnd] dev_playback_frames_share [where rnd = rnd] core_shares(3) [where rnd = rnd])

lemma close_share:
  assumes "cras_iodev_close ops dev = (rc, d)"
  shows "dev_share rnd d = dev_share rnd dev"
proof -
  let ?d1 = "if io_input_data dev \<noteq> None then dev\<lparr>io_ext_dsp_module :=
      (if io_ext_dsp_module dev = Some Ext_input_data then None else io_ext_dsp_module dev), io_input_data := None\<rparr> else dev"
  obtain rc1 d2 where c: "op_close_dev ops ?d1 = (rc1, d2)" by (metis prod.exhaust)
  have "dev_share rnd d2 = dev_share rnd dev"
    using close_driver [OF c] close_levels [OF c] by (simp add: dev_run_def dev_share_def split: if_splits)
  moreover have "dev_share rnd (log_loopback_control b x) = dev_share rnd x" for b and x :: "('a, 'b) cras_iodev"
  proof -
    have "dev_core (log_loopback_control b x) = dev_core x" by (simp add: log_loopback_control_def fold_log_core)
    then show ?thesis by (rule dev_core_share)
  qed
  ultimately show ?thesis
    using assms unfolding cras_iodev_close_def Let_def c
    by (auto simp: dev_share_def log_event_def split: if_splits)
qed

end

lemma bs_users_dom: "bs_users b = dom (bs_lookup (wr_idx b))"
  by (auto simp: bs_users_def bs_offset_def)

lemma bs_users_create: "bs_users (buffer_share_create sz) = {}"
  by (auto simp: bs_users_dom dom_def bs_lookup_None buffer_share_create_def)

lemma bs_users_add:
  assumes "bs_inv b" and "buffer_share_add_id junk b i d = Some (rc, b')"
  shows "bs_users b' = insert i (bs_users b)"
  using add_id_lookup [OF assms] by (cases "bs_lookup (wr_idx b) i = None") (auto simp: bs_users_dom dom_def split: if_splits)

lemma bs_users_rm: "bs_inv b \<Longrightarrow> bs_users (snd (buffer_share_rm_id b i)) = bs_users b - {i}"
  by (auto simp: bs_users_dom rm_id_lookup dom_def split: if_splits)

lemma bs_users_update: "bs_inv b \<Longrightarrow> bs_users (snd (buffer_share_offset_update b i n)) = bs_users b"
  by (auto simp: bs_users_def bs_offset_update)

lemma bs_users_commit: "bs_users (snd (buffer_share_get_new_write_point b)) = bs_users b"
  by (auto simp: bs_users_def bs_offset_commit)

text \<open>The table as the operations on streams change it.\<close>

definition set_running :: "u32 \<Rightarrow> (u32 \<times> bool \<times> bool \<times> u32) list \<Rightarrow> (u32 \<times> bool \<times> bool \<times> u32) list" where
  "set_running i ks = map (\<lambda>(j, r, w, t). (j, r \<or> j = i, w, t)) ks"

lemma set_running_mem: "(j, R, w, t) \<in> set (set_running i ks) \<longleftrightarrow> (\<exists>r. (j, r, w, t) \<in> set ks \<and> R = (r \<or> j = i))"
  by (force simp: set_running_def)

lemma share_inv_append:
  assumes "share_inv (ks, buf, mn, mx)" and "i \<notin> fst ` set ks" and "sz \<noteq> - 1"
  shows "share_inv (ks @ [(i, False, w, t)], Some (case buf of None \<Rightarrow> buffer_share_create sz | Some b \<Rightarrow> b), mn, mx)"
proof -
  have "data_ids (ks @ [(i, False, w, t)]) = data_ids ks" by (auto simp: data_ids_def)
  then show ?thesis
    using assms by (cases buf) (auto simp: share_inv_def data_ids_def bs_inv_create bs_users_create)
qed

lemma share_inv_running:
  assumes inv: "share_inv (ks, Some b, mn, mx)" and k: "(i, r, w, t) \<in> set ks"
    and b': "if w then buffer_share_add_id junk b i None = Some (rc, b') else b' = b"
  shows "share_inv (set_running i ks, Some b', min mn t, max mx t)"
proof -
  have d: "distinct (map fst ks)" and bs: "bs_inv b" "bs_users b = data_ids ks" "ks \<noteq> []"
    and lv: "\<And>j w t. (j, True, w, t) \<in> set ks \<Longrightarrow> mn \<le> t \<and> t \<le> mx"
    using inv by (auto simp: share_inv_def)
  have only: "(i, r', w', t') \<in> set ks \<Longrightarrow> r' = r \<and> w' = w \<and> t' = t" for r' w' t'
    using eq_key_imp_eq_value [OF d k] by auto
  have "map fst (set_running i ks) = map fst ks" by (simp add: set_running_def case_prod_beta comp_def)
  moreover have "data_ids (set_running i ks) = data_ids ks \<union> (if w then {i} else {})"
  proof (rule set_eqI)
    fix j
    have "j \<in> data_ids (set_running i ks) \<longleftrightarrow> (\<exists>t r. (j, r, True, t) \<in> set ks \<and> (r \<or> j = i))"
      by (simp add: data_ids_def set_running_mem)
    also have "\<dots> \<longleftrightarrow> j \<in> data_ids ks \<union> (if w then {i} else {})"
    proof (cases "j = i")
      case True
      have "(\<exists>t r. (i, r, True, t) \<in> set ks) \<longleftrightarrow> w" using k only by metis
      moreover have "w" if "i \<in> data_ids ks"
      proof -
        from that obtain t' where "(i, True, True, t') \<in> set ks" by (auto simp: data_ids_def)
        from only [OF this] show w by simp
      qed
      ultimately show ?thesis using True by auto
    qed (auto simp: data_ids_def)
    finally show "j \<in> data_ids (set_running i ks) \<longleftrightarrow> j \<in> data_ids ks \<union> (if w then {i} else {})" .
  qed
  moreover have "bs_users b' = bs_users b \<union> (if w then {i} else {})" "bs_inv b'"
    using b' bs bs_users_add [OF bs(1)] bs_inv_add [OF bs(1)] by (auto split: if_splits)
  moreover have "(j, True, w', t') \<in> set (set_running i ks) \<Longrightarrow> min mn t \<le> t' \<and> t' \<le> max mx t" for j w' t'
    unfolding set_running_mem min_le_iff_disj le_max_iff_disj using lv [of j w' t'] only [of _ w' t'] by (metis order_refl)
  moreover have "set_running i ks \<noteq> []" using bs(3) by (simp add: set_running_def)
  ultimately show ?thesis using d bs by (simp add: share_inv_def)
qed

lemma share_inv_rest:
  assumes "share_inv (ks, Some b, mn, mx)" and "filter (\<lambda>k. fst k \<noteq> i) ks \<noteq> []"
    and "\<And>j w t. (j, True, w, t) \<in> set ks \<Longrightarrow> j \<noteq> i \<Longrightarrow> mn' \<le> t \<and> t \<le> mx'"
    and "b' = (if i \<in> fst ` set ks then snd (buffer_share_rm_id b i) else b)"
  shows "share_inv (filter (\<lambda>k. fst k \<noteq> i) ks, Some b', mn', mx')"
proof -
  have "data_ids (filter (\<lambda>k. fst k \<noteq> i) ks) = data_ids ks - {i}" by (auto simp: data_ids_def)
  moreover have "bs_inv b'" "bs_users b' = data_ids ks - {i}"
    using assms(1,4) by (auto simp: share_inv_def bs_inv_rm bs_users_rm data_ids_def image_iff split: if_splits)
  moreover have "distinct (map fst (filter (\<lambda>k. fst k \<noteq> i) ks))" using assms(1) by (auto simp: share_inv_def distinct_map_filter)
  ultimately show ?thesis using assms(2,3) by (auto simp: share_inv_def)
qed

lemma share_inv_table:
  "share_inv (ks, Some b, mn, mx) \<Longrightarrow> bs_inv b' \<Longrightarrow> bs_users b' = bs_users b \<Longrightarrow> share_inv (ks, Some b', mn, mx)"
  by (simp add: share_inv_def)

lemma cb_levels_bound:
  assumes "cb_levels rnd ss lv = (mn, mx)" and "ds \<in> set ss" and "ds_is_running ds"
  shows "mn \<le> dev_stream_cb_threshold rnd ds \<and> dev_stream_cb_threshold rnd ds \<le> mx"
proof -
  let ?f = "\<lambda>ds (mn, mx). let t = dev_stream_cb_threshold rnd ds in (min mn t, max mx t)"
  have mono: "fst (fold ?f xs p) \<le> fst p \<and> snd p \<le> snd (fold ?f xs p)" for xs and p :: "u32 \<times> u32"
  proof (induction xs arbitrary: p)
    case (Cons x xs)
    then show ?case using Cons [of "?f x p"] by (cases p) (auto simp: Let_def)
  qed simp
  have "x \<in> set xs \<Longrightarrow> fst (fold ?f xs p) \<le> dev_stream_cb_threshold rnd x \<and> dev_stream_cb_threshold rnd x \<le> snd (fold ?f xs p)"
    for x :: "'a dev_stream" and xs and p :: "u32 \<times> u32"
  proof (induction xs arbitrary: p)
    case (Cons y xs)
    then show ?case using mono [of xs "?f y p"] by (cases p) (auto simp: Let_def)
  qed simp
  from this [of ds "filter ds_is_running ss" lv] show ?thesis using assms by (auto simp: cb_levels_def)
qed

section \<open>Steps keep the streams in order\<close>

lemma start_stream_share:
  assumes inv: "share_inv (dev_share (env_rnd env) dev)" and s: "cras_iodev_start_stream env junk ds dev = Some d"
    and ds: "ds \<in> set (io_streams dev)"
  shows "share_inv (dev_share (env_rnd env) d)"
proof (cases "ds_is_running ds")
  case True
  then show ?thesis using inv s by (simp add: cras_iodev_start_stream_def Let_def)
next
  case False
  let ?i = "stream_id (ds_stream ds)" and ?t = "dev_stream_cb_threshold (env_rnd env) ds"
  let ?w = "flags (ds_stream ds) AND TRIGGER_ONLY = 0"
  obtain b where b: "io_buf_state dev = Some b"
    using inv ds by (auto simp: share_inv_def dev_share_def split: option.splits)
  have k: "(?i, False, ?w, ?t) \<in> set (map (stream_key (env_rnd env)) (io_streams dev))"
    using ds False by (force simp: stream_key_def)
  obtain rc b' where b': "if ?w then buffer_share_add_id junk b ?i None = Some (rc, b') else b' = b"
    and d: "dev_share (env_rnd env) d = (map (stream_key (env_rnd env)) (map (\<lambda>x. if stream_id (ds_stream x) = ?i then x\<lparr>ds_is_running := True\<rparr> else x)
      (io_streams dev)), Some b', min (io_min_cb_level dev) ?t, max (io_max_cb_level dev) ?t)"
    using s False b by (auto simp: cras_iodev_start_stream_def Let_def bind_eq_Some_conv dev_share_def split: if_splits)
  have "map (stream_key (env_rnd env)) (map (\<lambda>x. if stream_id (ds_stream x) = ?i then x\<lparr>ds_is_running := True\<rparr> else x) (io_streams dev)) =
      set_running ?i (map (stream_key (env_rnd env)) (io_streams dev))"
    by (simp add: set_running_def stream_key_def dev_stream_cb_threshold_def Let_def)
  then show ?thesis
    using share_inv_running [OF _ k b'] inv b d by (simp add: dev_share_def)
qed

lemma add_stream_share:
  assumes inv: "share_inv (dev_share (env_rnd env) dev)" and a: "cras_iodev_add_stream env junk ds dev = Some d"
    and new: "stream_id (ds_stream ds) \<notin> stream_id ` ds_stream ` set (io_streams dev)" and run: "\<not> ds_is_running ds"
    and sz: "(ucast (io_buffer_size dev) :: u32) \<noteq> - 1"
  shows "share_inv (dev_share (env_rnd env) d)"
proof -
  define d1 where "d1 = dev\<lparr>io_streams := io_streams dev @ [ds],
    io_buf_state := (case io_buf_state dev of None \<Rightarrow> Some (buffer_share_create (ucast (io_buffer_size dev))) | bs \<Rightarrow> bs)\<rparr>"
  have "stream_id (ds_stream ds) \<notin> fst ` set (map (stream_key (env_rnd env)) (io_streams dev))"
    using new by (auto simp: stream_key_def image_iff)
  note app = share_inv_append [OF inv [unfolded dev_share_def] this sz]
  have "share_inv (dev_share (env_rnd env) d1)"
    using app [of "flags (ds_stream ds) AND TRIGGER_ONLY = 0" "dev_stream_cb_threshold (env_rnd env) ds"] run
    by (cases "io_buf_state dev") (simp_all add: dev_share_def d1_def stream_key_def)
  moreover have "d = d1 \<or> cras_iodev_start_stream env junk ds d1 = Some d" "ds \<in> set (io_streams d1)"
    using a unfolding cras_iodev_add_stream_def Let_def d1_def by (auto split: if_splits)
  ultimately show ?thesis using start_stream_share by metis
qed

context server_driver
begin

lemma rm_stream_share:
  assumes inv: "share_inv (dev_share (env_rnd env) dev)" and rm: "cras_iodev_rm_stream env ops sid dev = Some (out, d)"
  shows "share_inv (dev_share (env_rnd env) d)"
proof -
  let ?rnd = "env_rnd env" and ?rest = "filter (\<lambda>ds. stream_id (ds_stream ds) \<noteq> sid) (io_streams dev)"
  obtain mn mx where lv: "cb_levels ?rnd ?rest (ucast (io_buffer_size dev div 2), 0) = (mn, mx)" by (metis prod.exhaust)
  obtain bs d1 d2 where bs: "(if find (\<lambda>ds. stream_id (ds_stream ds) = sid) (io_streams dev) = None then Some (io_buf_state dev)
          else map_option (\<lambda>b. Some (snd (buffer_share_rm_id b sid))) (io_buf_state dev)) = Some bs"
    and d1: "d1 = dev\<lparr>io_streams := ?rest, io_buf_state := bs, io_min_cb_level := mn, io_max_cb_level := mx\<rparr>"
    and d2: "(if ?rest \<noteq> [] then Some d1
          else let d = d1\<lparr>io_buf_state := None, io_min_cb_level := ucast (io_buffer_size dev div 2)\<rparr> in
            if io_direction d = CRAS_STREAM_OUTPUT \<and> io_state d = CRAS_IODEV_STATE_NORMAL_RUN
            then map_option snd (cras_iodev_no_stream_playback_transition ops True d) else Some d) = Some d2"
    and d: "d = (case earliest_cb ?rest of None \<Rightarrow> d2
          | Some t \<Rightarrow> d2\<lparr>io_streams := map (\<lambda>ds. if ds_is_running ds then ds
              else ds\<lparr>ds_stream := (ds_stream ds)\<lparr>next_cb_ts := t\<rparr>\<rparr>) (io_streams d2)\<rparr>)"
    using rm lv unfolding cras_iodev_rm_stream_def Let_def by (auto simp: bind_eq_Some_conv)
  have "share_inv (dev_share ?rnd d2)"
  proof (cases "?rest = []")
    case True
    have none: "dev_share ?rnd (d1\<lparr>io_buf_state := None, io_min_cb_level := l\<rparr>) = ([], None, l, mx)" for l
      using True d1 by (simp add: dev_share_def)
    have "\<exists>l. dev_share ?rnd d2 = ([], None, l, mx)"
      using d2 True none by (auto simp: Let_def split: if_splits dest!: transition_share [where rnd = ?rnd])
    then show ?thesis by (auto simp: share_inv_def)
  next
    case False
    let ?ks = "map (stream_key ?rnd) (io_streams dev)"
    obtain b where b: "io_buf_state dev = Some b"
      using inv False by (auto simp: share_inv_def dev_share_def split: option.splits)
    have id: "find (\<lambda>ds. stream_id (ds_stream ds) = sid) (io_streams dev) \<noteq> None \<longleftrightarrow> sid \<in> fst ` set ?ks"
      by (auto simp: find_None_iff stream_key_def image_iff)
    have ks: "filter (\<lambda>k. fst k \<noteq> sid) ?ks = map (stream_key ?rnd) ?rest" by (simp add: filter_map comp_def stream_key_def)
    have lvl: "mn \<le> t \<and> t \<le> mx" if "(j, True, w, t) \<in> set ?ks" "j \<noteq> sid" for j w t
    proof -
      from that obtain ds where "ds \<in> set ?rest" "ds_is_running ds" "t = dev_stream_cb_threshold ?rnd ds"
        by (auto simp: stream_key_def)
      then show ?thesis using cb_levels_bound [OF lv] by blast
    qed
    have rest: "share_inv (filter (\<lambda>k. fst k \<noteq> sid) ?ks, Some (if sid \<in> fst ` set ?ks then snd (buffer_share_rm_id b sid) else b), mn, mx)"
      by (rule share_inv_rest [OF inv [unfolded dev_share_def b]]) (use False ks lvl in auto)
    have "bs = Some (if sid \<in> fst ` set ?ks then snd (buffer_share_rm_id b sid) else b)"
      using bs b id by (auto split: if_splits)
    moreover have "d2 = d1" using d2 False by simp
    ultimately show ?thesis using rest unfolding ks by (simp add: dev_share_def d1)
  qed
  moreover have "dev_share ?rnd d = dev_share ?rnd d2"
    using d by (auto simp: dev_share_def stream_key_def dev_stream_cb_threshold_def Let_def split: option.splits)
  ultimately show ?thesis by simp
qed

lemma dev_step_share:
  assumes step: "dev_step env sys ops dev d" and inv: "share_inv (dev_share (env_rnd env) dev)"
  shows "share_inv (dev_share (env_rnd env) d)"
  using step
proof cases
  case (Open now cb fmt rc)
  then show ?thesis
    using cras_iodev_open_mode [OF Open(3)] inv by (auto simp: dev_run_def dev_share_def share_inv_def split: option.splits)
next
  case (Add ds junk)
  then show ?thesis using add_stream_share [OF inv Add(4,1,2,3)] by simp
next
  case (Run ds junk)
  then show ?thesis using start_stream_share [OF inv Run(2,1)] by simp
next
  case (Remove sid out)
  then show ?thesis using rm_stream_share [OF inv Remove] by simp
next
  case (Written sid n)
  then obtain b where b: "io_buf_state dev = Some b" "d = dev\<lparr>io_buf_state := Some (snd (buffer_share_offset_update b sid n))\<rparr>"
    by (auto simp: cras_iodev_stream_written_def)
  then have "bs_inv b" using inv by (simp add: dev_share_def share_inv_def)
  then show ?thesis
    using share_inv_table [OF inv [unfolded dev_share_def b(1)] bs_inv_update bs_users_update] b(2) by (simp add: dev_share_def)
next
  case (Commit n)
  then consider "d = dev" | b where "io_buf_state dev = Some b" "d = dev\<lparr>io_buf_state := Some (snd (buffer_share_get_new_write_point b))\<rparr>"
    by (auto simp: cras_iodev_all_streams_written_def Let_def case_prod_beta split: option.splits)
  then show ?thesis
  proof cases
    case (2 b)
    then have "bs_inv b" using inv by (simp add: dev_share_def share_inv_def)
    then show ?thesis
      using share_inv_table [OF inv [unfolded dev_share_def 2(1)] bs_inv_new_write_point bs_users_commit] 2(2) by (simp add: dev_share_def)
  qed (use inv in simp)
next
  case (Underrun rc)
  have "dev_core d = dev_core dev" by (rule output_underrun_core [OF _ Underrun]) (use underrun_driver in blast)
  then show ?thesis using inv dev_core_share by metis
qed (use inv close_share prepare_share core_shares(4) in metis)+

end

section \<open>Properties\<close>

text \<open>Claim C7.  A device follows the diagram of its states.  Whatever the audio thread and the device list do
  with a device that was closed at first, each operation keeps the direction and either keeps the state, or
  closes the device, or follows an edge for its direction: an input device is only closed or running, a
  device without \<^verbatim>\<open>start\<close> is never merely open, and an output device enters the normal run
  only when a stream on it runs.\<close>

theorem device_follows_diagram:
  assumes "server_driver ops" and "(dev_step env sys ops)\<^sup>*\<^sup>* dev0 dev" and "io_state dev0 = CRAS_IODEV_STATE_CLOSE"
    and "dev_step env sys ops dev d"
  shows "io_direction d = io_direction dev0 \<and>
    state_edge (io_direction dev0) (op_start ops \<noteq> None) (io_state dev) (io_state d) \<and>
    (io_direction dev0 \<noteq> CRAS_STREAM_OUTPUT \<longrightarrow> io_state d \<in> {CRAS_IODEV_STATE_CLOSE, CRAS_IODEV_STATE_NORMAL_RUN}) \<and>
    (op_start ops = None \<longrightarrow> io_state d \<noteq> CRAS_IODEV_STATE_OPEN) \<and>
    (io_direction dev0 = CRAS_STREAM_OUTPUT \<and> io_state d = CRAS_IODEV_STATE_NORMAL_RUN \<and> io_state d \<noteq> io_state dev \<longrightarrow>
       (\<exists>ds \<in> set (io_streams d). ds_is_running ds))"
proof -
  note a = server_driver.reachable_mode [OF assms(1,2,3)]
  note b = server_driver.reachable_mode [OF assms(1) rtranclp.rtrancl_into_rtrancl [OF assms(2,4)] assms(3)]
  note c = server_driver.dev_step_mode [OF assms(1,4)]
  from a have dir: "io_direction dev = io_direction dev0" by blast
  show ?thesis using b c unfolding dir by metis
qed

definition closed_mic :: "unit empty_dev" where
  "closed_mic = the (empty_iodev_create mic_clock CRAS_STREAM_INPUT CRAS_NODE_TYPE_MIC)"

lemmas open_mic_defs = cras_iodev_open_def open_driver_def log_loopback_control_def closed_mic_def empty_iodev_create_def
  cras_iodev_set_format_def choose_format_def Let_def cras_iodev_set_active_node_def cras_iodev_add_node_def mic_env_def
  log_event_def stereo_16_def get_best_rate_def cras_iodev_update_dsp_def cras_iodev_alloc_dsp_def adjust_dev_channel_for_dsp_def
  get_best_channel_count_def get_best_pcm_format_def active_node_def update_channel_layout_def set_format_rate_est_def
  configure_dev_def cras_iodev_init_audio_area_def priv_update_def read_clock_def enter_run_state_def reset_for_open_def
  add_ext_dsp_module_to_pipeline_def with_dsp_pipeline_def configure_ext_module_def cras_frames_at_rate_def
  cras_iodev_get_software_gain_scaler_def cras_iodev_software_volume_needed_def

lemma mic_opens:
  "\<exists>d. cras_iodev_open mic_env fresh_state (empty_ops mic_env fresh_state) (Timespec 0 0) 480 stereo_16 closed_mic = Some (0, d) \<and>
     io_buffer_size d = 4096"
  by (simp add: open_mic_defs)

theorem device_follows_diagram_witness:
  "\<exists>d e. (dev_step mic_env fresh_state (empty_ops mic_env fresh_state))\<^sup>*\<^sup>* closed_mic d \<and> io_state d = CRAS_IODEV_STATE_NORMAL_RUN \<and>
     dev_step mic_env fresh_state (empty_ops mic_env fresh_state) d e \<and>
     state_edge CRAS_STREAM_INPUT False (io_state d) (io_state e)"
proof -
  let ?ops = "empty_ops mic_env fresh_state :: (unit, empty_iodev) iodev_ops"
  have m: "io_state closed_mic = CRAS_IODEV_STATE_CLOSE" "io_streams closed_mic = []" "io_direction closed_mic = CRAS_STREAM_INPUT"
    by (simp_all add: open_mic_defs)
  obtain d where d: "cras_iodev_open mic_env fresh_state ?ops (Timespec 0 0) 480 stereo_16 closed_mic = Some (0, d)"
    using mic_opens by blast
  have st: "(dev_step mic_env fresh_state ?ops)\<^sup>*\<^sup>* closed_mic d" using dev_step.Open [OF m(1,2) d] by blast
  obtain rc e where e: "cras_iodev_close ?ops d = (rc, e)" by (metis prod.exhaust)
  note cl = dev_step.Close [OF e, of mic_env fresh_state]
  have "io_state d = CRAS_IODEV_STATE_NORMAL_RUN"
    using empty_server.cras_iodev_open_mode [OF d] m by (simp add: dev_run_def run_state_def)
  moreover have "state_edge CRAS_STREAM_INPUT False (io_state d) (io_state e)"
    using device_follows_diagram [OF empty_server.server_driver_axioms st m(1) cl] unfolding m(3) empty_ops_simps by simp
  ultimately show ?thesis using st cl by blast
qed



end
