(* ===== verification/Stream_Attach.thy ===== *)
theory Stream_Attach
  imports Dev_Io Output_Device
begin

text \<open>
  The streams of the devices and the devices of the streams.  \<^verbatim>\<open>dev_io.c\<close> keeps the relation twice: each device has
  the list of its streams, each stream the table of its devices.  The abstract state is the relation itself; the
  operations that attach and detach are shown to change it as they should and to keep both representations equal.
\<close>

section \<open>The contract of a driver on the audio thread\<close>

locale thread_driver = server_driver +
  assumes flush_driver: "op_flush_buffer ops dev = (rc, d) \<Longrightarrow> driver_only dev d"
    and valid_driver: "op_get_valid_frames ops = Some h \<Longrightarrow> h dev = (rc, t, d) \<Longrightarrow> driver_only dev d"
    and sleep_driver: "op_frames_to_play_in_sleep ops = Some k \<Longrightarrow> k dev = (n, lv, t, d) \<Longrightarrow> driver_only dev d"

section \<open>The store\<close>

lemma fold_put_stream:
  "aw_dev (fold (\<lambda>ds. put_stream (ds_stream ds)) dss w) = aw_dev w"
  "aw_io (fold (\<lambda>ds. put_stream (ds_stream ds)) dss w) = aw_io w"
  "aw_pic_now (fold (\<lambda>ds. put_stream (ds_stream ds)) dss w) = aw_pic_now w"
  "aw_non_empty_count (fold (\<lambda>ds. put_stream (ds_stream ds)) dss w) = aw_non_empty_count w"
  by (induction dss arbitrary: w) (simp_all add: put_stream_def)

lemma fold_put_stream_other:
  "sid \<notin> ds_sid ` set dss \<Longrightarrow> aw_stream (fold (\<lambda>ds. put_stream (ds_stream ds)) dss w) sid = aw_stream w sid"
  by (induction dss arbitrary: w) (auto simp: put_stream_def)

lemma fold_put_stream_mem:
  assumes "distinct (map ds_sid dss)" "ds \<in> set dss"
  shows "aw_stream (fold (\<lambda>ds. put_stream (ds_stream ds)) dss w) (ds_sid ds) = ds_stream ds"
  using assms
proof (induction dss arbitrary: w)
  case (Cons a dss)
  show ?case
  proof (cases "ds = a")
    case True
    then show ?thesis using Cons.prems by (simp add: fold_put_stream_other, simp add: put_stream_def)
  next
    case False
    then show ?thesis using Cons by simp
  qed
qed simp

lemma put_dev_simps [simp]:
  "aw_dev (put_dev p d w) = (aw_dev w)(p := d)" "aw_io (put_dev p d w) = aw_io w"
  "aw_pic_now (put_dev p d w) = aw_pic_now w" "aw_non_empty_count (put_dev p d w) = aw_non_empty_count w"
  by (simp_all add: put_dev_def fold_put_stream)

lemma put_dev_other: "sid \<notin> ds_sid ` set (io_streams d) \<Longrightarrow> aw_stream (put_dev p d w) sid = aw_stream w sid"
  by (simp add: put_dev_def fold_put_stream_other)

lemma put_dev_mem: "distinct (dev_sids d) \<Longrightarrow> ds \<in> set (io_streams d) \<Longrightarrow> aw_stream (put_dev p d w) (ds_sid ds) = ds_stream ds"
  by (simp add: put_dev_def fold_put_stream_mem)

lemma put_stream_simps [simp]:
  "aw_dev (put_stream s w) = aw_dev w" "aw_stream (put_stream s w) = (aw_stream w)(stream_id s := s)" "aw_io (put_stream s w) = aw_io w"
  "aw_pic_now (put_stream s w) = aw_pic_now w" "aw_non_empty_count (put_stream s w) = aw_non_empty_count w"
  by (simp_all add: put_stream_def)

lemma get_dev_idx [simp]: "io_idx (get_dev p w) = io_idx (aw_dev w p)"
  by (simp add: get_dev_def)

section \<open>Both representations of the relation\<close>

definition attached :: "'h audio_world \<Rightarrow> (nat \<times> u32) set" where
  "attached w = {(p, sid). sid \<in> set (dev_sids (aw_dev w p))}"

definition stream_view :: "'d cras_rstream \<Rightarrow> u32 \<times> (u32 \<rightharpoonup> 'd option) \<times> bool" where
  "stream_view s = (stream_id s, dev_table s, rs_inv s)"

abbreviation ds_view :: "'d dev_stream \<Rightarrow> u32 \<times> u32 \<times> (u32 \<rightharpoonup> 'd option) \<times> bool" where
  "ds_view ds \<equiv> (ds_dev_id ds, stream_view (ds_stream ds))"

definition attach_inv :: "nat set \<Rightarrow> 'h audio_world \<Rightarrow> bool" where
  \<comment> \<open>\<open>D\<close>: the addresses of the devices\<close>
  "attach_inv D w \<longleftrightarrow> (\<forall>sid. stream_id (aw_stream w sid) = sid \<and> rs_inv (aw_stream w sid)) \<and>
     inj_on (\<lambda>p. io_idx (aw_dev w p)) D \<and> (\<forall>p \<in> D. io_idx (aw_dev w p) \<noteq> NO_DEVICE) \<and>
     (\<forall>p. distinct (dev_sids (aw_dev w p)) \<and> (\<forall>ds \<in> set (io_streams (aw_dev w p)). ds_dev_id ds = io_idx (aw_dev w p))) \<and>
     (\<forall>p sid. (p, sid) \<in> attached w \<longrightarrow> p \<in> D) \<and>
     (\<forall>sid i x. dev_table (aw_stream w sid) i = Some x \<longleftrightarrow> (\<exists>p. x = Some p \<and> io_idx (aw_dev w p) = i \<and> (p, sid) \<in> attached w))"

lemma attach_invD:
  assumes "attach_inv D w"
  shows "stream_id (aw_stream w sid) = sid" "rs_inv (aw_stream w sid)" "inj_on (\<lambda>p. io_idx (aw_dev w p)) D"
    "p \<in> D \<Longrightarrow> io_idx (aw_dev w p) \<noteq> NO_DEVICE" "distinct (dev_sids (aw_dev w p))"
    "ds \<in> set (io_streams (aw_dev w p)) \<Longrightarrow> ds_dev_id ds = io_idx (aw_dev w p)" "(p, sid) \<in> attached w \<Longrightarrow> p \<in> D"
    "dev_table (aw_stream w sid) i = Some x \<longleftrightarrow> (\<exists>p. x = Some p \<and> io_idx (aw_dev w p) = i \<and> (p, sid) \<in> attached w)"
  using assms unfolding attach_inv_def by blast+

lemma get_dev_streams:
  assumes "attach_inv D w"
  shows "dev_sids (get_dev p w) = dev_sids (aw_dev w p)" "io_streams (get_dev p w) = [] \<longleftrightarrow> io_streams (aw_dev w p) = []"
    "map ds_dev_id (io_streams (get_dev p w)) = map ds_dev_id (io_streams (aw_dev w p))"
    "ds \<in> set (io_streams (get_dev p w)) \<Longrightarrow> ds_stream ds = aw_stream w (ds_sid ds)"
    "ds \<in> set (io_streams (get_dev p w)) \<Longrightarrow> ds_dev_id ds = io_idx (aw_dev w p)"
  using attach_invD(1,6) [OF assms] by (auto simp: get_dev_def)

lemma stream_view_eq: "stream_view s = stream_view s' \<longleftrightarrow> stream_id s = stream_id s' \<and> dev_table s = dev_table s' \<and> rs_inv s = rs_inv s'"
  by (simp add: stream_view_def)

lemma views_sids: "map ds_view xs = map ds_view ys \<Longrightarrow> map ds_sid xs = map ds_sid ys" for xs ys :: "'d dev_stream list"
proof -
  have e: "map ds_sid zs = map (fst \<circ> snd) (map ds_view zs)" for zs :: "'d dev_stream list" by (simp add: stream_view_def o_def)
  assume "map ds_view xs = map ds_view ys"
  then show ?thesis by (simp only: e)
qed

lemma views_mem:
  assumes "map ds_view xs = map ds_view ys" "ds \<in> set xs"
  shows "\<exists>ds' \<in> set ys. ds_view ds = ds_view ds'"
proof -
  have "ds_view ds \<in> set (map ds_view xs)" using assms(2) by simp
  then have "ds_view ds \<in> set (map ds_view ys)" by (simp only: assms(1))
  then show ?thesis by auto
qed

lemma put_dev_views:
  assumes inv: "attach_inv D w" and dist: "distinct (dev_sids d)"
    and views: "sid \<in> set (dev_sids d) \<Longrightarrow> \<exists>ds \<in> set (io_streams d). ds_sid ds = sid \<and> (\<exists>ds' \<in> set (io_streams (get_dev p w)). ds_view ds = ds_view ds')"
  shows "stream_view (aw_stream (put_dev p d w) sid) = stream_view (aw_stream w sid)"
proof (cases "sid \<in> set (dev_sids d)")
  case True
  then obtain ds ds' where ds: "ds \<in> set (io_streams d)" "sid = ds_sid ds"
    and ds': "ds' \<in> set (io_streams (get_dev p w))" "ds_view ds = ds_view ds'" using views by blast
  have "sid = ds_sid ds'" using ds(2) ds'(2) by (simp add: stream_view_def)
  then have "aw_stream w sid = ds_stream ds'" using get_dev_streams(4) [OF inv ds'(1)] by (simp only:)
  then show ?thesis using ds'(2) unfolding ds(2) put_dev_mem [OF dist ds(1)] by simp
qed (simp add: put_dev_other)

text \<open>A device operation that keeps the views of its streams keeps the relation.\<close>

lemma attach_same:
  assumes inv: "attach_inv D w" and idx: "io_idx d = io_idx (aw_dev w p)"
    and views: "map ds_view (io_streams d) = map ds_view (io_streams (get_dev p w))"
  shows "attach_inv D (put_dev p d w) \<and> attached (put_dev p d w) = attached w \<and>
    (\<forall>sid. stream_view (aw_stream (put_dev p d w) sid) = stream_view (aw_stream w sid)) \<and>
    (\<forall>q. io_idx (aw_dev (put_dev p d w) q) = io_idx (aw_dev w q))"
proof -
  have sids: "dev_sids d = dev_sids (aw_dev w p)"
    using views_sids [OF views] by (simp add: get_dev_streams [OF inv])
  have dist: "distinct (dev_sids d)" using attach_invD(5) [OF inv] by (simp add: sids)
  have "set (dev_sids (aw_dev (put_dev p d w) q)) = set (dev_sids (aw_dev w q))" for q
    using sids by (metis fun_upd_apply put_dev_simps(1))
  then have at: "attached (put_dev p d w) = attached w" by (simp only: attached_def)
  have ids: "io_idx (aw_dev (put_dev p d w) q) = io_idx (aw_dev w q)" for q by (simp add: idx)
  have st: "stream_view (aw_stream (put_dev p d w) sid) = stream_view (aw_stream w sid)" for sid
    using views_mem [OF views] by (intro put_dev_views [OF inv dist]) auto
  then have st': "stream_id (aw_stream (put_dev p d w) sid) = stream_id (aw_stream w sid)"
    "dev_table (aw_stream (put_dev p d w) sid) = dev_table (aw_stream w sid)"
    "rs_inv (aw_stream (put_dev p d w) sid) = rs_inv (aw_stream w sid)" for sid
    by (simp_all add: stream_view_eq)
  have dd: "ds_dev_id ds = io_idx d" if "ds \<in> set (io_streams d)" for ds
    using views_mem [OF views that] get_dev_streams(5) [OF inv] idx by auto
  have per: "distinct (dev_sids (aw_dev (put_dev p d w) q)) \<and>
    (\<forall>ds \<in> set (io_streams (aw_dev (put_dev p d w) q)). ds_dev_id ds = io_idx (aw_dev (put_dev p d w) q))" for q
  proof (cases "q = p")
    case True
    then show ?thesis using dist dd by simp
  next
    case False
    then show ?thesis using attach_invD(5,6) [OF inv, where p = q] by (simp del: distinct_map)
  qed
  have "attach_inv D (put_dev p d w)"
    using per inv unfolding attach_inv_def at ids st' by blast
  then show ?thesis using at st ids by blast
qed

lemma attach_put_stream:
  assumes "attach_inv D w" and "stream_view s = stream_view (aw_stream w (stream_id s))"
  shows "attach_inv D (put_stream s w) \<and> attached (put_stream s w) = attached w \<and>
    (\<forall>sid. stream_view (aw_stream (put_stream s w) sid) = stream_view (aw_stream w sid))"
proof -
  have st: "stream_view (aw_stream (put_stream s w) sid) = stream_view (aw_stream w sid)" for sid using assms(2) by auto
  then have st': "stream_id (aw_stream (put_stream s w) sid) = stream_id (aw_stream w sid)"
    "dev_table (aw_stream (put_stream s w) sid) = dev_table (aw_stream w sid)"
    "rs_inv (aw_stream (put_stream s w) sid) = rs_inv (aw_stream w sid)" for sid
    by (simp_all only: stream_view_eq)
  have at: "attached (put_stream s w) = attached w" by (simp add: attached_def)
  have "attach_inv D (put_stream s w)" using assms(1) unfolding attach_inv_def st' at put_stream_simps(1) by blast
  then show ?thesis using at st by blast
qed

text \<open>One stream is attached to or detached from one device.\<close>

lemma attach_change:
  assumes inv: "attach_inv D w" and p: "p \<in> D"
    and devs: "aw_dev w' = (aw_dev w)(p := d)" "io_idx d = io_idx (aw_dev w p)"
    and sids: "distinct (dev_sids d)" "\<forall>ds \<in> set (io_streams d). ds_dev_id ds = io_idx (aw_dev w p)"
      "\<forall>j. j \<noteq> sid \<longrightarrow> (j \<in> set (dev_sids d) \<longleftrightarrow> j \<in> set (dev_sids (aw_dev w p)))"
    and others: "\<forall>j. j \<noteq> sid \<longrightarrow> stream_view (aw_stream w' j) = stream_view (aw_stream w j)"
    and here: "stream_id (aw_stream w' sid) = sid" "rs_inv (aw_stream w' sid)"
      "dev_table (aw_stream w' sid) = (dev_table (aw_stream w sid))(io_idx (aw_dev w p) := if sid \<in> set (dev_sids d) then Some (Some p) else None)"
  shows "attach_inv D w' \<and> attached w' = (if sid \<in> set (dev_sids d) then insert (p, sid) (attached w) else attached w - {(p, sid)})"
proof -
  let ?A = "if sid \<in> set (dev_sids d) then insert (p, sid) (attached w) else attached w - {(p, sid)}"
  have mem: "(q, j) \<in> attached w' \<longleftrightarrow> (if q = p then j \<in> set (dev_sids d) else (q, j) \<in> attached w)" for q j
    by (simp add: attached_def devs(1))
  have memp: "(p, j) \<in> attached w \<longleftrightarrow> j \<in> set (dev_sids (aw_dev w p))" for j by (simp add: attached_def)
  have "(q, j) \<in> attached w' \<longleftrightarrow> (q, j) \<in> ?A" for q j
    using mem [of q j] memp [of j] sids(3) by (cases "q = p"; cases "j = sid") (simp_all del: set_map)
  then have at: "attached w' = ?A" by (metis subset_antisym subrelI)
  have idx: "io_idx (aw_dev w' q) = io_idx (aw_dev w q)" for q by (simp add: devs)
  have inD: "q \<in> D" if "(q, j) \<in> attached w'" for q j
    using that attach_invD(7) [OF inv] p unfolding at by (auto split: if_splits)
  have inj: "io_idx (aw_dev w q) = io_idx (aw_dev w p) \<Longrightarrow> (q, j) \<in> attached w' \<Longrightarrow> q = p" for q j
    using inj_onD [OF attach_invD(3) [OF inv]] inD p by blast
  have tab: "dev_table (aw_stream w' j) i = Some x \<longleftrightarrow> (\<exists>q. x = Some q \<and> io_idx (aw_dev w' q) = i \<and> (q, j) \<in> attached w')" for j i x
  proof (cases "j = sid")
    case j: True
    show ?thesis
    proof (cases "i = io_idx (aw_dev w p)")
      case True
      have "(\<exists>q. x = Some q \<and> io_idx (aw_dev w q) = i \<and> (q, j) \<in> attached w') \<longleftrightarrow> x = Some p \<and> (p, j) \<in> attached w'"
        using inj True by blast
      then show ?thesis using True by (auto simp: j here(3) idx mem)
    next
      case False
      then show ?thesis using attach_invD(8) [OF inv, of j i x] by (auto simp: j here(3) idx mem)
    qed
  next
    case False
    then have "dev_table (aw_stream w' j) = dev_table (aw_stream w j)" "\<And>q. (q, j) \<in> attached w' \<longleftrightarrow> (q, j) \<in> attached w"
      using others sids(3) memp by (auto simp: stream_view_eq mem)
    then show ?thesis using attach_invD(8) [OF inv, of j i x] by (simp add: idx)
  qed
  have str: "stream_id (aw_stream w' j) = j \<and> rs_inv (aw_stream w' j)" for j
    using others here(1,2) attach_invD(1,2) [OF inv, of j] by (cases "j = sid") (auto simp: stream_view_eq)
  have per: "distinct (dev_sids (aw_dev w' q)) \<and> (\<forall>ds \<in> set (io_streams (aw_dev w' q)). ds_dev_id ds = io_idx (aw_dev w' q))" for q
  proof (cases "q = p")
    case True
    then show ?thesis using sids by (simp add: devs del: distinct_map)
  next
    case False
    then show ?thesis using attach_invD(5,6) [OF inv, where p = q] by (simp add: devs del: distinct_map)
  qed
  have "attach_inv D w'"
    unfolding attach_inv_def idx using str per [unfolded idx] tab [unfolded idx] inD attach_invD(3,4) [OF inv] by blast
  then show ?thesis using at by blast
qed

section \<open>Detaching\<close>

lemma stream_view_updates [simp]:
  "stream_view (s\<lparr>next_cb_ts := t\<rparr>) = stream_view s" "stream_view (s\<lparr>sleep_interval_ts := t\<rparr>) = stream_view s"
  "stream_view (s\<lparr>shm := h\<rparr>) = stream_view s" "stream_view (s\<lparr>is_draining := n\<rparr>) = stream_view s"
  "stream_view (s\<lparr>last_fetch_ts := t\<rparr>) = stream_view s" "stream_view (s\<lparr>longest_fetch_interval := t\<rparr>) = stream_view s"
  "stream_view (s\<lparr>queued_frames := q\<rparr>) = stream_view s" "stream_view (s\<lparr>triggered := b\<rparr>) = stream_view s"
  "stream_view (s\<lparr>num_missed_cb := n\<rparr>) = stream_view s" "stream_view (s\<lparr>first_missed_cb_ts := t\<rparr>) = stream_view s"
  by (simp_all add: stream_view_def dev_table_def [abs_def] rs_inv_def)

lemma detach_id [simp]: "stream_id (cras_rstream_dev_detach i s) = stream_id s"
  by (simp add: cras_rstream_dev_detach_def Let_def split: prod.split option.split)

context server_driver
begin

lemma transition_idx:
  assumes "cras_iodev_no_stream_playback_transition ops enable dev = Some (rc, d)"
  shows "io_idx d = io_idx dev"
proof (cases "io_direction dev = CRAS_STREAM_OUTPUT \<and> io_state dev \<in> {CRAS_IODEV_STATE_NORMAL_RUN, CRAS_IODEV_STATE_NO_STREAM_RUN}")
  case True
  then obtain rc1 d1 where n: "op_no_stream ops enable dev = Some (rc1, d1)" 
    and "d = d1 \<or> d = d1\<lparr>io_state := if enable then CRAS_IODEV_STATE_NO_STREAM_RUN else CRAS_IODEV_STATE_NORMAL_RUN\<rparr>"
    using assms by (auto simp: cras_iodev_no_stream_playback_transition_def bind_eq_Some_conv split: if_splits)
  then show ?thesis using dev_coreD(9) [OF no_stream_driver [OF n]] by auto
next
  case False
  then show ?thesis using assms by (auto simp: cras_iodev_no_stream_playback_transition_def split: if_splits)
qed

lemma rm_stream_views:
  assumes "cras_iodev_rm_stream env ops sid dev = Some (out, d)"
  shows "io_idx d = io_idx dev" "out = find (\<lambda>ds. ds_sid ds = sid) (io_streams dev)"
    "map ds_view (io_streams d) = map ds_view (filter (\<lambda>ds. ds_sid ds \<noteq> sid) (io_streams dev))"
proof -
  let ?rest = "filter (\<lambda>ds. stream_id (ds_stream ds) \<noteq> sid) (io_streams dev)"
  obtain bs mn mx d1 d2 where d1: "d1 = dev\<lparr>io_streams := ?rest, io_buf_state := bs, io_min_cb_level := mn, io_max_cb_level := mx\<rparr>"
    and d2: "(if ?rest \<noteq> [] then Some d1
          else let d = d1\<lparr>io_buf_state := None, io_min_cb_level := ucast (io_buffer_size dev div 2)\<rparr> in
            if io_direction d = CRAS_STREAM_OUTPUT \<and> io_state d = CRAS_IODEV_STATE_NORMAL_RUN
            then map_option snd (cras_iodev_no_stream_playback_transition ops True d) else Some d) = Some d2"
    and d: "d = (case earliest_cb ?rest of None \<Rightarrow> d2
          | Some t \<Rightarrow> d2\<lparr>io_streams := map (\<lambda>ds. if ds_is_running ds then ds
              else ds\<lparr>ds_stream := (ds_stream ds)\<lparr>next_cb_ts := t\<rparr>\<rparr>) (io_streams d2)\<rparr>)"
    and out: "out = find (\<lambda>ds. ds_sid ds = sid) (io_streams dev)"
    using assms unfolding cras_iodev_rm_stream_def Let_def case_prod_beta by (auto simp: bind_eq_Some_conv)
  show "out = find (\<lambda>ds. ds_sid ds = sid) (io_streams dev)" by (rule out)
  have "io_streams d2 = ?rest \<and> io_idx d2 = io_idx dev"
    using d2 d1 by (auto simp: Let_def split: if_splits dest: transition_mode transition_idx)
  then show "io_idx d = io_idx dev" "map ds_view (io_streams d) = map ds_view ?rest"
    using d by (auto split: option.splits)
qed

end

lemma delete_attached:
  assumes drv: "server_driver (te_ops env p)" and inv: "attach_inv D w" and p: "p \<in> D"
    and del: "delete_stream_from_dev env sid p w = Some w'"
  shows "attach_inv D w' \<and> attached w' = attached w - {(p, sid)}"
proof -
  obtain out d where rm: "cras_iodev_rm_stream (te_iodev env) (te_ops env p) sid (get_dev p w) = Some (out, d)"
    and w': "w' = (case out of None \<Rightarrow> put_dev p d w | Some ds \<Rightarrow> put_stream (dev_stream_destroy ds) (put_dev p d w))"
    using del by (auto simp: delete_stream_from_dev_def bind_eq_Some_conv)
  note v = server_driver.rm_stream_views [OF drv rm]
  have idx: "io_idx d = io_idx (aw_dev w p)" using v(1) by simp
  show ?thesis
  proof (cases "sid \<in> set (dev_sids (aw_dev w p))")
    case False
    then have no: "\<forall>ds \<in> set (io_streams (get_dev p w)). ds_sid ds \<noteq> sid" using get_dev_streams(1) [OF inv] by (metis image_eqI list.set_map)
    then have "out = None" using v(2) by (simp add: find_None_iff)
    moreover have "filter (\<lambda>ds. ds_sid ds \<noteq> sid) (io_streams (get_dev p w)) = io_streams (get_dev p w)" using no by (simp add: filter_id_conv)
    moreover have "attached w - {(p, sid)} = attached w" using False by (simp add: attached_def)
    ultimately show ?thesis using attach_same [OF inv idx] v(3) w' by simp
  next
    case True
    then obtain ds where ds: "out = Some ds" "ds \<in> set (io_streams (get_dev p w))" "ds_sid ds = sid"
      using v(2) get_dev_streams(1) [OF inv] by (metis (mono_tags, lifting) find_None_iff find_Some_iff image_iff list.set_map not_None_eq nth_mem)
    have s: "dev_stream_destroy ds = cras_rstream_dev_detach (io_idx (aw_dev w p)) (aw_stream w sid)"
      using get_dev_streams(4,5) [OF inv ds(2)] ds(3) by (simp add: dev_stream_destroy_def)
    note t = rs_inv_detach [OF attach_invD(2) [OF inv, of sid], of "io_idx (aw_dev w p)"]
    have sids: "dev_sids d = filter (\<lambda>j. j \<noteq> sid) (dev_sids (aw_dev w p))"
      using views_sids [OF v(3)] unfolding get_dev_streams(1) [OF inv, of p, symmetric] by (simp add: filter_map o_def)
    have dist: "distinct (dev_sids d)" using attach_invD(5) [OF inv, of p] unfolding sids by (rule distinct_filter)
    have mem: "\<exists>ds' \<in> set (io_streams (get_dev p w)). ds_view ds = ds_view ds'" if "ds \<in> set (io_streams d)" for ds
      using views_mem [OF v(3) that] by auto
    have "attach_inv D w' \<and> attached w' = (if sid \<in> set (dev_sids d) then insert (p, sid) (attached w) else attached w - {(p, sid)})"
    proof (rule attach_change [OF inv p])
      show "aw_dev w' = (aw_dev w)(p := d)" by (simp add: w' ds(1))
      show "\<forall>ds \<in> set (io_streams d). ds_dev_id ds = io_idx (aw_dev w p)" using mem get_dev_streams(5) [OF inv] by fastforce
      have "stream_view (aw_stream (put_dev p d w) j) = stream_view (aw_stream w j)" for j
        using mem by (intro put_dev_views [OF inv dist]) auto
      then show "\<forall>j. j \<noteq> sid \<longrightarrow> stream_view (aw_stream w' j) = stream_view (aw_stream w j)"
        by (simp add: w' ds(1) s attach_invD(1) [OF inv])
      show "dev_table (aw_stream w' sid) = (dev_table (aw_stream w sid))(io_idx (aw_dev w p) := if sid \<in> set (dev_sids d) then Some (Some p) else None)"
        using t by (simp add: w' ds(1) s attach_invD(1) [OF inv] sids del: set_map)
    qed (use t dist idx in \<open>simp_all add: w' ds(1) s attach_invD(1) [OF inv] sids del: set_map distinct_map\<close>)
    then show ?thesis by (simp add: sids del: set_map)
  qed
qed

lemma delete_from_devs_attached:
  assumes "\<And>p. server_driver (te_ops env p)" and "attach_inv D w" and "set ps \<subseteq> D" and "delete_from_devs env sid ps w = Some w'"
  shows "attach_inv D w' \<and> attached w' = attached w - set ps \<times> {sid}"
  using assms(2-4)
proof (induction ps arbitrary: w)
  case (Cons p ps)
  then obtain w1 where w1: "delete_stream_from_dev env sid p w = Some w1" "delete_from_devs env sid ps w1 = Some w'"
    by (auto simp: bind_eq_Some_conv)
  have "attach_inv D w1 \<and> attached w1 = attached w - {(p, sid)}"
    using delete_attached [OF assms(1) Cons.prems(1) _ w1(1)] Cons.prems(2) by simp
  then show ?case using Cons.IH [OF _ _ w1(2)] Cons.prems(2) by auto
qed simp

lemma detach_all_attached:
  assumes "\<And>p. server_driver (te_ops env p)" and "attach_inv D w" and "p \<in> D" and "detach_all env p sids w = Some w'"
  shows "attach_inv D w' \<and> attached w' = attached w - {p} \<times> set sids"
  using assms(2,4)
proof (induction sids arbitrary: w)
  case (Cons sid sids)
  then obtain w1 where w1: "delete_stream_from_dev env sid p w = Some w1" "detach_all env p sids w1 = Some w'"
    by (auto simp: bind_eq_Some_conv)
  have "attach_inv D w1 \<and> attached w1 = attached w - {(p, sid)}"
    by (rule delete_attached [OF assms(1) Cons.prems(1) assms(3) w1(1)])
  then show ?case using Cons.IH [OF _ w1(2)] by auto
qed simp

lemma attach_inv_io:
  assumes "aw_dev w' = aw_dev w" "aw_stream w' = aw_stream w"
  shows "attached w' = attached w" "attach_inv D w' \<longleftrightarrow> attach_inv D w"
  using assms by (simp_all add: attached_def attach_inv_def)

lemma remove_stream_attached:
  assumes "\<And>p. server_driver (te_ops env p)" and inv: "attach_inv D w" and "od_dev ` set ods \<subseteq> D" and "\<And>p. dev = Some p \<Longrightarrow> p \<in> D"
    and rm: "dev_io_remove_stream env ods sid dev w = Some w'"
  shows "attach_inv D w' \<and> attached w' = attached w - (case dev of None \<Rightarrow> od_dev ` set ods | Some p \<Rightarrow> {p}) \<times> {sid}"
proof -
  have l: "aw_dev (log_fetch_delay sid w) = aw_dev w" "aw_stream (log_fetch_delay sid w) = aw_stream w"
    by (simp_all add: log_fetch_delay_def Let_def)
  show ?thesis
    using delete_from_devs_attached [OF assms(1) _ _ rm [unfolded dev_io_remove_stream_def], of D] inv assms(3,4)
    by (cases dev) (simp_all add: attach_inv_io [OF l])
qed

lemma rm_open_dev_attached:
  assumes "\<And>p. server_driver (te_ops env p)" and inv: "attach_inv D w" and "od_dev ` set ods \<subseteq> D"
    and rm: "dev_io_rm_open_dev env p (ods, w) = Some (ods', w')"
  shows "attach_inv D w' \<and> ods' = filter (\<lambda>a. od_dev a \<noteq> p) ods \<and>
    attached w' = (if p \<in> od_dev ` set ods then attached w - {p} \<times> UNIV else attached w)"
proof (cases "find_open p ods = None")
  case True
  then have n: "p \<notin> od_dev ` set ods" by (auto simp: find_open_def find_None_iff)
  then have "filter (\<lambda>a. od_dev a \<noteq> p) ods = ods" by (auto simp: filter_id_conv)
  then show ?thesis using True rm inv n by (simp add: dev_io_rm_open_dev_def)
next
  case False
  then have mem: "p \<in> od_dev ` set ods" by (auto simp: find_open_def find_Some_iff)
  define w1 where "w1 = check_non_empty_state_transition (filter (\<lambda>a. od_dev a \<noteq> p) ods) (w\<lparr>aw_io := emit (Device_metrics (io_num_underruns (aw_dev w p))
    (io_highest_hw_level (aw_dev w p)) (io_largest_cb_level (aw_dev w p)) (io_direction (aw_dev w p))) (aw_io w)\<rparr>)"
  have l: "aw_dev w1 = aw_dev w" "aw_stream w1 = aw_stream w"
    by (simp_all add: w1_def check_non_empty_state_transition_def Let_def)
  have d: "detach_all env p (dev_sids (aw_dev w p)) w1 = Some w'" and o: "ods' = filter (\<lambda>a. od_dev a \<noteq> p) ods"
    using rm False by (auto simp: dev_io_rm_open_dev_def Let_def w1_def)
  have "attached w - {p} \<times> set (dev_sids (aw_dev w p)) = attached w - {p} \<times> UNIV"
    by (auto simp: attached_def)
  then show ?thesis
    using detach_all_attached [OF assms(1) _ _ d, of D] inv mem assms(3) o by (auto simp: attach_inv_io [OF l] simp del: set_map)
qed

section \<open>Attaching\<close>

lemma rstream_attach_id: "cras_rstream_dev_attach junk i ptr s = Some s' \<Longrightarrow> stream_id s' = stream_id s"
  by (auto simp: cras_rstream_dev_attach_def Let_def split: option.splits if_splits)

lemma dev_stream_create_views:
  assumes new: "dev_stream_create rnd width conv pp junk s i fmt ptr t = Some ds" and inv: "rs_inv s" and i: "i \<noteq> NO_DEVICE" "dev_table s i = None"
  shows "ds_dev_id ds = i" "stream_id (ds_stream ds) = stream_id s" "rs_inv (ds_stream ds)" "dev_table (ds_stream ds) = (dev_table s)(i \<mapsto> ptr)"
proof -
  define s1 where "s1 = s\<lparr>sleep_interval_ts := cras_frames_to_time (ucast (cb_threshold s)) (ucast (frame_rate (rs_format s))), next_cb_ts := t\<rparr>"
  obtain s' where at: "cras_rstream_dev_attach junk i ptr s1 = Some s'" and ds: "ds_dev_id ds = i" "ds_stream ds = s'"
    using new unfolding dev_stream_create_def Let_def case_prod_beta s1_def
    by (auto simp: bind_eq_Some_conv split: if_splits option.splits)
  have "stream_view s1 = stream_view s" by (simp add: s1_def)
  then have s1: "rs_inv s1" "dev_table s1 = dev_table s" "stream_id s1 = stream_id s" using inv by (simp_all add: stream_view_eq)
  show "ds_dev_id ds = i" "stream_id (ds_stream ds) = stream_id s" "rs_inv (ds_stream ds)" "dev_table (ds_stream ds) = (dev_table s)(i \<mapsto> ptr)"
    using rs_inv_attach [OF s1(1) i(1) at] rstream_attach_id [OF at] ds s1 i(2) by simp_all
qed

lemma start_stream_views:
  assumes "cras_iodev_start_stream env junk ds dev = Some d"
  shows "io_idx d = io_idx dev \<and> map ds_view (io_streams d) = map ds_view (io_streams dev)"
  using assms by (auto simp: cras_iodev_start_stream_def Let_def bind_eq_Some_conv split: if_splits)

lemma add_stream_views:
  assumes "cras_iodev_add_stream env junk ds dev = Some d"
  shows "io_idx d = io_idx dev \<and> map ds_view (io_streams d) = map ds_view (io_streams dev @ [ds])"
  using assms by (auto simp: cras_iodev_add_stream_def Let_def split: if_splits dest: start_stream_views)

context thread_driver
begin

lemma get_valid_frames_core: "cras_iodev_get_valid_frames ops dev = (rc, t, d) \<Longrightarrow> dev_core d = dev_core dev"
  by (auto simp: cras_iodev_get_valid_frames_def Let_def split: if_splits option.splits prod.splits
      dest!: valid_driver driver_only_core frames_queued_core)

lemma init_cb_core:
  assumes "init_cb_ts ops cb s dev = Some (r, cb', d)"
  shows "dev_core d = dev_core dev"
proof -
  obtain rc t d1 where v: "cras_iodev_get_valid_frames ops dev = (rc, t, d1)" by (metis prod_cases3)
  have "d = dev \<or> d = d1" using assms unfolding init_cb_ts_def Let_def v
    by (auto simp: bind_eq_Some_conv split: if_splits option.splits)
  then show ?thesis using get_valid_frames_core [OF v] by auto
qed

end

lemma align_offset_attached:
  assumes inv: "attach_inv D w" and al: "align_input_offset sid p w = Some w'"
  shows "attach_inv D w' \<and> attached w' = attached w"
proof (cases "w' = w")
  case False
  then obtain n m d where d: "cras_iodev_stream_written sid n (get_dev p w) = Some d"
    and w': "w' = put_stream (cras_rstream_dev_offset_update m (io_idx (get_dev p w)) (aw_stream (put_dev p d w) sid)) (put_dev p d w)"
    using al unfolding align_input_offset_def Let_def by (auto simp: bind_eq_Some_conv split: if_splits)
  have k: "io_idx d = io_idx (aw_dev w p)" "io_streams d = io_streams (get_dev p w)"
    using d by (auto simp: cras_iodev_stream_written_def get_dev_def)
  have a: "attach_inv D (put_dev p d w)" "attached (put_dev p d w) = attached w"
    using attach_same [OF inv k(1)] k(2) by simp_all
  let ?s = "aw_stream (put_dev p d w) sid"
  have "stream_view (cras_rstream_dev_offset_update m i ?s) = stream_view ?s" for i
    using rs_inv_offset_update [OF attach_invD(2) [OF a(1)]] dev_table_offset_update [OF attach_invD(2) [OF a(1)]] attach_invD(2) [OF a(1)]
    by (simp add: stream_view_eq cras_rstream_dev_offset_update_def)
  then show ?thesis
    using attach_put_stream [OF a(1)] a(2) attach_invD(1) [OF a(1)] unfolding w' by (simp add: cras_rstream_dev_offset_update_def)
qed (use inv in simp)

lemma append_new_attached:
  assumes inv: "attach_inv D w" and p: "p \<in> D" and new: "(p, sid) \<notin> attached w"
    and d1: "io_idx d1 = io_idx (aw_dev w p)" "io_streams d1 = io_streams (get_dev p w)"
    and ds: "dev_stream_create rnd width conv pp junk (aw_stream w sid) (io_idx d1) fmt (Some p) t = Some ds"
    and d2: "cras_iodev_add_stream env junk' ds d1 = Some d2"
  shows "attach_inv D (put_dev p d2 w) \<and> attached (put_dev p d2 w) = insert (p, sid) (attached w)"
proof -
  have "dev_table (aw_stream w sid) (io_idx (aw_dev w p)) = None"
    using attach_invD(8) [OF inv, of sid "io_idx (aw_dev w p)"] attach_invD(7) [OF inv] inj_onD [OF attach_invD(3) [OF inv] _ _ p] new
    by (metis not_None_eq)
  note c = dev_stream_create_views [OF ds attach_invD(2) [OF inv] _ this [folded d1(1)]]
  have c': "ds_dev_id ds = io_idx (aw_dev w p)" "ds_sid ds = sid" "rs_inv (ds_stream ds)"
    "dev_table (ds_stream ds) = (dev_table (aw_stream w sid))(io_idx (aw_dev w p) \<mapsto> Some p)"
    using c attach_invD(1,4) [OF inv] p d1(1) by simp_all
  have a: "io_idx d2 = io_idx (aw_dev w p)" "map ds_view (io_streams d2) = map ds_view (io_streams (get_dev p w) @ [ds])"
    using add_stream_views [OF d2] d1 by simp_all
  have sids: "dev_sids d2 = dev_sids (aw_dev w p) @ [sid]"
    using views_sids [OF a(2)] by (simp add: get_dev_streams(1) [OF inv] c'(2))
  have notin: "sid \<notin> set (dev_sids (aw_dev w p))" using new by (simp add: attached_def del: set_map)
  have dist: "distinct (dev_sids d2)" using attach_invD(5) [OF inv, of p] notin unfolding sids by simp
  have mem: "\<exists>ds' \<in> insert ds (set (io_streams (get_dev p w))). ds_view x = ds_view ds'" if "x \<in> set (io_streams d2)" for x
    using views_mem [OF a(2) that] by simp
  have other: "stream_view (aw_stream (put_dev p d2 w) j) = stream_view (aw_stream w j)" if "j \<noteq> sid" for j
    using mem that c'(2) by (intro put_dev_views [OF inv dist]) (fastforce simp: stream_view_eq)
  obtain x where x: "x \<in> set (io_streams d2)" "ds_view x = ds_view ds" using views_mem [OF a(2) [symmetric], of ds] by auto
  have "aw_stream (put_dev p d2 w) sid = ds_stream x" using put_dev_mem [OF dist x(1), of p w] x(2) c'(2) by (simp add: stream_view_eq)
  then have here: "stream_view (aw_stream (put_dev p d2 w) sid) = stream_view (ds_stream ds)" using x(2) by simp
  have "attach_inv D (put_dev p d2 w) \<and> attached (put_dev p d2 w) =
      (if sid \<in> set (dev_sids d2) then insert (p, sid) (attached w) else attached w - {(p, sid)})"
  proof (rule attach_change [OF inv p])
    show "\<forall>ds \<in> set (io_streams d2). ds_dev_id ds = io_idx (aw_dev w p)" using mem get_dev_streams(5) [OF inv] c'(1) by fastforce
    show "dev_table (aw_stream (put_dev p d2 w) sid) = (dev_table (aw_stream w sid))
        (io_idx (aw_dev w p) := if sid \<in> set (dev_sids d2) then Some (Some p) else None)"
      using here c'(4) by (simp add: stream_view_eq sids)
  qed (use here c' a dist other in \<open>simp_all add: stream_view_eq sids del: set_map distinct_map\<close>)
  then show ?thesis by (simp add: sids)
qed

lemma create_and_add_attached:
  assumes inv: "attach_inv D w" and p: "p \<in> D" and new: "(p, sid) \<notin> attached w" and c: "dev_core d1 = dev_core (get_dev p w)"
    and add: "create_and_add env sid p d1 t w = Some (rc, w')"
  shows "attach_inv D w' \<and> attached w' = (if rc = 0 then insert (p, sid) (attached w) else attached w)"
proof -
  note k = dev_coreD(3,9) [OF c]
  obtain fmt where fmt: "io_format d1 = Some fmt" using add by (auto simp: create_and_add_def bind_eq_Some_conv)
  show ?thesis
  proof (cases "dev_stream_create (env_round env) (env_widths env) (te_conv env) (te_ppfmt env p sid) (te_junk env)
      (aw_stream w sid) (io_idx d1) fmt (Some p) t")
    case None
    then show ?thesis using add fmt attach_same [OF inv, of d1 p] k by (auto simp: create_and_add_def)
  next
    case (Some ds)
    then obtain d2 where d2: "cras_iodev_add_stream (te_iodev env) (te_junk env) ds d1 = Some d2"
      and al: "align_input_offset sid p (put_dev p d2 w) = Some w'" and rc: "rc = 0"
      using add fmt by (auto simp: create_and_add_def bind_eq_Some_conv)
    have "attach_inv D (put_dev p d2 w) \<and> attached (put_dev p d2 w) = insert (p, sid) (attached w)"
      using append_new_attached [OF inv p new _ _ Some d2] k by simp
    then show ?thesis using align_offset_attached [OF _ al, of D] rc by simp
  qed
qed

lemma append_to_dev_attached:
  assumes drv: "thread_driver (te_ops env p)" and inv: "attach_inv D w" and p: "p \<in> D" and new: "(p, sid) \<notin> attached w"
    and app: "append_to_dev env sid p cb w = Some (rc, cb', w')"
  shows "attach_inv D w' \<and> attached w' = (if rc = 0 then insert (p, sid) (attached w) else attached w)"
proof -
  obtain rc0 d0 where f: "(if direction (aw_stream w sid) = CRAS_STREAM_INPUT \<and> io_streams (get_dev p w) = []
      then op_flush_buffer (te_ops env p) (get_dev p w) else (0, get_dev p w)) = (rc0, d0)" by (metis prod.exhaust)
  have c0: "dev_core d0 = dev_core (get_dev p w)"
    using f driver_only_core [OF thread_driver.flush_driver [OF drv]] by (auto split: if_splits)
  have same: "attach_inv D (put_dev p d w) \<and> attached (put_dev p d w) = attached w" if "dev_core d = dev_core (get_dev p w)" for d
    using attach_same [OF inv] dev_coreD(3,9) [OF that] by simp
  show ?thesis
  proof (cases "rc0 < 0")
    case True
    then show ?thesis using app f same [OF c0] by (auto simp: append_to_dev_def Let_def)
  next
    case False
    then obtain r cb1 d1 where i: "init_cb_ts (te_ops env p) cb (aw_stream w sid) d0 = Some (r, cb1, d1)"
      and k: "(case r of Inl rc \<Rightarrow> Some (rc, cb1, put_dev p d1 w)
         | Inr t \<Rightarrow> map_option (\<lambda>(rc, w2). (rc, cb1, w2)) (create_and_add env sid p d1 t w)) = Some (rc, cb', w')"
      using app f unfolding append_to_dev_def Let_def by (auto simp: bind_eq_Some_conv)
    have c1: "dev_core d1 = dev_core (get_dev p w)" using thread_driver.init_cb_core [OF drv i] c0 by simp
    have "e \<noteq> 0" if "r = Inl e" for e
      using i that by (auto simp: init_cb_ts_def Let_def bind_eq_Some_conv split: if_splits option.splits prod.splits)
    then show ?thesis
      using k same [OF c1] create_and_add_attached [OF inv p new c1] by (auto split: sum.splits)
  qed
qed

lemma set_open_devs [simp]: "map od_dev (set_open ad ods) = map od_dev ods"
  by (simp add: set_open_def)

lemma find_open_mem: "find_open p ods \<noteq> None \<longleftrightarrow> p \<in> set (map od_dev ods)"
  by (auto simp: find_open_def find_None_iff)

lemma append_loop_attached:
  assumes drv: "\<And>p. thread_driver (te_ops env p)" and "attach_inv D w" and "set (map od_dev ods) \<subseteq> D"
    and "append_loop env sid ps cb (ods, w) = Some (rc, ods', w')"
  shows "attach_inv D w' \<and> map od_dev ods' = map od_dev ods \<and> attached w \<subseteq> attached w' \<and>
    attached w' \<subseteq> attached w \<union> (set ps \<inter> set (map od_dev ods)) \<times> {sid} \<and>
    (rc = 0 \<longrightarrow> (set ps \<inter> set (map od_dev ods)) \<times> {sid} \<subseteq> attached w')"
  using assms(2-4)
proof (induction ps arbitrary: cb ods w)
  case (Cons p ps)
  consider (skip) "p \<notin> set (map od_dev ods)" | (old) "(p, sid) \<in> attached w" "p \<in> set (map od_dev ods)"
    | (new) ad where "(p, sid) \<notin> attached w" "p \<in> set (map od_dev ods)" "find_open p ods = Some ad"
    using find_open_mem [of p ods] by blast
  then show ?case
  proof cases
    case skip
    then have "append_loop env sid ps cb (ods, w) = Some (rc, ods', w')"
      using Cons.prems(3) find_open_mem [of p ods] by simp
    from Cons.IH [OF Cons.prems(1,2) this] skip show ?thesis by auto
  next
    case old
    then have "append_loop env sid ps cb (ods, w) = Some (rc, ods', w')"
      using Cons.prems(3) find_open_mem [of p ods] by (auto simp: attached_def split: if_splits)
    from Cons.IH [OF Cons.prems(1,2) this] old show ?thesis by auto
  next
    case new
    define ods1 where "ods1 = (if io_streams (aw_dev w p) = []
      then set_open (ad\<lparr>od_last_wake := Timespec 0 0, od_longest_wake := Timespec 0 0\<rparr>) ods else ods)"
    have o: "map od_dev ods1 = map od_dev ods" by (simp add: ods1_def)
    obtain rc1 cb1 w1 where w1: "append_to_dev env sid p cb w = Some (rc1, cb1, w1)"
      and rest: "(if rc1 \<noteq> 0 then Some (rc1, ods1, w1) else append_loop env sid ps cb1 (ods1, w1)) = Some (rc, ods', w')"
      using Cons.prems(3) new(1,3) by (auto simp: attached_def bind_eq_Some_conv Let_def simp flip: ods1_def)
    have a1: "attach_inv D w1 \<and> attached w1 = (if rc1 = 0 then insert (p, sid) (attached w) else attached w)"
      using append_to_dev_attached [OF drv Cons.prems(1) _ new(1) w1] new(2) Cons.prems(2) by blast
    show ?thesis
    proof (cases "rc1 = 0")
      case True
      then show ?thesis using Cons.IH [of w1 ods1 cb1] rest a1 o new(2) Cons.prems(2) by auto
    qed (use rest a1 o in auto)
  qed
qed simp

lemma append_stream_attached:
  assumes drv: "\<And>p. thread_driver (te_ops env p)" and inv: "attach_inv D w" and open_D: "set (map od_dev ods) \<subseteq> D"
    and app: "dev_io_append_stream env sid ps (ods, w) = Some (rc, ods', w')"
  shows "attach_inv D w' \<and> map od_dev ods' = map od_dev ods \<and>
    attached w' = (if rc = 0 then attached w \<union> (set ps \<inter> set (map od_dev ods)) \<times> {sid} else attached w - set (map od_dev ods) \<times> {sid})"
proof -
  obtain rc1 ods1 w1 where l: "append_loop env sid ps None (ods, w) = Some (rc1, ods1, w1)"
    and k: "(if rc1 = 0 then Some (0, ods1, w1) else map_option (\<lambda>w'. (rc1, ods1, w'))
      (delete_from_devs env sid (filter (\<lambda>p. sid \<in> set (dev_sids (aw_dev w1 p))) (map od_dev ods1)) w1)) = Some (rc, ods', w')"
    using app by (auto simp: dev_io_append_stream_def bind_eq_Some_conv)
  note a = append_loop_attached [OF drv inv open_D l]
  show ?thesis
  proof (cases "rc1 = 0")
    case True
    then show ?thesis using a k by auto
  next
    case False
    let ?qs = "filter (\<lambda>p. sid \<in> set (dev_sids (aw_dev w1 p))) (map od_dev ods1)"
    have d: "delete_from_devs env sid ?qs w1 = Some w'" and eq: "rc = rc1" "ods' = ods1" using False k by auto
    have qs: "set ?qs = {p \<in> set (map od_dev ods). (p, sid) \<in> attached w1}" using a by (auto simp: attached_def)
    have "attach_inv D w' \<and> attached w' = attached w1 - set ?qs \<times> {sid}"
      by (rule delete_from_devs_attached [OF thread_driver.axioms(1) [OF drv] _ _ d]) (use a qs open_D in auto)
    moreover have "attached w1 - set ?qs \<times> {sid} = attached w - set (map od_dev ods) \<times> {sid}" using a unfolding qs by auto
    ultimately show ?thesis using False a eq by simp
  qed
qed

section \<open>The abstract operations\<close>

datatype attach_op = Append_stream u32 "nat list" | Remove_stream u32 "nat option" | Rm_open_dev nat

fun run_attach_op :: "('h, 'p, 's) thread_env \<Rightarrow> attach_op \<Rightarrow> open_dev list \<times> 'h audio_world \<Rightarrow>
    (int \<times> open_dev list \<times> 'h audio_world) option" where
  "run_attach_op env (Append_stream sid ps) st = dev_io_append_stream env sid ps st"
| "run_attach_op env (Remove_stream sid p) st = map_option (\<lambda>w. (0, fst st, w)) (dev_io_remove_stream env (fst st) sid p (snd st))"
| "run_attach_op env (Rm_open_dev p) st = map_option (Pair 0) (dev_io_rm_open_dev env p st)"

text \<open>On the set of open devices and the relation: the result says whether attaching succeeded.\<close>

fun abs_attach_op :: "attach_op \<Rightarrow> int \<Rightarrow> nat set \<times> (nat \<times> u32) set \<Rightarrow> nat set \<times> (nat \<times> u32) set" where
  "abs_attach_op (Append_stream sid ps) rc (P, A) = (P, if rc = 0 then A \<union> (set ps \<inter> P) \<times> {sid} else A - P \<times> {sid})"
| "abs_attach_op (Remove_stream sid p) rc (P, A) = (P, A - (case p of None \<Rightarrow> P | Some q \<Rightarrow> {q}) \<times> {sid})"
| "abs_attach_op (Rm_open_dev p) rc (P, A) = (P - {p}, if p \<in> P then A - {p} \<times> UNIV else A)"

fun op_devices :: "attach_op \<Rightarrow> nat set" where
  "op_devices (Remove_stream sid (Some p)) = {p}"
| "op_devices _ = {}"

definition attach_abs :: "open_dev list \<times> 'h audio_world \<Rightarrow> nat set \<times> (nat \<times> u32) set" where
  "attach_abs st = (od_dev ` set (fst st), attached (snd st))"

lemma attach_op_refines:
  assumes drv: "\<And>p. thread_driver (te_ops env p)" and inv: "attach_inv D (snd st)" and D: "od_dev ` set (fst st) \<subseteq> D" "op_devices a \<subseteq> D"
    and run: "run_attach_op env a st = Some (rc, st')"
  shows "attach_inv D (snd st') \<and> od_dev ` set (fst st') \<subseteq> D \<and> attach_abs st' = abs_attach_op a rc (attach_abs st)"
proof -
  note srv = thread_driver.axioms(1) [OF drv]
  obtain ods w ods' w' where st: "st = (ods, w)" "st' = (ods', w')" by (metis prod.exhaust)
  show ?thesis
  proof (cases a)
    case (Append_stream sid ps)
    then have "dev_io_append_stream env sid ps (ods, w) = Some (rc, ods', w')" using run st by simp
    note k = append_stream_attached [OF drv _ _ this, of D]
    have "od_dev ` set ods' = od_dev ` set ods" using k inv D st by (metis fst_conv list.set_map snd_conv)
    then show ?thesis using k inv D st Append_stream by (auto simp: attach_abs_def)
  next
    case (Remove_stream sid p)
    then have r: "dev_io_remove_stream env ods sid p w = Some w'" "ods' = ods" using run st by auto
    have "\<And>q. p = Some q \<Longrightarrow> q \<in> D" using D(2) Remove_stream by auto
    then show ?thesis using remove_stream_attached [OF srv _ _ _ r(1), of D] inv D st r(2) Remove_stream by (auto simp: attach_abs_def)
  next
    case (Rm_open_dev p)
    then have "dev_io_rm_open_dev env p (ods, w) = Some (ods', w')" using run st by simp
    note k = rm_open_dev_attached [OF srv _ _ this, of D]
    have "od_dev ` set ods' = od_dev ` set ods - {p}" using k inv D st by auto
    then show ?thesis using k inv D st Rm_open_dev by (auto simp: attach_abs_def)
  qed
qed

fun run_attach_ops :: "('h, 'p, 's) thread_env \<Rightarrow> attach_op list \<Rightarrow> open_dev list \<times> 'h audio_world \<Rightarrow>
    (int list \<times> open_dev list \<times> 'h audio_world) option" where
  "run_attach_ops env [] st = Some ([], st)"
| "run_attach_ops env (a # ops) st =
     do { (rc, st1) \<leftarrow> run_attach_op env a st; (rcs, st2) \<leftarrow> run_attach_ops env ops st1; Some (rc # rcs, st2) }"

fun abs_attach_ops :: "attach_op list \<Rightarrow> int list \<Rightarrow> nat set \<times> (nat \<times> u32) set \<Rightarrow> nat set \<times> (nat \<times> u32) set" where
  "abs_attach_ops (a # ops) (rc # rcs) X = abs_attach_ops ops rcs (abs_attach_op a rc X)"
| "abs_attach_ops _ _ X = X"

text \<open>The silent device keeps the contract.\<close>

lemma flush_buffer_only: "flush_buffer dev = (rc, d) \<Longrightarrow> driver_only dev d"
proof -
  assume "flush_buffer dev = (rc, d)"
  then have "\<exists>f g. d = priv_update g (snd (read_clock (priv_update f dev)))" by (auto simp: flush_buffer_def case_prod_beta Let_def)
  then show ?thesis using driver_only_trans [OF driver_only_trans [OF priv_update_driver read_clock_driver] priv_update_driver] by auto
qed

interpretation empty_thread: thread_driver "empty_ops env sys" for env sys
  by unfold_locales (auto simp: empty_ops_def empty_base_ops_def Let_def dest: flush_buffer_only)

definition idle_stream :: "u32 \<Rightarrow> nat cras_rstream" where
  "idle_stream sid =
     \<lparr>stream_id = sid, stream_type = 0, client_type = 0, direction = CRAS_STREAM_INPUT, flags = 0, fd = 5,
      buffer_frames = 480, cb_threshold = 240, is_draining = 0, master_dev = \<lparr>m_dev_id = NO_DEVICE, m_dev_ptr = None\<rparr>,
      client = 1, shm = sample_shm 0, rs_format = stereo_16, next_cb_ts = Timespec 0 0,
      sleep_interval_ts = Timespec 0 0, last_fetch_ts = Timespec 0 0, longest_fetch_interval = Timespec 0 0,
      start_ts = Timespec 0 0, first_missed_cb_ts = Timespec 0 0, buf_state = buffer_share_create 480,
      num_attached_devs = 0, num_missed_cb = 0, queued_frames = 0, is_pinned = False, pinned_dev_idx = 0, triggered = False\<rparr>"

definition idle_thread_env :: "(empty_iodev, unit, nat) thread_env" where
  "idle_thread_env = \<lparr>te_iodev = mic_env, te_ops = (\<lambda>p. empty_ops mic_env fresh_state), te_sys = fresh_state,
     te_conv = \<lparr>conv_alloc = True, matrix_alloc = True, speex_init = True, resampler_alloc = True, tmp_alloc = True\<rparr>,
     te_dbl = (\<lambda>x. x), te_speex = (\<lambda>n m. (n, m)), te_now = mic_clock, te_write = (\<lambda>_. 1), te_flush = (\<lambda>_. (1, \<lambda>_. \<lparr>poll_rc = 0, pollin = False,
       readable = ReadError 11\<rparr>)), te_send = (\<lambda>_. 0), te_buffer = (\<lambda>_. []), te_apm = (\<lambda>_ _. None), te_ppfmt = (\<lambda>_ _. None),
     te_rs_area = (\<lambda>_. cras_audio_area_create 2), te_rate_check = (\<lambda>_. False), te_est_rate = (\<lambda>_. 48000),
     te_junk = (\<lambda>_. \<lparr>used = False, dev_id = 0, offset = 0, data = None\<rparr>)\<rparr>"

definition idle_world :: "empty_iodev audio_world" where
  "idle_world = \<lparr>aw_dev = (\<lambda>p. (the (empty_iodev_create mic_clock CRAS_STREAM_INPUT CRAS_NODE_TYPE_MIC))\<lparr>io_format := Some stereo_16\<rparr>),
     aw_stream = idle_stream, aw_io = (0, []), aw_pic_now = Timespec 0 0, aw_non_empty_count = 0\<rparr>"

definition idle_open :: open_dev where
  "idle_open = \<lparr>od_dev = 0, od_last_wake = Timespec 0 0, od_longest_wake = Timespec 0 0, od_wake_ts = Timespec 0 0,
     od_non_empty_check_pi = None, od_empty_pi = None, od_coarse_rate_adjust = 0\<rparr>"

lemma bs_lookup_create: "bs_lookup (wr_idx (buffer_share_create sz)) i = None"
  by (auto simp: bs_lookup_None buffer_share_create_def)

lemma idle_attach_inv: "attach_inv {0} idle_world" "attached idle_world = {}"
proof -
  have "rs_inv (idle_stream sid)" "dev_table (idle_stream sid) = (\<lambda>_. None)" for sid
    by (simp_all add: rs_inv_def idle_stream_def dev_table_def [abs_def] bs_inv_create bs_lookup_create)
  then show "attach_inv {0} idle_world" "attached idle_world = {}"
    by (auto simp: attach_inv_def idle_world_def idle_stream_def attached_def empty_iodev_create_def cras_iodev_set_active_node_def
        cras_iodev_add_node_def log_event_def)
qed

text \<open>Claim C10.  Whatever sequence of streams is attached, detached and of devices is removed, and whether attaching
  succeeds or fails, the lists of the devices and the tables of the streams stay the same relation, and the relation and the set of
  open devices are those of the abstract operations: attaching adds the stream to all the open devices it was given or, when it fails,
  leaves it on none of them; removing takes it off one device or all; a removed device loses all its streams.\<close>

theorem attachments_refine:
  assumes drv: "\<And>p. thread_driver (te_ops env p)" and "attach_inv D (snd st)" and "od_dev ` set (fst st) \<subseteq> D"
    and "\<forall>a \<in> set ops. op_devices a \<subseteq> D" and "run_attach_ops env ops st = Some (rcs, st')"
  shows "attach_inv D (snd st') \<and> attach_abs st' = abs_attach_ops ops rcs (attach_abs st)"
  using assms(2-)
proof (induction ops arbitrary: st rcs)
  case (Cons a ops)
  then obtain rc st1 rcs' where s: "run_attach_op env a st = Some (rc, st1)" "run_attach_ops env ops st1 = Some (rcs', st')" "rcs = rc # rcs'"
    by (auto simp: bind_eq_Some_conv)
  have "op_devices a \<subseteq> D" using Cons.prems(3) by simp
  note k = attach_op_refines [OF drv Cons.prems(1,2) this s(1)]
  then show ?case using Cons.IH [OF _ _ _ s(2)] Cons.prems(3) s(3) by simp
qed simp

theorem attachments_refine_witness:
  "\<exists>st'. run_attach_ops idle_thread_env [Append_stream 7 [0], Append_stream 8 [0], Remove_stream 7 None] ([idle_open], idle_world) = Some ([0, 0, 0], st') \<and>
     attached (snd st') = {(0, 8)}"
proof -
  let ?ops = "[Append_stream 7 [0], Append_stream 8 [0], Remove_stream 7 None]"
  have "map_option fst (run_attach_ops idle_thread_env ?ops ([idle_open], idle_world)) = Some [0, 0, 0]" by code_simp
  then obtain st' where r: "run_attach_ops idle_thread_env ?ops ([idle_open], idle_world) = Some ([0, 0, 0], st')" by auto
  have "attach_abs st' = abs_attach_ops ?ops [0, 0, 0] (attach_abs ([idle_open], idle_world))"
    using attachments_refine [OF _ _ _ _ r, of "{0}"] idle_attach_inv
    by (simp add: idle_thread_env_def empty_thread.thread_driver_axioms idle_open_def)
  then show ?thesis using r by (simp add: attach_abs_def idle_attach_inv idle_open_def insert_Diff_if)
qed

end
