(* ===== verification/Thread_Frame.thy ===== *)
theory Thread_Frame
  imports Dev_Capture Stream_Attach
begin

text \<open>
  What serving the devices leaves alone.  Playing and capturing never attach a stream, and detach one only through
  the operations of \<open>Stream_Attach\<close>: each operation of \<open>Dev_Playback\<close> and \<open>Dev_Capture\<close> keeps the agreement of the lists of the
  devices with the tables of the streams, and the relation can only lose pairs.
\<close>

section \<open>Operations on one device\<close>

definition dev_keeps :: "('d, 'h) cras_iodev \<Rightarrow> ('d, 'h) cras_iodev \<Rightarrow> bool" where
  "dev_keeps dev d \<longleftrightarrow> io_idx d = io_idx dev \<and> io_direction d = io_direction dev \<and>
     ((\<forall>ds \<in> set (io_streams dev). rs_inv (ds_stream ds)) \<longrightarrow> map ds_view (io_streams d) = map ds_view (io_streams dev))"

lemma views_rs_inv:
  assumes "map ds_view xs = map ds_view ys" "\<forall>ds \<in> set ys. rs_inv (ds_stream ds)"
  shows "\<forall>ds \<in> set xs. rs_inv (ds_stream ds)"
proof
  fix ds assume "ds \<in> set xs"
  then obtain ds' where "ds' \<in> set ys" "ds_view ds = ds_view ds'" using views_mem [OF assms(1)] by blast
  then show "rs_inv (ds_stream ds)" using assms(2) by (auto simp: stream_view_eq)
qed

lemma dev_keeps_refl [simp]: "dev_keeps dev dev"
  by (simp add: dev_keeps_def)

lemma dev_keeps_trans:
  assumes "dev_keeps a b" "dev_keeps b c"
  shows "dev_keeps a c"
  unfolding dev_keeps_def
proof (intro conjI impI)
  assume "\<forall>ds \<in> set (io_streams a). rs_inv (ds_stream ds)"
  then have "map ds_view (io_streams b) = map ds_view (io_streams a)" "\<forall>ds \<in> set (io_streams b). rs_inv (ds_stream ds)"
    using assms(1) views_rs_inv [of "io_streams b" "io_streams a"] unfolding dev_keeps_def by blast+
  then show "map ds_view (io_streams c) = map ds_view (io_streams a)"
    using assms(2) unfolding dev_keeps_def by argo
qed (use assms in \<open>simp_all add: dev_keeps_def\<close>)

lemma dev_core_keeps: "dev_core d = dev_core dev \<Longrightarrow> dev_keeps dev d"
  by (simp add: dev_keeps_def dev_core_def)

lemma streams_keep:
  assumes "(\<forall>ds \<in> set (io_streams dev). rs_inv (ds_stream ds)) \<Longrightarrow> map ds_view ss = map ds_view (io_streams dev)"
  shows "dev_keeps dev (dev\<lparr>io_streams := ss\<rparr>)"
  using assms by (simp add: dev_keeps_def)

lemma same_streams_keep: "io_idx d = io_idx dev \<Longrightarrow> io_direction d = io_direction dev \<Longrightarrow> io_streams d = io_streams dev \<Longrightarrow> dev_keeps dev d"
  by (simp add: dev_keeps_def)

lemma each_stream_views:
  assumes "each_stream f dss a = Some (ss, b)" "\<forall>ds \<in> set dss. rs_inv (ds_stream ds)"
    and "\<And>ds a ds' b. rs_inv (ds_stream ds) \<Longrightarrow> f ds a = Some (ds', b) \<Longrightarrow> ds_view ds' = ds_view ds"
  shows "map ds_view ss = map ds_view dss"
  using assms(1,2)
proof (induction dss arbitrary: a ss)
  case (Cons ds dss)
  then obtain ds' a1 rest where "f ds a = Some (ds', a1)" "each_stream f dss a1 = Some (rest, b)" "ss = ds' # rest"
    by (auto simp: bind_eq_Some_conv)
  then show ?case using Cons.IH [of a1 rest] Cons.prems(2) assms(3) by auto
qed simp

section \<open>Operations on one stream\<close>

lemma upd_view: "stream_view s = stream_view (ds_stream ds) \<Longrightarrow> ds_view (ds\<lparr>ds_stream := s\<rparr>) = ds_view ds"
  by simp

lemma offset_update_view: "rs_inv s \<Longrightarrow> stream_view (cras_rstream_dev_offset_update n i s) = stream_view s"
  using rs_inv_offset_update [of s] dev_table_offset_update [of s] by (simp add: stream_view_eq cras_rstream_dev_offset_update_def)

lemma commit_view:
  assumes "rs_inv s"
  shows "stream_view (cras_rstream_update_output_read_pointer s) = stream_view s" "stream_view (cras_rstream_update_input_write_pointer s) = stream_view s"
proof -
  have v: "stream_view (s\<lparr>buf_state := snd (buffer_share_get_new_write_point (buf_state s)), shm := x\<rparr>) = stream_view s" for x
    unfolding stream_view_eq dev_table_new_write_point using rs_inv_new_write_point [OF assms] assms by simp
  then show "stream_view (cras_rstream_update_output_read_pointer s) = stream_view s" "stream_view (cras_rstream_update_input_write_pointer s) = stream_view s"
    by (simp_all only: cras_rstream_update_output_read_pointer_def cras_rstream_update_input_write_pointer_def case_prod_beta Let_def)
qed

lemma queued_view [simp]: "stream_view (cras_rstream_update_queued_frames s) = stream_view s"
  by (simp add: cras_rstream_update_queued_frames_def Let_def)

lemma reply_views [simp]: "stream_view (set_pending_reply s) = stream_view s" "stream_view (clear_pending_reply s) = stream_view s"
  by (simp_all add: set_pending_reply_def clear_pending_reply_def)

lemma client_message_view: "read_and_handle_client_message r s = (rc, s') \<Longrightarrow> stream_view s' = stream_view s"
  by (auto simp: read_and_handle_client_message_def Let_def split: prod.splits if_splits option.splits)

lemma flush_loop_view: "flush_loop fuel world s = Some s' \<Longrightarrow> stream_view s' = stream_view s"
proof (induction fuel arbitrary: world s)
  case (Suc fuel)
  obtain err s1 where r: "(if pollin (world 0) then read_and_handle_client_message (readable (world 0)) s else (poll_rc (world 0), s)) = (err, s1)"
    by (metis prod.exhaust)
  then have "stream_view s1 = stream_view s" by (auto split: if_splits dest: client_message_view)
  moreover have "stream_view s' = stream_view s1" using Suc r by (auto simp: Let_def split: if_splits)
  ultimately show ?case by simp
qed simp

lemma flush_view: "cras_rstream_flush_old_audio_messages fuel world s = Some (rc, s') \<Longrightarrow> stream_view s' = stream_view s"
  by (auto simp: cras_rstream_flush_old_audio_messages_def split: if_splits dest: flush_loop_view)

lemma dev_flush_view: "dev_stream_flush_old_audio_messages env t ds = Some ds' \<Longrightarrow> ds_view ds' = ds_view ds"
  by (auto simp: dev_stream_flush_old_audio_messages_def dest: flush_view)

lemma next_wake_view [simp]: "stream_view (dev_stream_update_next_wake_time a b s) = stream_view s"
  by (simp add: dev_stream_update_next_wake_time_def check_next_wake_time_def cras_server_metrics_missed_cb_event_def Let_def)

lemma record_interval_view [simp]: "stream_view (cras_rstream_record_fetch_interval now s) = stream_view s"
  by (simp add: cras_rstream_record_fetch_interval_def Let_def)

lemma set_delay_view [simp]: "stream_view (ds_stream (dev_stream_set_delay rnd now n ds)) = stream_view (ds_stream ds)"
  "ds_dev_id (dev_stream_set_delay rnd now n ds) = ds_dev_id ds"
  by (simp_all add: dev_stream_set_delay_def Let_def)

lemma request_view: "dev_stream_request_playback_samples a b c rc0 s = (rc, msg, s') \<Longrightarrow> stream_view s' = stream_view s"
  by (auto simp: dev_stream_request_playback_samples_def cras_rstream_request_audio_def Let_def split: if_splits)

lemma audio_ready_view: "cras_rstream_audio_ready rc0 n s = (rc, msg, s') \<Longrightarrow> stream_view s' = stream_view s"
  by (auto simp: cras_rstream_audio_ready_def Let_def split: if_splits)

lemma capture_update_view:
  assumes "rs_inv s" "dev_stream_capture_update_rstream a b c rc0 s = (rc, msg, s')"
  shows "stream_view s' = stream_view s"
proof -
  note v = commit_view(2) [OF assms(1)]
  show ?thesis using assms(2) by (auto simp: dev_stream_capture_update_rstream_def Let_def v split: if_splits prod.splits dest!: audio_ready_view)
qed

lemma set_dev_rate_view [simp]: "stream_view (ds_stream (dev_stream_set_dev_rate rnd dbl rate r m c ds)) = stream_view (ds_stream ds)"
  "ds_dev_id (dev_stream_set_dev_rate rnd dbl rate r m c ds) = ds_dev_id ds"
  by (simp_all add: dev_stream_set_dev_rate_def Let_def)

lemma mix_round_stream: "mix_round rnd speex pw fmt num src frames m = Some m' \<Longrightarrow>
    ds_stream (ms_ds m') = ds_stream (ms_ds m) \<and> ds_dev_id (ms_ds m') = ds_dev_id (ms_ds m)"
  by (auto simp: mix_round_def Let_def bind_eq_Some_conv split: if_splits)

lemma mix_loop_stream:
  assumes "mix_loop rnd speex pw fmt num offs m = Some m'"
  shows "ds_stream (ms_ds m') = ds_stream (ms_ds m) \<and> ds_dev_id (ms_ds m') = ds_dev_id (ms_ds m)"
proof (rule mix_loop.raw_induct [where P = "\<lambda>rnd speex pw fmt num offs m m'. ds_stream (ms_ds m') = ds_stream (ms_ds m) \<and>
    ds_dev_id (ms_ds m') = ds_dev_id (ms_ds m)", OF _ assms])
  fix f :: "rounding \<Rightarrow> (u32 \<Rightarrow> u32 \<Rightarrow> u32 \<times> u32) \<Rightarrow> (snd_pcm_format \<Rightarrow> nat) \<Rightarrow> cras_audio_format \<Rightarrow> u32 \<Rightarrow> u32 \<Rightarrow> 'a mix_state \<Rightarrow> 'a mix_state option"
    and rnd speex pw fmt num offs m m'
  assume ih: "\<And>rnd speex pw fmt num offs m m'. f rnd speex pw fmt num offs m = Some m' \<Longrightarrow>
      ds_stream (ms_ds m') = ds_stream (ms_ds m) \<and> ds_dev_id (ms_ds m') = ds_dev_id (ms_ds m)"
    and "(if \<not> ms_written m < num then Some m
      else let r = cras_rstream_get_readable_frames (ds_stream (ms_ds m)) (offs + ms_read m)
        in if snd r = 0 then Some m else do { m' \<leftarrow> mix_round rnd speex pw fmt num (fst r) (snd r) m; f rnd speex pw fmt num offs m' }) = Some m'"
  then show "ds_stream (ms_ds m') = ds_stream (ms_ds m) \<and> ds_dev_id (ms_ds m') = ds_dev_id (ms_ds m)"
    by (auto simp: Let_def bind_eq_Some_conv split: if_splits dest!: mix_round_stream)
qed

lemma mix_view:
  assumes "rs_inv (ds_stream ds)" "dev_stream_mix rnd speex pw fmt num ds = Some (n, calls, ds')"
  shows "ds_view ds' = ds_view ds"
proof (cases "dev_stream_playback_frames rnd ds \<le> 0")
  case False
  then obtain m n0 offs where m: "mix_loop rnd speex pw fmt n0 offs \<lparr>ms_ds = ds, ms_written = 0, ms_read = 0, ms_target = 0, ms_calls = []\<rparr> = Some m"
    and ds': "ds' = (ms_ds m)\<lparr>ds_stream := cras_rstream_dev_offset_update (ms_read m) (ds_dev_id ds) (ds_stream (ms_ds m))\<rparr>"
    using assms(2) by (auto simp: dev_stream_mix_def Let_def)
  show ?thesis using mix_loop_stream [OF m] offset_update_view [OF assms(1)] by (simp add: ds')
qed (use assms(2) in \<open>simp add: dev_stream_mix_def\<close>)

lemma copy_loop_view:
  assumes "copy_loop i fb num (buf, s, cps) tot = Some (buf', s', cps')" "rs_inv s"
  shows "stream_view s' = stream_view s"
proof -
  have "rs_inv (fst (snd st)) \<longrightarrow> stream_view (fst (snd st')) = stream_view (fst (snd st))" if "copy_loop i fb num st tot = Some st'"
    for st st' :: "byte_buffer \<times> 'a cras_rstream \<times> conv_copy list" and tot
  proof (rule copy_loop.raw_induct [where P = "\<lambda>i fb num st tot st'. rs_inv (fst (snd st)) \<longrightarrow> stream_view (fst (snd st')) = stream_view (fst (snd st))", OF _ that])
    fix f :: "u32 \<Rightarrow> u32 \<Rightarrow> u32 \<Rightarrow> byte_buffer \<times> 'a cras_rstream \<times> conv_copy list \<Rightarrow> u32 \<Rightarrow> (byte_buffer \<times> 'a cras_rstream \<times> conv_copy list) option"
      and i fb num st tot st'
    assume ih: "\<And>i fb num st tot st'. f i fb num st tot = Some st' \<Longrightarrow> rs_inv (fst (snd st)) \<longrightarrow> stream_view (fst (snd st')) = stream_view (fst (snd st))"
      and r: "(if \<not> tot < num then Some st
      else let (buf, s, cps) = st; (pos, avail) = buf_read_pointer_size buf; write_frames = min (avail div fb) (num - tot);
               cp = \<lparr>cc_src = pos, cc_offset = cras_rstream_dev_offset s i, cc_frames = write_frames\<rparr>
        in f i fb num (buf_increment_read buf (ucast (write_frames * fb)), cras_rstream_dev_offset_update write_frames i s, cps @ [cp])
             (tot + write_frames)) = Some st'"
    obtain buf s cps where st: "st = (buf, s, cps)" by (metis prod_cases3)
    show "rs_inv (fst (snd st)) \<longrightarrow> stream_view (fst (snd st')) = stream_view (fst (snd st))"
    proof
      assume inv: "rs_inv (fst (snd st))"
      then have v: "rs_inv (cras_rstream_dev_offset_update n i s)" "stream_view (cras_rstream_dev_offset_update n i s) = stream_view s" for n
        using rs_inv_offset_update offset_update_view by (auto simp: st)
      show "stream_view (fst (snd st')) = stream_view (fst (snd st))"
        using r v by (auto simp: st Let_def case_prod_beta split: if_splits dest!: ih)
    qed
  qed
  from this [OF assms(1)] assms(2) show ?thesis by simp
qed

lemma capture_view:
  assumes inv: "rs_inv (ds_stream ds)" and c: "dev_stream_capture rnd speex pw ra da offs ds = Some (n, eff, ds')"
  shows "ds_view ds' = ds_view ds"
proof -
  obtain cv where cv: "ds_conv ds = Some cv" using c by (auto simp: dev_stream_capture_def bind_eq_Some_conv)
  show ?thesis
  proof (cases "cras_fmt_conversion_needed cv")
    case True
    then obtain m ds1 w cps where 1: "capture_with_fmt_conv rnd speex pw m ds = Some (n, ds1)"
      and 2: "capture_copy_converted_to_stream pw ds1 = Some (w, cps, ds')"
      using c cv by (auto simp: dev_stream_capture_def bind_eq_Some_conv Let_def)
    have "ds_stream ds1 = ds_stream ds" "ds_dev_id ds1 = ds_dev_id ds"
      using 1 by (auto simp: capture_with_fmt_conv_def bind_eq_Some_conv Let_def)
    then show ?thesis using 2 inv copy_loop_view by (fastforce simp: capture_copy_converted_to_stream_def bind_eq_Some_conv Let_def)
  next
    case False
    then show ?thesis using c cv offset_update_view [OF inv] by (auto simp: dev_stream_capture_def Let_def split: prod.splits)
  qed
qed

section \<open>The loops over the streams\<close>

lemma request_samples_view: "request_samples env now delay ds io = (ds', io') \<Longrightarrow> ds_view ds' = ds_view ds"
  by (auto simp: request_samples_def Let_def split: prod.splits dest!: request_view)

lemma fetch_stream_view:
  assumes "fetch_stream env delay ds io = Some (ds', io')"
  shows "ds_view ds' = ds_view ds"
proof -
  obtain ds1 where ds1: "(if dev_stream_is_pending_reply ds
         then map_option (\<lambda>d. d\<lparr>ds_stream := cras_rstream_record_fetch_interval (te_now env (fst io)) (ds_stream d)\<rparr>)
           (dev_stream_flush_old_audio_messages env (fst io) ds) else Some ds) = Some ds1"
    and k: "ds' = ds1 \<or> fetch_due_stream env (te_now env (fst io)) delay ds1 (later 1 io) = (ds', io')"
    using assms by (auto simp: fetch_stream_def Let_def bind_eq_Some_conv split: if_splits)
  have "ds_view ds1 = ds_view ds" using ds1 by (auto split: if_splits dest!: dev_flush_view)
  moreover have "ds_view ds' = ds_view ds1" using k
    by (auto simp: fetch_due_stream_def Let_def split: if_splits dest!: request_samples_view)
  ultimately show ?thesis by simp
qed

lemma capture_stream_view:
  assumes "rs_inv (ds_stream ds)" "capture_stream env p dev ds acc = Some (ds', acc')"
  shows "ds_view ds' = ds_view ds"
proof -
  have "ds' = ds \<or> (\<exists>ra da offs n eff. dev_stream_capture (env_round env) (te_speex env) (env_widths env) ra da offs ds = Some (n, eff, ds'))"
    using assms(2) by (auto simp: capture_stream_def Let_def bind_eq_Some_conv split: if_splits stream_input.splits) (metis stream_input.exhaust)+
  then show ?thesis using capture_view [OF assms(1)] by auto
qed

lemma small_stream_views:
  "flush_stream env ds io = Some (ds', io') \<Longrightarrow> ds_view ds' = ds_view ds"
  "set_stream_delay env delay ds io = Some (ds', io') \<Longrightarrow> ds_view ds' = ds_view ds"
  "stream_limit_step env ds lims = Some (ds', lims') \<Longrightarrow> ds_view ds' = ds_view ds"
  "rs_inv (ds_stream ds) \<Longrightarrow> post_stream env ds io = Some (ds', io') \<Longrightarrow> ds_view ds' = ds_view ds"
  by (auto simp: flush_stream_def set_stream_delay_def stream_limit_step_def post_stream_def Let_def bind_eq_Some_conv
      split: if_splits prod.splits dest!: dev_flush_view capture_update_view)

section \<open>Device operations\<close>

lemma playback_loop_views: "playback_frames_loop rnd n dss = (m, ss) \<Longrightarrow> map ds_view ss = map ds_view dss"
proof (induction dss arbitrary: n m ss)
  case (Cons ds dss)
  show ?case using Cons.prems
    by (auto simp: Let_def dev_stream_update_frames_def split: if_splits prod.splits dest!: Cons.IH)
qed simp

lemma dev_playback_frames_keeps: "dev_playback_frames env dev = (n, d) \<Longrightarrow> dev_keeps dev d"
  by (auto simp: dev_playback_frames_def split: prod.splits dest!: playback_loop_views intro!: streams_keep)

lemma log_event_keeps [simp]: "dev_keeps dev (log_event e dev)" "dev_keeps dev (log_event e d) \<longleftrightarrow> dev_keeps dev d"
  by (simp_all add: dev_keeps_def log_event_def)

lemma update_rate_keeps: "cras_iodev_update_rate check lv t dev = Some (b, d) \<Longrightarrow> dev_keeps dev d"
  by (auto simp: cras_iodev_update_rate_def bind_eq_Some_conv Let_def split: if_splits)

lemma update_estimated_rate_keeps:
  assumes "update_estimated_rate env ad devs dev = Some d"
  shows "dev_keeps dev d"
proof -
  obtain ss u where e: "each_stream (\<lambda>ds u. case m_dev_ptr (master_dev (ds_stream ds)) of None \<Rightarrow> Some (ds, u)
          | Some m \<Rightarrow> do {
              fmt \<leftarrow> io_format dev;
              r \<leftarrow> cras_iodev_get_est_rate_ratio (te_dbl env) (te_est_rate env) dev;
              rm \<leftarrow> cras_iodev_get_est_rate_ratio (te_dbl env) (te_est_rate env) (if m = od_dev ad then dev else devs m);
              Some (dev_stream_set_dev_rate (env_round env) (te_dbl env) (ucast (frame_rate fmt)) r rm (od_coarse_rate_adjust ad) ds, u) })
        (io_streams dev) () = Some (ss, u)" and d: "d = dev\<lparr>io_streams := ss\<rparr>"
    using assms by (auto simp: update_estimated_rate_def)
  show ?thesis unfolding d
    by (rule streams_keep, rule each_stream_views [OF e]) (auto simp: bind_eq_Some_conv split: option.splits)
qed

lemma check_rate_keeps: "check_rate env lv t devs (ad, dev) = Some (ad', d) \<Longrightarrow> dev_keeps dev d \<and> od_dev ad' = od_dev ad"
  by (auto simp: check_rate_def Let_def bind_eq_Some_conv split: if_splits
      intro: dev_keeps_trans dest!: update_rate_keeps update_estimated_rate_keeps)

lemma stream_written_keeps: "cras_iodev_stream_written sid n dev = Some d \<Longrightarrow> dev_keeps dev d"
  by (auto simp: cras_iodev_stream_written_def intro: same_streams_keep)

lemma all_written_keeps: "cras_iodev_all_streams_written dev = (n, d) \<Longrightarrow> dev_keeps dev d"
  by (auto simp: cras_iodev_all_streams_written_def Let_def split: option.splits prod.splits intro: same_streams_keep)

lemma start_due_keeps: "start_due_streams env now sids dev = Some d \<Longrightarrow> dev_keeps dev d"
proof (induction sids arbitrary: dev)
  case (Cons sid sids)
  then obtain d1 where d1: "d1 = dev \<or> (\<exists>ds. cras_iodev_start_stream (te_iodev env) (te_junk env) ds dev = Some d1)"
    and r: "start_due_streams env now sids d1 = Some d" by (auto simp: bind_eq_Some_conv split: option.splits if_splits)
  have "dev_keeps dev d1"
    using d1 start_stream_views start_stream_mode [of "te_iodev env" "te_junk env" _ dev d1] by (fastforce simp: dev_keeps_def)
  then show ?case using Cons.IH [OF r] dev_keeps_trans by blast
qed simp

lemma dev_core_input_updates [simp]:
  "dev_core (dev\<lparr>io_input_frames_read := n\<rparr>) = dev_core dev" "dev_core (dev\<lparr>io_input_dsp_offset := m\<rparr>) = dev_core dev"
  by (simp_all add: dev_core_def)

lemma get_input_buffer_core:
  assumes "op_get_buffer ops k dev = (rc0, n0, a, d0)" "cras_iodev_get_input_buffer env sys ops k dev = Some (rc, n, d)"
  shows "dev_core d = dev_core d0"
proof -
  obtain dt where dt: "io_input_data dev = Some dt" using assms(2) unfolding cras_iodev_get_input_buffer_def bind_eq_Some_conv by blast
  define d2 where "d2 = d0\<lparr>io_input_data := Some (dt\<lparr>id_area := a\<rparr>), io_input_frames_read := n0\<rparr>"
  have c2: "dev_core d2 = dev_core d0" by (simp add: d2_def)
  show ?thesis
  proof (cases "rc0 < 0 \<or> n0 = 0 \<or> n0 > k")
    case True
    then show ?thesis using assms dt by (auto simp: cras_iodev_get_input_buffer_def Let_def split: if_splits)
  next
    case False
    then obtain rc2 d3 where a: "(if n0 > io_input_dsp_offset d2 then apply_dsp env (io_input_dsp_offset d2) (n0 - io_input_dsp_offset d2) d2
        else Some (rc0, d2)) = Some (rc2, d3)" and d: "d = d3 \<or> d = log_event (Muted n0) d3"
      using assms dt unfolding cras_iodev_get_input_buffer_def Let_def d2_def
      by (auto simp: bind_eq_Some_conv simp del: split_paired_Ex split: if_splits)
    have "dev_core d3 = dev_core d2" using a by (auto split: if_splits dest: apply_dsp_core)
    then show ?thesis using d c2 by auto
  qed
qed

lemma put_input_buffer_shape:
  assumes "cras_iodev_put_input_buffer ops dev = Some (rc, d)"
  shows "\<exists>n d1 e x y. d = snd (op_put_buffer ops n (log_event e (d1\<lparr>io_input_dsp_offset := x, io_input_data := y\<rparr>))) \<and> (\<exists>b. d1 = dev\<lparr>io_buf_state := b\<rparr>)"
proof -
  obtain dt n d1 where dt: "io_input_data dev = Some dt"
    and c: "(if io_streams dev \<noteq> []
         then map_option (\<lambda>b. let (n, b') = buffer_share_get_new_write_point b in (n, dev\<lparr>io_buf_state := Some b'\<rparr>)) (io_buf_state dev)
         else map_option (\<lambda>a. (area_frames a, dev)) (id_area dt)) = Some (n, d1)"
    using assms unfolding cras_iodev_put_input_buffer_def bind_eq_Some_conv by (auto simp del: split_paired_Ex)
  have "\<exists>b. d1 = dev\<lparr>io_buf_state := b\<rparr>" 
  proof (cases "io_streams dev = []")
    case True
    then have "d1 = dev\<lparr>io_buf_state := io_buf_state dev\<rparr>" using c by auto
    then show ?thesis by blast
  qed (use c in \<open>auto simp: Let_def case_prod_beta\<close>)
  moreover have "d = snd (op_put_buffer ops n (log_event (Rate_frames (sint (- n))) (d1\<lparr>io_input_dsp_offset := max (io_input_frames_read d1) (io_input_dsp_offset d1) - n,
     io_input_data := Some (input_data_set_all_streams_read n dt)\<rparr>)))"
    using assms dt c unfolding cras_iodev_put_input_buffer_def Let_def case_prod_beta by simp
  ultimately show ?thesis by blast
qed

lemma put_input_buffer_keeps:
  assumes "iodev_driver ops" "cras_iodev_put_input_buffer ops dev = Some (rc, d)"
  shows "dev_keeps dev d"
proof -
  obtain n d1 e x y b where d: "d = snd (op_put_buffer ops n (log_event e (d1\<lparr>io_input_dsp_offset := x, io_input_data := y\<rparr>)))"
    and d1: "d1 = dev\<lparr>io_buf_state := b\<rparr>" using put_input_buffer_shape [OF assms(2)] by blast
  have "dev_keeps dev (log_event e (d1\<lparr>io_input_dsp_offset := x, io_input_data := y\<rparr>))"
    using d1 by (simp add: dev_keeps_def log_event_def)
  moreover have "dev_core (snd (op_put_buffer ops n d2)) = dev_core d2" for n d2
    by (metis driver_only_core iodev_driver.put_buffer_driver [OF assms(1)] prod.collapse)
  ultimately show ?thesis unfolding d using dev_core_keeps dev_keeps_trans by blast
qed

lemma get_input_buffer_keeps:
  assumes "iodev_driver ops" "cras_iodev_get_input_buffer env sys ops k dev = Some (rc, n, d)"
  shows "dev_keeps dev d"
proof -
  obtain rc0 n0 a d0 where g: "op_get_buffer ops k dev = (rc0, n0, a, d0)" by (metis prod_cases4)
  show ?thesis
    using dev_core_keeps get_input_buffer_core [OF g assms(2)] driver_only_core [OF iodev_driver.get_buffer_driver [OF assms(1) g]] by metis
qed

lemma small_keeps:
  "dev_keeps dev (snd (cras_iodev_reset_request rc dev))" "dev_keeps dev (cras_iodev_update_highest_hw_level lv dev)"
  by (simp_all add: cras_iodev_reset_request_def cras_iodev_update_highest_hw_level_def dev_keeps_def log_event_def)

lemma stream_limit_keeps:
  assumes "get_stream_limit env lm dev = Some (n, who, d)"
  shows "dev_keeps dev d"
proof -
  obtain ss where e: "each_stream (stream_limit_step env) (io_streams dev) (lm, None) = Some (ss, n, who)" and d: "d = dev\<lparr>io_streams := ss\<rparr>"
    using assms by (auto simp: get_stream_limit_def)
  show ?thesis unfolding d by (rule streams_keep, rule each_stream_views [OF e]) (auto dest: small_stream_views(3))
qed

context server_driver
begin

lemma start_keeps: "cras_iodev_start ops dev = (rc, d) \<Longrightarrow> dev_keeps dev d"
  by (auto simp: cras_iodev_start_def Let_def dev_keeps_def dev_core_def split: if_splits option.splits prod.splits dest!: start_driver)

lemma transition_keeps: "cras_iodev_no_stream_playback_transition ops enable dev = Some (rc, d) \<Longrightarrow> dev_keeps dev d"
  using transition_idx transition_mode same_streams_keep by metis

lemma sample_ready_keeps:
  assumes "cras_iodev_output_event_sample_ready env sys ops dev = Some (rc, d)"
  shows "dev_keeps dev d"
proof -
  obtain rc0 d1 where r: "(if (io_state dev = CRAS_IODEV_STATE_OPEN \<or> io_state dev = CRAS_IODEV_STATE_NO_STREAM_RUN) \<and>
      io_ramp dev \<noteq> None \<and> \<not> output_should_mute sys dev
    then cras_iodev_start_ramp env (io_initial_ramp_request dev) dev else Some (0, dev)) = Some (rc0, d1)"
    and k: "d = d1 \<or> cras_iodev_no_stream_playback_transition ops False d1 = Some (rc, d) \<or>
      (\<exists>rc1 d2. cras_iodev_fill_odev_zeros env sys ops (io_min_cb_level d1) d1 = Some (rc1, d2) \<and> cras_iodev_start ops d2 = (rc, d))"
    using assms unfolding cras_iodev_output_event_sample_ready_def by (auto simp: bind_eq_Some_conv simp del: split_paired_Ex split: if_splits)
  have "dev_core d1 = dev_core dev" using r by (auto split: if_splits dest: start_ramp_mode)
  then have 1: "dev_keeps dev d1" by (rule dev_core_keeps)
  have "dev_keeps d1 d" using k transition_keeps start_keeps dev_core_keeps [OF fill_odev_zeros_core] dev_keeps_trans dev_keeps_refl by metis
  then show ?thesis using 1 dev_keeps_trans by blast
qed

lemma prepare_keeps:
  assumes "cras_iodev_prepare_output_before_write_samples env sys ops dev = Some (rc, d)"
  shows "dev_keeps dev d"
proof -
  obtain n d1 where p: "(if io_state dev = CRAS_IODEV_STATE_OPEN \<or> io_state dev = CRAS_IODEV_STATE_NO_STREAM_RUN
      then dev_playback_frames env dev else (0, dev)) = (n, d1)" by (metis prod.exhaust)
  have 1: "dev_keeps dev d1" using p by (auto split: if_splits dest: dev_playback_frames_keeps)
  have "d = dev \<or> d = d1 \<or> cras_iodev_output_event_sample_ready env sys ops d1 = Some (rc, d) \<or> op_no_stream ops True d1 = Some (rc, d)"
    using assms p unfolding cras_iodev_prepare_output_before_write_samples_def Let_def by (auto split: if_splits)
  then show ?thesis using 1 sample_ready_keeps dev_core_keeps [OF no_stream_driver] dev_keeps_trans dev_keeps_refl by metis
qed

lemma drop_round_keeps:
  assumes "drop_round ops n dev = Some (rc, k, d)"
  shows "dev_keeps dev d"
proof -
  obtain rc0 n0 a d0 where g: "op_get_buffer ops n dev = (rc0, n0, a, d0)" by (metis prod_cases4)
  obtain dt where dt: "io_input_data dev = Some dt" using assms unfolding drop_round_def bind_eq_Some_conv by blast
  let ?d1 = "d0\<lparr>io_input_data := Some (dt\<lparr>id_area := a\<rparr>)\<rparr>"
  have c: "dev_core ?d1 = dev_core dev" using driver_only_core [OF get_buffer_driver [OF g]] by simp
  obtain rc2 d2 where q: "op_put_buffer ops n0 ?d1 = (rc2, d2)" by (metis prod.exhaust)
  have "d = ?d1 \<or> d = d2 \<or> (\<exists>e. d = log_event e d2)" using assms unfolding drop_round_def by (auto simp: g dt q Let_def split: if_splits)
  then show ?thesis using c driver_only_core [OF put_buffer_driver [OF q]] by (intro dev_core_keeps) auto
qed

lemma drop_loop_keeps: "drop_loop ops i tgt dropped n dev = Some (rc, k, d) \<Longrightarrow> dev_keeps dev d"
proof (induction i arbitrary: dropped n dev)
  case (Suc i)
  show ?case
  proof (cases "dropped < tgt")
    case True
    then obtain rc1 n1 d1 where r: "drop_round ops (tgt - dropped) dev = Some (rc1, n1, d1)"
      and k: "d = d1 \<or> drop_loop ops i tgt (dropped + n1) n1 d1 = Some (rc, k, d)"
      using Suc.prems by (auto simp: bind_eq_Some_conv split: if_splits)
    then show ?thesis using drop_round_keeps [OF r] Suc.IH dev_keeps_trans by blast
  qed (use Suc.prems in simp)
qed simp

lemma drop_by_time_keeps:
  assumes "cras_iodev_drop_frames_by_time dbl est ops t dev = Some (rc, k, d)"
  shows "dev_keeps dev d"
proof -
  obtain n where n: "cras_iodev_drop_frames ops n dev = Some (rc, k, d)"
    using assms by (auto simp: cras_iodev_drop_frames_by_time_def bind_eq_Some_conv)
  obtain lv ts d1 where q: "cras_iodev_frames_queued ops dev = (lv, ts, d1)" by (metis prod_cases3)
  have "d = dev \<or> d = d1 \<or> (\<exists>i tgt m. drop_loop ops i tgt 0 m d1 = Some (rc, k, d))"
    using n unfolding cras_iodev_drop_frames_def by (auto simp: q split: if_splits simp del: drop_loop.simps)
  then show ?thesis using dev_core_keeps [OF frames_queued_core [OF q]] drop_loop_keeps dev_keeps_trans dev_keeps_refl by metis
qed

end

context thread_driver
begin

lemma default_sleep_keeps:
  assumes "cras_iodev_default_frames_to_play_in_sleep env ops dev = Some (n, lv, t, d)"
  shows "dev_keeps dev d"
proof -
  obtain rc ts d1 where q: "cras_iodev_frames_queued ops dev = (rc, ts, d1)" by (metis prod_cases3)
  have k: "dev_keeps dev d1" by (rule dev_core_keeps [OF frames_queued_core [OF q]])
  have "d = d1 \<or> (\<exists>m. dev_playback_frames env d1 = (m, d))"
    using assms unfolding cras_iodev_default_frames_to_play_in_sleep_def
    by (auto simp: q bind_eq_Some_conv Let_def split: if_splits prod.splits)
  then show ?thesis using k dev_playback_frames_keeps dev_keeps_trans by blast
qed

lemma sleep_keeps:
  assumes "cras_iodev_frames_to_play_in_sleep env ops dev = Some (n, lv, t, d)"
  shows "dev_keeps dev d"
  using assms default_sleep_keeps dev_core_keeps [OF driver_only_core [OF sleep_driver]]
  by (auto simp: cras_iodev_frames_to_play_in_sleep_def split: option.splits)

end

section \<open>The relation can only lose pairs\<close>

definition shrinks :: "nat set \<Rightarrow> 'h audio_world \<Rightarrow> 'h audio_world \<Rightarrow> bool" where
  "shrinks D w w' \<longleftrightarrow> (attach_inv D w \<longrightarrow> attach_inv D w' \<and> attached w' \<subseteq> attached w \<and>
     (\<forall>p. io_idx (aw_dev w' p) = io_idx (aw_dev w p) \<and> io_direction (aw_dev w' p) = io_direction (aw_dev w p)))"

lemma shrinks_refl [simp]: "shrinks D w w"
  by (simp add: shrinks_def)

lemma shrinks_trans: "shrinks D a b \<Longrightarrow> shrinks D b c \<Longrightarrow> shrinks D a c"
  unfolding shrinks_def by (metis subset_trans)

lemma shrinks_io:
  assumes "aw_dev w' = aw_dev w" "aw_stream w' = aw_stream w"
  shows "shrinks D w w'"
  using assms attach_inv_io [OF assms] by (simp add: shrinks_def)

lemma attach_inv_upd [simp]:
  "attach_inv D (w\<lparr>aw_io := io\<rparr>) \<longleftrightarrow> attach_inv D w" "attach_inv D (w\<lparr>aw_pic_now := t\<rparr>) \<longleftrightarrow> attach_inv D w"
  "attach_inv D (w\<lparr>aw_non_empty_count := n\<rparr>) \<longleftrightarrow> attach_inv D w"
  "attached (w\<lparr>aw_io := io\<rparr>) = attached w" "attached (w\<lparr>aw_pic_now := t\<rparr>) = attached w" "attached (w\<lparr>aw_non_empty_count := n\<rparr>) = attached w"
  by (simp_all add: attach_inv_def attached_def)

lemma shrinks_io_upd [simp]:
  "shrinks D w (w'\<lparr>aw_io := io\<rparr>) \<longleftrightarrow> shrinks D w w'" "shrinks D w (w'\<lparr>aw_pic_now := t\<rparr>) \<longleftrightarrow> shrinks D w w'"
  "shrinks D w (w'\<lparr>aw_non_empty_count := n\<rparr>) \<longleftrightarrow> shrinks D w w'"
  by (simp_all add: shrinks_def)

lemma get_dev_rs_inv: "attach_inv D w \<Longrightarrow> ds \<in> set (io_streams (get_dev p w)) \<Longrightarrow> rs_inv (ds_stream ds)"
  using get_dev_streams(4) attach_invD(2) by metis

lemma shrinks_put_dev:
  assumes "dev_keeps (get_dev p w) d"
  shows "shrinks D w (put_dev p d w)"
  unfolding shrinks_def
proof (intro impI)
  assume inv: "attach_inv D w"
  then have "map ds_view (io_streams d) = map ds_view (io_streams (get_dev p w))" using assms get_dev_rs_inv [OF inv] by (simp add: dev_keeps_def)
  moreover have "io_idx d = io_idx (aw_dev w p)" "io_direction d = io_direction (aw_dev w p)" using assms by (simp_all add: dev_keeps_def get_dev_def)
  ultimately show "attach_inv D (put_dev p d w) \<and> attached (put_dev p d w) \<subseteq> attached w \<and>
     (\<forall>q. io_idx (aw_dev (put_dev p d w) q) = io_idx (aw_dev w q) \<and> io_direction (aw_dev (put_dev p d w) q) = io_direction (aw_dev w q))"
    using attach_same [OF inv] by simp
qed

lemma shrinks_put_ds:
  assumes find: "find_ds (ds_sid ds) (get_dev p w) = Some ds0" and view: "rs_inv (ds_stream ds0) \<Longrightarrow> ds_view ds = ds_view ds0"
  shows "shrinks D w (put_ds p ds w)"
proof (cases "attach_inv D w")
  case inv: True
  have mem: "ds0 \<in> set (io_streams (get_dev p w))" "ds_sid ds0 = ds_sid ds"
    using find by (auto simp: find_ds_def find_Some_iff)
  have v: "ds_view ds = ds_view ds0" using view get_dev_rs_inv [OF inv mem(1)] by blast
  have "ds_view (if ds_sid d = ds_sid ds then ds else d) = ds_view d" if "d \<in> set (io_streams (get_dev p w))" for d
  proof (cases "ds_sid d = ds_sid ds")
    case True
    have "distinct (dev_sids (get_dev p w))" using attach_invD(5) [OF inv, of p] unfolding get_dev_streams(1) [OF inv] .
    then have "d = ds0" using that mem True by (metis distinct_map inj_onD)
    then show ?thesis using v True by simp
  qed simp
  then have "map ds_view (map (\<lambda>d. if ds_sid d = ds_sid ds then ds else d) (io_streams (get_dev p w))) = map ds_view (io_streams (get_dev p w))"
    by (simp del: prod.inject)
  then show ?thesis unfolding put_ds_def by (intro shrinks_put_dev streams_keep)
qed (simp add: shrinks_def)

lemma delete_shrinks:
  assumes drv: "server_driver (te_ops env p)" and p: "p \<in> D" and del: "delete_stream_from_dev env sid p w = Some w'"
  shows "shrinks D w w'"
  unfolding shrinks_def
proof (intro impI)
  assume inv: "attach_inv D w"
  obtain out d where rm: "cras_iodev_rm_stream (te_iodev env) (te_ops env p) sid (get_dev p w) = Some (out, d)"
    and w': "w' = (case out of None \<Rightarrow> put_dev p d w | Some ds \<Rightarrow> put_stream (dev_stream_destroy ds) (put_dev p d w))"
    using del by (auto simp: delete_stream_from_dev_def bind_eq_Some_conv)
  have "io_idx d = io_idx (aw_dev w p)" "io_direction d = io_direction (aw_dev w p)"
    using server_driver.rm_stream_views(1) [OF drv rm] server_driver.rm_stream_mode [OF drv rm] by (simp_all add: get_dev_def)
  moreover have "aw_dev w' = (aw_dev w)(p := d)" by (simp add: w' split: option.split)
  ultimately show "attach_inv D w' \<and> attached w' \<subseteq> attached w \<and>
     (\<forall>q. io_idx (aw_dev w' q) = io_idx (aw_dev w q) \<and> io_direction (aw_dev w' q) = io_direction (aw_dev w q))"
    using delete_attached [OF drv inv p del] by auto
qed

lemma delete_from_devs_shrinks:
  assumes "\<And>p. server_driver (te_ops env p)" and "set ps \<subseteq> D" and "delete_from_devs env sid ps w = Some w'"
  shows "shrinks D w w'"
  using assms(2,3)
proof (induction ps arbitrary: w)
  case (Cons p ps)
  then obtain w1 where w1: "delete_stream_from_dev env sid p w = Some w1" "delete_from_devs env sid ps w1 = Some w'"
    by (auto simp: bind_eq_Some_conv)
  have "shrinks D w w1" "shrinks D w1 w'" using delete_shrinks [OF assms(1) _ w1(1)] Cons w1(2) by auto
  then show ?case by (rule shrinks_trans)
qed simp

lemma detach_all_shrinks:
  assumes "server_driver (te_ops env p)" and "p \<in> D" and "detach_all env p sids w = Some w'"
  shows "shrinks D w w'"
  using assms(3)
proof (induction sids arbitrary: w)
  case (Cons sid sids)
  then obtain w1 where w1: "delete_stream_from_dev env sid p w = Some w1" "detach_all env p sids w1 = Some w'"
    by (auto simp: bind_eq_Some_conv)
  then show ?case using delete_shrinks [OF assms(1,2) w1(1)] Cons shrinks_trans by blast
qed simp

lemma remove_stream_shrinks:
  assumes "\<And>p. server_driver (te_ops env p)" and "set (map od_dev ods) \<subseteq> D" and "dev_io_remove_stream env ods sid None w = Some w'"
  shows "shrinks D w w'"
proof -
  have "shrinks D w (log_fetch_delay sid w)" by (simp add: log_fetch_delay_def Let_def)
  moreover have "shrinks D (log_fetch_delay sid w) w'"
    using delete_from_devs_shrinks [OF assms(1) assms(2)] assms(3) by (simp add: dev_io_remove_stream_def)
  ultimately show ?thesis by (rule shrinks_trans)
qed

text \<open>With the list of open devices: a device that leaves the list has no streams.\<close>

definition st_shrinks :: "nat set \<Rightarrow> open_dev list \<times> 'h audio_world \<Rightarrow> open_dev list \<times> 'h audio_world \<Rightarrow> bool" where
  "st_shrinks D st st' \<longleftrightarrow> (set (map od_dev (fst st)) \<subseteq> D \<longrightarrow> shrinks D (snd st) (snd st') \<and> set (map od_dev (fst st')) \<subseteq> set (map od_dev (fst st)) \<and>
     (distinct (map od_dev (fst st)) \<longrightarrow> distinct (map od_dev (fst st'))) \<and>
     (attach_inv D (snd st) \<longrightarrow> attached (snd st') \<inter> (set (map od_dev (fst st)) - set (map od_dev (fst st'))) \<times> UNIV = {}))"

lemma st_shrinks_refl [simp]: "st_shrinks D st st"
  by (simp add: st_shrinks_def)

lemma st_shrinks_trans:
  assumes "st_shrinks D a b" "st_shrinks D b c"
  shows "st_shrinks D a c"
  unfolding st_shrinks_def
proof (intro impI)
  assume a: "set (map od_dev (fst a)) \<subseteq> D"
  then have b: "set (map od_dev (fst b)) \<subseteq> D" using assms(1) unfolding st_shrinks_def by blast
  note ab = assms(1) [unfolded st_shrinks_def, rule_format, OF a] and bc = assms(2) [unfolded st_shrinks_def, rule_format, OF b]
  have "attached (snd c) \<inter> (set (map od_dev (fst a)) - set (map od_dev (fst c))) \<times> UNIV = {}" if "attach_inv D (snd a)"
  proof -
    have "attach_inv D (snd b)" "attached (snd c) \<subseteq> attached (snd b)" using ab bc that unfolding shrinks_def by blast+
    then show ?thesis using ab bc that by blast
  qed
  then show "shrinks D (snd a) (snd c) \<and> set (map od_dev (fst c)) \<subseteq> set (map od_dev (fst a)) \<and>
     (distinct (map od_dev (fst a)) \<longrightarrow> distinct (map od_dev (fst c))) \<and>
     (attach_inv D (snd a) \<longrightarrow> attached (snd c) \<inter> (set (map od_dev (fst a)) - set (map od_dev (fst c))) \<times> UNIV = {})"
    using ab bc shrinks_trans by blast
qed

lemma st_shrinksI:
  assumes "set (map od_dev ods) \<subseteq> D \<Longrightarrow> shrinks D w w'" "map od_dev ods' = map od_dev ods"
  shows "st_shrinks D (ods, w) (ods', w')"
  using assms by (simp add: st_shrinks_def del: set_map)

lemma check_transition_same [simp]:
  "aw_dev (check_non_empty_state_transition ods w) = aw_dev w" "aw_stream (check_non_empty_state_transition ods w) = aw_stream w"
  by (simp_all add: check_non_empty_state_transition_def Let_def)

lemma rm_open_dev_shrinks:
  assumes drv: "\<And>p. server_driver (te_ops env p)" and rm: "dev_io_rm_open_dev env p (ods, w) = Some (ods', w')"
  shows "st_shrinks D (ods, w) (ods', w')"
  unfolding st_shrinks_def fst_conv snd_conv
proof (intro impI)
  assume D: "set (map od_dev ods) \<subseteq> D"
  show "shrinks D w w' \<and> set (map od_dev ods') \<subseteq> set (map od_dev ods) \<and> (distinct (map od_dev ods) \<longrightarrow> distinct (map od_dev ods')) \<and>
     (attach_inv D w \<longrightarrow> attached w' \<inter> (set (map od_dev ods) - set (map od_dev ods')) \<times> UNIV = {})"
  proof (cases "find_open p ods = None")
    case True
    then show ?thesis using rm by (simp add: dev_io_rm_open_dev_def)
  next
    case False
    then have mem: "p \<in> set (map od_dev ods)" using find_open_mem by blast
    obtain w1 where d: "detach_all env p (dev_sids (aw_dev w p)) w1 = Some w'" and w1: "aw_dev w1 = aw_dev w" "aw_stream w1 = aw_stream w"
      and o: "ods' = filter (\<lambda>a. od_dev a \<noteq> p) ods"
      using rm False by (auto simp: dev_io_rm_open_dev_def Let_def)
    have "shrinks D w1 w'" using detach_all_shrinks [OF drv _ d] mem D by blast
    then have "shrinks D w w'" by (rule shrinks_trans [OF shrinks_io [OF w1]])
    moreover have "distinct (map od_dev ods) \<longrightarrow> distinct (map od_dev ods')" unfolding o by (simp add: distinct_map inj_on_def)
    moreover have "attached w' \<inter> (set (map od_dev ods) - set (map od_dev ods')) \<times> UNIV = {}" if "attach_inv D w"
      using rm_open_dev_attached [OF drv that _ rm] D o mem by auto
    ultimately show ?thesis unfolding o by auto
  qed
qed

end
