(* ===== verification/Thread_Run.thy ===== *)
theory Thread_Run
  imports Thread_Frame
begin

text \<open>
  Every function of \<^verbatim>\<open>dev_io.c\<close>, up to \<^verbatim>\<open>dev_io_run\<close>, for drivers that keep their contract: the relation between devices
  and streams stays consistent and only loses pairs.
\<close>

locale audio_drivers =
  fixes env :: "('h, 'p, 's) thread_env"
  assumes drv: "thread_driver (te_ops env p)"
begin

lemmas srv = thread_driver.axioms(1) [OF drv]
lemmas iod = server_driver.axioms(1) [OF srv]

lemma each_open_shrinks:
  assumes "\<And>p w w'. f p w = Some w' \<Longrightarrow> shrinks D w w'" and "each_open f ps w = Some w'"
  shows "shrinks D w w'"
  using assms(2)
proof (induction ps arbitrary: w)
  case (Cons p ps)
  then obtain w1 where w1: "w1 = w \<or> f p w = Some w1" "each_open f ps w1 = Some w'" by (auto simp: bind_eq_Some_conv split: if_splits)
  have "shrinks D w w1" using w1(1) assms(1) by auto
  then show ?case using Cons.IH [OF w1(2)] by (rule shrinks_trans)
qed simp

section \<open>Playback\<close>

lemma fetch_streams_shrinks:
  assumes "fetch_streams env p w = Some (rc, w')"
  shows "shrinks D w w'"
proof (cases "cras_iodev_delay_frames (te_ops env p) (get_dev p w) < 0")
  case False
  then obtain ss io where e: "each_stream (fetch_stream env (cras_iodev_delay_frames (te_ops env p) (get_dev p w))) (io_streams (get_dev p w)) (aw_io w) = Some (ss, io)"
    and w': "w' = (put_dev p ((get_dev p w)\<lparr>io_streams := ss\<rparr>) w)\<lparr>aw_io := io\<rparr>"
    using assms by (auto simp: fetch_streams_def Let_def)
  have "dev_keeps (get_dev p w) ((get_dev p w)\<lparr>io_streams := ss\<rparr>)"
    by (rule streams_keep, rule each_stream_views [OF e]) (auto dest: fetch_stream_view)
  then show ?thesis by (simp add: w' shrinks_put_dev)
qed (use assms in \<open>simp add: fetch_streams_def Let_def\<close>)

lemma check_start_shrinks: "dev_io_check_dev_stream_start env p w = Some w' \<Longrightarrow> shrinks D w w'"
  by (auto simp: dev_io_check_dev_stream_start_def intro!: shrinks_put_dev dest: start_due_keeps)

lemma playback_fetch_shrinks:
  assumes "dev_io_playback_fetch env ods w = Some w'"
  shows "shrinks D w w'"
proof -
  obtain w1 where w1: "each_open (dev_io_check_dev_stream_start env) (map od_dev ods) w = Some w1"
    "each_open (\<lambda>p w. map_option snd (fetch_streams env p w)) (map od_dev ods) w1 = Some w'"
    using assms by (auto simp: dev_io_playback_fetch_def bind_eq_Some_conv)
  have "shrinks D w w1" by (rule each_open_shrinks [OF check_start_shrinks w1(1)])
  moreover have "shrinks D w1 w'" by (rule each_open_shrinks [OF _ w1(2)]) (auto dest: fetch_streams_shrinks)
  ultimately show ?thesis by (rule shrinks_trans)
qed

lemma remove_all_shrinks: "set (map od_dev ods) \<subseteq> D \<Longrightarrow> dev_io_remove_stream env ods sid None w = Some w' \<Longrightarrow> shrinks D w w'"
  using remove_stream_shrinks [OF srv] by blast

lemma find_ds_sid: "find_ds sid dev = Some ds \<Longrightarrow> ds_sid ds = sid"
  by (auto simp: find_ds_def find_Some_iff)

lemma level_stream_shrinks:
  assumes D: "set (map od_dev ods) \<subseteq> D" and l: "level_stream env ods p sid lims w = Some (lims', w')"
  shows "shrinks D w w'"
proof (cases "find_ds sid (get_dev p w)")
  case None
  then show ?thesis using l by (simp add: level_stream_def)
next
  case (Some ds)
  define ds1 where "ds1 = (if dev_stream_attached_devs ds = 1 then dev_stream_update_frames ds else ds)"
  have v: "ds_view ds1 = ds_view ds" by (simp add: ds1_def dev_stream_update_frames_def)
  have "ds_sid ds1 = sid" using find_ds_sid [OF Some] v by (simp add: stream_view_eq)
  then have p1: "shrinks D w (put_ds p ds1 w)" using shrinks_put_ds [of ds1 p w ds] Some v by simp
  have "w' = w \<or> w' = put_ds p ds1 w \<or> dev_io_remove_stream env ods sid None (put_ds p ds1 w) = Some w'"
    using l Some by (auto simp: level_stream_def Let_def ds1_def [symmetric] split: if_splits prod.splits)
  then show ?thesis using p1 remove_all_shrinks [OF D] shrinks_trans shrinks_refl by metis
qed

lemma level_loop_shrinks:
  assumes "set (map od_dev ods) \<subseteq> D" "level_loop env ods p sids lims w = Some (lims', w')"
  shows "shrinks D w w'"
  using assms(2)
proof (induction sids arbitrary: lims w)
  case (Cons sid sids)
  then obtain lims1 w1 where w1: "level_stream env ods p sid lims w = Some (lims1, w1)" "level_loop env ods p sids lims1 w1 = Some (lims', w')"
    by (auto simp: bind_eq_Some_conv)
  show ?case by (rule shrinks_trans [OF level_stream_shrinks [OF assms(1) w1(1)] Cons.IH [OF w1(2)]])
qed simp

lemma mix_stream_shrinks:
  assumes D: "set (map od_dev ods) \<subseteq> D" and m: "mix_stream env ods p wl sid w = Some w'"
  shows "shrinks D w w'"
proof (cases "w' = w")
  case False
  then obtain ds fmt k n calls ds1 io where ds: "find_ds sid (get_dev p w) = Some ds"
    and mix: "dev_stream_mix (env_round env) (te_speex env) (env_widths env) fmt k ds = Some (n, calls, ds1)"
    and k: "dev_io_remove_stream env ods sid None ((put_ds p ds1 w)\<lparr>aw_io := io\<rparr>) = Some w' \<or>
       (\<exists>j d. cras_iodev_stream_written sid j (get_dev p ((put_ds p ds1 w)\<lparr>aw_io := io\<rparr>)) = Some d \<and> w' = put_dev p d ((put_ds p ds1 w)\<lparr>aw_io := io\<rparr>))"
    using m unfolding mix_stream_def Let_def
    by (auto simp: bind_eq_Some_conv simp del: split_paired_Ex split: if_splits option.splits) blast+
  let ?w1 = "(put_ds p ds1 w)\<lparr>aw_io := io\<rparr>"
  have v: "rs_inv (ds_stream ds) \<Longrightarrow> ds_view ds1 = ds_view ds" using mix_view [OF _ mix] by blast
  have w1: "shrinks D w ?w1"
  proof (cases "rs_inv (ds_stream ds)")
    case True
    then have "ds_sid ds1 = sid" using v find_ds_sid [OF ds] by (simp add: stream_view_eq)
    then show ?thesis using shrinks_put_ds [of ds1 p w ds] ds v by simp
  next
    case False
    then have "\<not> attach_inv D w" using get_dev_rs_inv [of D w ds p] ds by (auto simp: find_ds_def find_Some_iff)
    then show ?thesis by (simp add: shrinks_def)
  qed
  have "shrinks D ?w1 w'" using k remove_all_shrinks [OF D] shrinks_put_dev [OF stream_written_keeps] by blast
  then show ?thesis by (rule shrinks_trans [OF w1])
qed simp

lemma mix_streams_shrinks:
  assumes "set (map od_dev ods) \<subseteq> D" "mix_streams env ods p wl sids w = Some w'"
  shows "shrinks D w w'"
  using assms(2)
proof (induction sids arbitrary: w)
  case (Cons sid sids)
  then obtain w1 where w1: "mix_stream env ods p wl sid w = Some w1" "mix_streams env ods p wl sids w1 = Some w'"
    by (auto simp: bind_eq_Some_conv)
  show ?case by (rule shrinks_trans [OF mix_stream_shrinks [OF assms(1) w1(1)] Cons.IH [OF w1(2)]])
qed simp

lemma write_streams_shrinks:
  assumes D: "set (map od_dev ods) \<subseteq> D" and ws: "write_streams env ods p n w = Some (rc, w')"
  shows "shrinks D w w'"
proof -
  obtain mo lims w1 w2 wl where l: "level_loop env ods p (dev_sids (aw_dev w p)) (n, n, 0) w = Some (lims, w1)"
    and m: "mix_streams env ods p wl (dev_sids (aw_dev w1 p)) (zero_mix_area p mo wl w1) = Some w2"
    and w': "w' = put_dev p (snd (cras_iodev_all_streams_written (get_dev p w2))) w2"
    using ws unfolding write_streams_def Let_def case_prod_beta by (auto simp: bind_eq_Some_conv)
  have "shrinks D w (zero_mix_area p mo wl w1)" using level_loop_shrinks [OF D l] by (simp add: zero_mix_area_def)
  moreover have "shrinks D (zero_mix_area p mo wl w1) w2" by (rule mix_streams_shrinks [OF D m])
  moreover have "shrinks D w2 w'" unfolding w' by (rule shrinks_put_dev, rule all_written_keeps [OF prod.collapse [symmetric]])
  ultimately show ?thesis using shrinks_trans by blast
qed

lemma wakeup_shrinks:
  assumes "update_dev_wakeup_time env ad w = Some (lv, ad', w')"
  shows "shrinks D w w'" "od_dev ad' = od_dev ad"
proof -
  obtain frames n t d1 io where s: "cras_iodev_frames_to_play_in_sleep (te_iodev env) (te_ops env (od_dev ad)) (get_dev (od_dev ad) w) = Some (frames, n, t, d1)"
    and w': "w' = (put_dev (od_dev ad) (if io_state d1 = CRAS_IODEV_STATE_NORMAL_RUN then cras_iodev_update_highest_hw_level n d1 else d1) w)\<lparr>aw_io := io\<rparr>"
    and "od_dev ad' = od_dev ad"
    using assms unfolding update_dev_wakeup_time_def Let_def by (auto simp: bind_eq_Some_conv simp del: split_paired_Ex)
  then show "od_dev ad' = od_dev ad" by blast
  have "dev_keeps (get_dev (od_dev ad) w) d1" by (rule thread_driver.sleep_keeps [OF drv s])
  then show "shrinks D w w'" by (auto simp: w' intro!: shrinks_put_dev intro: dev_keeps_trans [OF _ small_keeps(2)])
qed

lemma check_emptiness_dev [simp]: "od_dev (snd (check_emptiness now asked ad)) = od_dev ad"
  by (simp add: check_emptiness_def Let_def)

lemma update_empty_period_dev [simp]: "od_dev (update_empty_period now asked ne ad) = od_dev ad"
  by (simp add: update_empty_period_def Let_def)

lemma put_output_buffer_keeps:
  "cras_iodev_put_output_buffer ienv sys (te_ops env p) buf n b remix dev = Some (rc, ne, d) \<Longrightarrow> dev_keeps dev d"
  using dev_core_keeps iodev_driver.put_output_buffer_core [OF iod] by metis

lemma write_round_shrinks:
  assumes D: "set (map od_dev ods) \<subseteq> D" and r: "write_round env remix ods req (x, w) = Some (res, x', w')"
  shows "shrinks D w w' \<and> od_dev (wr_ad x') = od_dev (wr_ad x)"
proof -
  define p where "p = od_dev (wr_ad x)"
  obtain rc k a d where g: "cras_iodev_get_output_buffer (te_ops env p) (req - ucast (wr_written x)) (get_dev p w) = (rc, k, a, d)"
    by (metis prod_cases4)
  have w1: "shrinks D w (put_dev p d w)" by (rule shrinks_put_dev, rule dev_core_keeps [OF iodev_driver.get_output_buffer_core [OF iod g]])
  show ?thesis
  proof (cases "rc < 0")
    case True
    then show ?thesis using r g w1 by (auto simp: write_round_def Let_def p_def)
  next
    case False
    obtain written w2 where s: "write_streams env ods p k (put_dev p d w) = Some (written, w2)"
      using r g False unfolding write_round_def Let_def by (auto simp: p_def bind_eq_Some_conv split: if_splits)
    have w2: "shrinks D w w2" by (rule shrinks_trans [OF w1 write_streams_shrinks [OF D s]])
    have "w' = w2 \<or> (\<exists>asked buf rc2 ne d2 io. cras_iodev_put_output_buffer (te_iodev env) (te_sys env) (te_ops env p) buf (of_int written)
        asked remix (get_dev p w2) = Some (rc2, ne, d2) \<and> w' = (put_dev p d2 w2)\<lparr>aw_io := io\<rparr>)" "od_dev (wr_ad x') = od_dev (wr_ad x)"
      using r g False s unfolding write_round_def Let_def case_prod_beta
      by (auto simp: p_def bind_eq_Some_conv simp del: split_paired_Ex split: if_splits) blast+
    then show ?thesis using w2 shrinks_trans [OF w2 shrinks_put_dev [OF put_output_buffer_keeps]] by auto
  qed
qed

lemma write_loop_shrinks:
  assumes "write_loop env remix ods req st = Some (rc, ad', w')" "set (map od_dev ods) \<subseteq> D"
  shows "shrinks D (snd st) w' \<and> od_dev ad' = od_dev (wr_ad (fst st))"
proof -
  have "env' = env \<longrightarrow> set (map od_dev ods') \<subseteq> D \<longrightarrow> shrinks D (snd st') (snd (snd r)) \<and> od_dev (fst (snd r)) = od_dev (wr_ad (fst st'))"
    if "write_loop env' remix' ods' req' st' = Some r" for env' :: "('h, 'p, 's) thread_env" and remix' ods' req' st' r
  proof (rule write_loop.raw_induct [where P = "\<lambda>env' remix ods req st r. env' = env \<longrightarrow> set (map od_dev ods) \<subseteq> D \<longrightarrow>
      shrinks D (snd st) (snd (snd r)) \<and> od_dev (fst (snd r)) = od_dev (wr_ad (fst st))", OF _ that], intro impI)
    fix f env' remix ods req and st :: "write_state \<times> 'h audio_world" and y
    assume ih: "\<And>env' remix ods req st y. f env' remix ods req st = Some y \<Longrightarrow> env' = env \<longrightarrow> set (map od_dev ods) \<subseteq> D \<longrightarrow>
        shrinks D (snd st) (snd (snd y)) \<and> od_dev (fst (snd y)) = od_dev (wr_ad (fst st))"
      and r: "(if \<not> wr_written (fst st) < ucast req then Some (sint (ucast (wr_written (fst st)) :: u32), wr_ad (fst st), snd st)
        else do { r \<leftarrow> write_round env' remix ods req st;
          case fst r of Inl rc \<Rightarrow> Some (rc, wr_ad (fst (snd r)), snd (snd r)) | Inr req \<Rightarrow> f env' remix ods req (snd r) }) = Some y"
      and e: "env' = env" and D: "set (map od_dev ods) \<subseteq> D"
    show "shrinks D (snd st) (snd (snd y)) \<and> od_dev (fst (snd y)) = od_dev (wr_ad (fst st))"
    proof (cases "wr_written (fst st) < ucast req")
      case True
      then obtain res x1 w1 where w1: "write_round env remix ods req (fst st, snd st) = Some (res, x1, w1)"
        and k0: "(case res of Inl rc \<Rightarrow> Some (rc, wr_ad x1, w1) | Inr req \<Rightarrow> f env remix ods req (x1, w1)) = Some y"
        using r e by (auto simp: bind_eq_Some_conv cong: sum.case_cong)
      have k: "(\<exists>rc. y = (rc, wr_ad x1, w1)) \<or> (\<exists>req1. f env remix ods req1 (x1, w1) = Some y)" using k0 by (cases res) auto
      note s1 = write_round_shrinks [OF D w1]
      show ?thesis using k
      proof (elim disjE exE)
        fix req1 assume "f env remix ods req1 (x1, w1) = Some y"
        then have "shrinks D w1 (snd (snd y))" "od_dev (fst (snd y)) = od_dev (wr_ad x1)" using ih D by fastforce+
        then show ?thesis using s1 shrinks_trans by metis
      qed (use s1 in auto)
    qed (use r in auto)
  qed
  from this [OF assms(1)] assms(2) show ?thesis by simp
qed

lemma write_output_samples_shrinks:
  assumes w: "write_output_samples env remix ods ad w = Some (rc, ad', w')" and D: "set (map od_dev ods) \<subseteq> D"
  shows "shrinks D w w' \<and> od_dev ad' = od_dev ad"
proof -
  define p where "p = od_dev ad"
  obtain rc1 d1 where pr: "cras_iodev_prepare_output_before_write_samples (te_iodev env) (te_sys env) (te_ops env p) (get_dev p w) = Some (rc1, d1)"
    using w unfolding write_output_samples_def Let_def p_def by (auto simp: bind_eq_Some_conv simp del: split_paired_Ex)
  define w1 where "w1 = put_dev p d1 w"
  have s1: "shrinks D w w1" unfolding w1_def by (rule shrinks_put_dev [OF server_driver.prepare_keeps [OF srv pr]])
  obtain lv t d2 where q: "cras_iodev_frames_queued (te_ops env p) (get_dev p w1) = (lv, t, d2)" by (metis prod_cases3)
  define w2 where "w2 = put_dev p d2 w1"
  have s2: "shrinks D w w2" unfolding w2_def
    by (rule shrinks_trans [OF s1 shrinks_put_dev [OF dev_core_keeps [OF iodev_driver.frames_queued_core [OF iod q]]]])
  have "w' = w1 \<and> ad' = ad \<or> w' = w2 \<and> ad' = ad \<or> (\<exists>ad1 d3 n x y z. check_rate env (of_int lv) t (aw_dev w2) (ad, get_dev p w2) = Some (ad1, d3) \<and>
      write_loop env remix ods n (\<lparr>wr_ad = ad1, wr_written = x, wr_asked = y, wr_non_empty = z\<rparr>, put_dev p d3 w2) = Some (rc, ad', w'))"
    using w pr q unfolding write_output_samples_def Let_def p_def [symmetric]
    by (auto simp: bind_eq_Some_conv w1_def [symmetric] w2_def [symmetric] simp del: split_paired_Ex split: if_splits)
  then show ?thesis
  proof (elim disjE exE conjE)
    fix ad1 d3 n x y z
    assume c: "check_rate env (of_int lv) t (aw_dev w2) (ad, get_dev p w2) = Some (ad1, d3)"
      and l: "write_loop env remix ods n (\<lparr>wr_ad = ad1, wr_written = x, wr_asked = y, wr_non_empty = z\<rparr>, put_dev p d3 w2) = Some (rc, ad', w')"
    have "shrinks D w (put_dev p d3 w2)" by (rule shrinks_trans [OF s2 shrinks_put_dev]) (use check_rate_keeps [OF c] in blast)
    then show ?thesis using write_loop_shrinks [OF l D] check_rate_keeps [OF c] shrinks_trans by fastforce
  qed (use s1 s2 in auto)
qed

lemma handle_err_shrinks:
  assumes "handle_dev_err env err p (ods, w) = Some (ods', w')"
  shows "st_shrinks D (ods, w) (ods', w')"
proof -
  define w1 where "w1 = (if err = - EPIPE
    then (put_dev p (snd (cras_iodev_reset_request (te_send env (fst (aw_io w))) (get_dev p w))) w)\<lparr>aw_io := later 1 (aw_io w)\<rparr> else w)"
  have w1: "shrinks D w w1" by (simp add: w1_def shrinks_put_dev [OF small_keeps(1)])
  have r: "dev_io_rm_open_dev env p (ods, w1) = Some (ods', w')" using assms by (simp add: handle_dev_err_def w1_def)
  have "st_shrinks D (ods, w) (ods, w1)" by (rule st_shrinksI [OF w1 refl])
  then show ?thesis by (rule st_shrinks_trans [OF _ rm_open_dev_shrinks [OF srv r]])
qed

lemma write_one_dev_shrinks:
  assumes "write_one_dev env remix ad (ods, w) = Some (ods', w')"
  shows "st_shrinks D (ods, w) (ods', w')"
proof -
  define p where "p = od_dev ad"
  obtain rc ad1 w1 where o: "write_output_samples env remix ods ad w = Some (rc, ad1, w1)"
    using assms by (auto simp: write_one_dev_def Let_def bind_eq_Some_conv simp del: split_paired_Ex)
  have 1: "st_shrinks D (ods, w) (set_open ad1 ods, w1)" using write_output_samples_shrinks [OF o] by (intro st_shrinksI) auto
  let ?ods1 = "set_open ad1 ods"
  have k: "handle_dev_err env rc p (?ods1, w1) = Some (ods', w') \<or> (ods', w') = (?ods1, w1) \<or>
     (\<exists>lv ad2 w2. update_dev_wakeup_time env ad1 w1 = Some (lv, ad2, w2) \<and> ((ods', w') = (set_open ad2 ?ods1, w2) \<or>
        (\<exists>rc2 d. cras_iodev_output_underrun (te_iodev env) (te_sys env) (te_ops env p) (get_dev p w2) = Some (rc2, d) \<and>
          (handle_dev_err env rc2 p (set_open ad2 ?ods1, put_dev p d w2) = Some (ods', w') \<or>
           (\<exists>lv3 ad3. update_dev_wakeup_time env ad2 (put_dev p d w2) = Some (lv3, ad3, w') \<and> ods' = set_open ad3 ?ods1)))))"
    using assms o unfolding write_one_dev_def Let_def by (auto simp: p_def bind_eq_Some_conv simp del: split_paired_Ex split: if_splits)
  have under: "shrinks D w2 (put_dev p d w2)" if "cras_iodev_output_underrun (te_iodev env) (te_sys env) (te_ops env p) (get_dev p w2) = Some (rc2, d)" for rc2 d w2
    by (rule shrinks_put_dev, rule dev_core_keeps, rule iodev_driver.output_underrun_core [OF iod _ that]) (use server_driver.underrun_driver [OF srv] in blast)
  have wake: "st_shrinks D (ods, w) (set_open ad3 (set_open ad2 ?ods1), w3)" if "shrinks D w1 w3" for ad2 ad3 w3
    by (rule st_shrinks_trans [OF 1 st_shrinksI]) (use that in simp_all)
  have wake1: "st_shrinks D (ods, w) (set_open ad2 ?ods1, w3)" if "shrinks D w1 w3" for ad2 w3
    by (rule st_shrinks_trans [OF 1 st_shrinksI]) (use that in simp_all)
  show ?thesis using k
    by (elim disjE exE conjE) (use 1 st_shrinks_trans [OF _ handle_err_shrinks] wake1 wakeup_shrinks(1) under shrinks_trans in \<open>metis prod.inject\<close>)+
qed

lemma write_devs_shrinks: "write_devs env remix ps st = Some st' \<Longrightarrow> st_shrinks D st st'"
proof (induction ps arbitrary: st)
  case (Cons p ps)
  show ?case
  proof (cases "find_open p (fst st) = None \<or> \<not> cras_iodev_is_open (aw_dev (snd st) p)")
    case True
    then show ?thesis using Cons by (auto split: option.splits)
  next
    case False
    then obtain ad ods1 w1 where r: "write_one_dev env remix ad (fst st, snd st) = Some (ods1, w1)" "write_devs env remix ps (ods1, w1) = Some st'"
      using Cons.prems by (auto simp: bind_eq_Some_conv)
    show ?thesis by (rule st_shrinks_trans [OF write_one_dev_shrinks [OF r(1), simplified] Cons.IH [OF r(2)]])
  qed
qed simp

lemma map_streams_shrinks:
  assumes "\<And>ds. rs_inv (ds_stream ds) \<Longrightarrow> ds_view (f ds) = ds_view ds"
  shows "shrinks D w (map_streams f p w)"
  unfolding map_streams_def by (intro shrinks_put_dev streams_keep) (simp add: assms del: prod.inject)

lemma fold_map_streams_shrinks:
  assumes "\<And>ds. rs_inv (ds_stream ds) \<Longrightarrow> ds_view (f ds) = ds_view ds"
  shows "shrinks D w (fold (map_streams f) ps w)"
proof (induction ps arbitrary: w)
  case (Cons p ps)
  show ?case using shrinks_trans [OF map_streams_shrinks [OF assms] Cons.IH] by simp
qed simp

lemma playback_update_view: "rs_inv (ds_stream ds) \<Longrightarrow> ds_view (snd (dev_stream_playback_update_rstream ds)) = ds_view ds"
  using commit_view(1) [of "ds_stream ds"] by (simp add: dev_stream_playback_update_rstream_def)

lemma playback_write_shrinks:
  assumes "dev_io_playback_write env remix (ods, w) = Some (ods', w')"
  shows "st_shrinks D (ods, w) (ods', w')"
proof -
  define w1 where "w1 = (if length ods > 1 then fold (map_streams dev_stream_update_frames) (map od_dev ods) w else w)"
  obtain w2 where w2: "write_devs env remix (map od_dev ods) (ods, w1) = Some (ods', w2)"
    and w3: "each_open (\<lambda>p w. Some (map_streams (\<lambda>ds. snd (dev_stream_playback_update_rstream ds)) p w)) (map od_dev ods') w2 = Some w'"
    using assms unfolding dev_io_playback_write_def Let_def case_prod_beta fst_conv snd_conv w1_def [symmetric] by (auto simp: bind_eq_Some_conv)
  have "shrinks D w w1" unfolding w1_def by (auto simp: dev_stream_update_frames_def intro: fold_map_streams_shrinks)
  then have 1: "st_shrinks D (ods, w) (ods, w1)" by (intro st_shrinksI) auto
  have "shrinks D w2 w'" by (rule each_open_shrinks [OF _ w3]) (auto intro!: map_streams_shrinks playback_update_view simp del: prod.inject)
  then have "st_shrinks D (ods', w2) (ods', w')" by (intro st_shrinksI) auto
  then show ?thesis using st_shrinks_trans [OF 1 write_devs_shrinks [OF w2]] by (rule st_shrinks_trans [rotated])
qed

section \<open>Capture\<close>

lemma capture_round_keeps:
  assumes "capture_round env p n (dev, io) = Some (r, d, io')"
  shows "dev_keeps dev d"
proof -
  obtain rc k d1 where g: "cras_iodev_get_input_buffer (te_iodev env) (te_sys env) (te_ops env p) (ucast n) dev = Some (rc, k, d1)"
    and c: "d = d1 \<or> (\<exists>ss acc rc2 a io0. each_stream (capture_stream env p d1) (io_streams d1) a = Some (ss, acc) \<and>
      cras_iodev_put_input_buffer (te_ops env p) (d1\<lparr>io_streams := ss, io_buf_state := ca_bs acc\<rparr>) = Some (rc2, d))"
    using assms unfolding capture_round_def Let_def by (auto simp: bind_eq_Some_conv simp del: split_paired_Ex split: if_splits) blast+
  have 1: "dev_keeps dev d1" by (rule get_input_buffer_keeps [OF iod g])
  from c show ?thesis
  proof (elim disjE exE conjE)
    fix ss acc rc2 a
    assume e: "each_stream (capture_stream env p d1) (io_streams d1) a = Some (ss, acc)"
      and q: "cras_iodev_put_input_buffer (te_ops env p) (d1\<lparr>io_streams := ss, io_buf_state := ca_bs acc\<rparr>) = Some (rc2, d)"
    have "map ds_view ss = map ds_view (io_streams d1)" if "\<forall>ds \<in> set (io_streams d1). rs_inv (ds_stream ds)"
      by (rule each_stream_views [OF e that]) (rule capture_stream_view)
    then have "dev_keeps d1 (d1\<lparr>io_streams := ss, io_buf_state := ca_bs acc\<rparr>)" by (simp add: dev_keeps_def)
    then show ?thesis using 1 put_input_buffer_keeps [OF iod q] dev_keeps_trans by blast
  qed (use 1 in simp)
qed

lemma capture_rounds_keeps:
  assumes "capture_rounds env p n st = Some (rc, d, io)"
  shows "dev_keeps (fst st) d"
proof -
  have "env' = env \<longrightarrow> dev_keeps (fst st) (fst (snd r))"
    if "capture_rounds env' p n st = Some r" for env' :: "('h, 'p, 's) thread_env" and p n st r
  proof (rule capture_rounds.raw_induct [where P = "\<lambda>env' p n st r. env' = env \<longrightarrow> dev_keeps (fst st) (fst (snd r))", OF _ that], intro impI)
    fix f env' p n and st :: "'h iodev \<times> thread_io" and y
    assume ih: "\<And>env' p n st y. f env' p n st = Some y \<Longrightarrow> env' = env \<longrightarrow> dev_keeps (fst st) (fst (snd y))"
      and r: "(if n = 0 then Some (0, st) else do { r \<leftarrow> capture_round env' p n st;
        case fst r of Inl rc \<Rightarrow> Some (rc, snd r) | Inr (rest, go_on) \<Rightarrow> if go_on then f env' p rest (snd r) else Some (0, snd r) }) = Some y"
      and e: "env' = env"
    show "dev_keeps (fst st) (fst (snd y))"
    proof (cases "n = 0")
      case False
      then obtain r1 where c: "capture_round env p n (fst st, snd st) = Some (fst r1, fst (snd r1), snd (snd r1))"
        and k: "(case fst r1 of Inl rc \<Rightarrow> Some (rc, snd r1) | Inr (rest, go_on) \<Rightarrow> if go_on then f env p rest (snd r1) else Some (0, snd r1)) = Some y"
        using r e by (auto simp: bind_eq_Some_conv simp del: split_paired_Ex)
      have "snd y = snd r1 \<or> (\<exists>rest. f env p rest (snd r1) = Some y)" using k by (cases "fst r1") (auto split: if_splits)
      then have "dev_keeps (fst (snd r1)) (fst (snd y))" using ih dev_keeps_refl by metis
      then show ?thesis by (rule dev_keeps_trans [OF capture_round_keeps [OF c]])
    qed (use r in auto)
  qed
  from this [OF assms] show ?thesis by simp
qed

lemma each_stream_keeps:
  assumes "each_stream f (io_streams dev) a = Some (ss, b)"
    and "\<And>ds a ds' b. rs_inv (ds_stream ds) \<Longrightarrow> f ds a = Some (ds', b) \<Longrightarrow> ds_view ds' = ds_view ds"
  shows "dev_keeps dev (dev\<lparr>io_streams := ss\<rparr>)"
  by (rule streams_keep) (rule each_stream_views [OF assms(1) _ assms(2)])

lemma capture_to_streams_shrinks:
  assumes "capture_to_streams env from_here ad w = Some (rc, ad', w')"
  shows "shrinks D w w' \<and> od_dev ad' = od_dev ad"
proof -
  define p where "p = od_dev ad"
  define dev where "dev = get_dev p w"
  obtain ss io where e: "each_stream (flush_stream env) (io_streams dev) (aw_io w) = Some (ss, io)"
    using assms unfolding capture_to_streams_def Let_def by (auto simp: p_def dev_def bind_eq_Some_conv)
  obtain lv t d1 where q: "cras_iodev_frames_queued (te_ops env p) (dev\<lparr>io_streams := ss\<rparr>) = (lv, t, d1)" by (metis prod_cases3)
  have "dev_keeps dev (dev\<lparr>io_streams := ss\<rparr>)" by (rule each_stream_keeps [OF e]) (auto dest: small_stream_views)
  then have 1: "dev_keeps dev d1" by (rule dev_keeps_trans) (rule dev_core_keeps [OF iodev_driver.frames_queued_core [OF iod q]])
  have "\<exists>d. dev_keeps dev d \<and> (\<exists>io. w' = (put_dev p d w)\<lparr>aw_io := io\<rparr>) \<and> od_dev ad' = od_dev ad"
  proof (cases "lv < 0")
    case True
    then show ?thesis using assms e q 1 unfolding capture_to_streams_def Let_def by (auto simp: p_def dev_def simp del: split_paired_Ex)
  next
    case False
    then obtain ad1 d3 where c: "check_rate env (of_int lv) t (aw_dev w) (ad, cras_iodev_update_highest_hw_level (of_int lv) d1) = Some (ad1, d3)"
      using assms e q unfolding capture_to_streams_def Let_def p_def [symmetric] dev_def [symmetric] by (auto simp: bind_eq_Some_conv)
    obtain cl who d4 where l: "get_stream_limit env (of_int lv) d3 = Some (cl, who, d4)"
      using assms e q False c unfolding capture_to_streams_def Let_def p_def [symmetric] dev_def [symmetric] by (auto simp: bind_eq_Some_conv)
    define delay where "delay = input_delay_frames env ((aw_dev w)(p := d4)) from_here 0"
    obtain ss5 io5 where s: "each_stream (set_stream_delay env delay) (io_streams d4) io = Some (ss5, io5)"
      using assms e q False c l unfolding capture_to_streams_def Let_def p_def [symmetric] dev_def [symmetric] delay_def
      by (auto simp: bind_eq_Some_conv)
    have k: "ad' = ad1" "(\<exists>io. w' = (put_dev p (d4\<lparr>io_streams := ss5\<rparr>) w)\<lparr>aw_io := io\<rparr>) \<or>
        (\<exists>n d6 io6. capture_rounds env p n (d4\<lparr>io_streams := ss5\<rparr>, io5) = Some (rc, d6, io6) \<and> w' = (put_dev p d6 w)\<lparr>aw_io := io6\<rparr>)"
      using assms e q False c l s unfolding capture_to_streams_def Let_def p_def [symmetric] dev_def [symmetric] delay_def
      by (auto simp: bind_eq_Some_conv simp del: split_paired_Ex split: if_splits)
    have "dev_keeps d4 (d4\<lparr>io_streams := ss5\<rparr>)" by (rule each_stream_keeps [OF s]) (auto dest: small_stream_views)
    then have 5: "dev_keeps dev (d4\<lparr>io_streams := ss5\<rparr>)"
      by (rule dev_keeps_trans [OF dev_keeps_trans [OF dev_keeps_trans [OF dev_keeps_trans [OF 1 small_keeps(2)] conjunct1 [OF check_rate_keeps [OF c]]] stream_limit_keeps [OF l]]])
    have "od_dev ad' = od_dev ad" using k(1) check_rate_keeps [OF c] by blast
    moreover have "dev_keeps dev d6" if "capture_rounds env p n (d4\<lparr>io_streams := ss5\<rparr>, io5) = Some (rc, d6, io6)" for n d6 io6
      by (rule dev_keeps_trans [OF 5]) (use capture_rounds_keeps [OF that] in simp)
    ultimately show ?thesis using k(2) 5 by metis
  qed
  then show ?thesis using shrinks_put_dev by (auto simp: dev_def)
qed

lemma capture_devs_shrinks: "capture_devs env ps st = Some st' \<Longrightarrow> st_shrinks D st st'"
proof (induction ps arbitrary: st)
  case (Cons p ps)
  show ?case
  proof (cases "find_open p (fst st) = None \<or> \<not> cras_iodev_is_open (aw_dev (snd st) p)")
    case True
    then show ?thesis using Cons by (auto split: option.splits)
  next
    case False
    then obtain ad rc ad1 w1 ods2 w2 where c: "capture_to_streams env (p # ps) ad (snd st) = Some (rc, ad1, w1)"
      and h: "(ods2, w2) = (set_open ad1 (fst st), w1) \<or> handle_dev_err env rc p (set_open ad1 (fst st), w1) = Some (ods2, w2)"
      and r: "capture_devs env ps (ods2, w2) = Some st'"
      using Cons.prems by (auto simp: bind_eq_Some_conv split: if_splits) blast+
    have "st_shrinks D (fst st, snd st) (set_open ad1 (fst st), w1)" by (rule st_shrinksI) (use capture_to_streams_shrinks [OF c] in auto)
    then have "st_shrinks D st (ods2, w2)" using h handle_err_shrinks st_shrinks_trans by (metis prod.collapse)
    then show ?thesis by (rule st_shrinks_trans [OF _ Cons.IH [OF r]])
  qed
qed simp

lemma set_wake_shrinks:
  assumes "set_input_dev_wake_ts env ad b w = Some (rc, ad', b', w')"
  shows "shrinks D w w' \<and> od_dev ad' = od_dev ad"
proof -
  define p where "p = od_dev ad"
  obtain lv t d1 where q: "cras_iodev_frames_queued (te_ops env p) (get_dev p w) = (lv, t, d1)" by (metis prod_cases3)
  have 1: "dev_keeps (get_dev p w) d1" by (rule dev_core_keeps [OF iodev_driver.frames_queued_core [OF iod q]])
  have "\<exists>d io. dev_keeps (get_dev p w) d \<and> w' = (put_dev p d w)\<lparr>aw_io := io\<rparr> \<and> od_dev ad' = od_dev ad"
  proof (cases "lv < 0")
    case True
    then show ?thesis using assms q 1 unfolding set_input_dev_wake_ts_def Let_def p_def by (auto simp del: split_paired_Ex)
  next
    case False
    obtain dropping where dr: "wants_drop lv d1 = Some dropping"
      using assms q False unfolding set_input_dev_wake_ts_def Let_def p_def by (auto simp: bind_eq_Some_conv)
    obtain cl who d2 where l: "get_stream_limit env (- 1) d1 = Some (cl, who, d2)"
      using assms q False unfolding set_input_dev_wake_ts_def Let_def p_def by (auto simp: bind_eq_Some_conv)
    have "w' = (put_dev p d2 w)\<lparr>aw_io := later 3 (aw_io w)\<rparr>" "od_dev ad' = od_dev ad"
      using assms q False dr l unfolding set_input_dev_wake_ts_def Let_def p_def by (auto split: if_splits prod.splits)
    then show ?thesis using dev_keeps_trans [OF 1 stream_limit_keeps [OF l]] by blast
  qed
  then show ?thesis using shrinks_put_dev by auto
qed

lemma drop_time_shrinks: "get_input_devices_drop_time env ps best w = Some (best', w') \<Longrightarrow> shrinks D w w'"
proof (induction ps arbitrary: best w)
  case (Cons p ps)
  obtain rc t d where q: "cras_iodev_frames_queued (te_ops env p) (get_dev p w) = (rc, t, d)" by (metis prod_cases3)
  have 1: "shrinks D w (put_dev p d w)" by (rule shrinks_put_dev [OF dev_core_keeps [OF iodev_driver.frames_queued_core [OF iod q]]])
  have "w' = put_dev p d w \<or> (\<exists>b. get_input_devices_drop_time env ps b w = Some (best', w')) \<or>
      (\<exists>b. get_input_devices_drop_time env ps b (put_dev p d w) = Some (best', w'))"
    using Cons.prems q by (auto simp: Let_def bind_eq_Some_conv split: if_splits)
  then show ?case using 1 Cons.IH shrinks_trans by metis
qed simp

lemma drop_from_devs_shrinks: "drop_from_devs env t ps w = Some w' \<Longrightarrow> shrinks D w w'"
proof (induction ps arbitrary: w)
  case (Cons p ps)
  then have "drop_from_devs env t ps w = Some w' \<or> (\<exists>rc n d. cras_iodev_drop_frames_by_time (te_dbl env) (te_est_rate env) (te_ops env p) t (get_dev p w) = Some (rc, n, d)
      \<and> drop_from_devs env t ps (put_dev p d w) = Some w')" by (auto simp: bind_eq_Some_conv split: if_splits)
  then show ?case using Cons.IH shrinks_put_dev [OF server_driver.drop_by_time_keeps [OF srv]] shrinks_trans by metis
qed simp

lemma drop_samples_shrinks:
  assumes "dev_io_drop_samples env ods w = Some w'"
  shows "shrinks D w w'"
proof -
  obtain best w1 where b: "get_input_devices_drop_time env (map od_dev ods) None w = Some (best, w1)"
    and k: "w' = w1 \<or> (\<exists>t w2 io. drop_from_devs env t (map od_dev ods) w1 = Some w2 \<and> w' = w2\<lparr>aw_io := io\<rparr>)"
    using assms by (auto simp: dev_io_drop_samples_def bind_eq_Some_conv split: if_splits)
  have "shrinks D w1 w'" using k drop_from_devs_shrinks by auto
  then show ?thesis by (rule shrinks_trans [OF drop_time_shrinks [OF b]])
qed

lemma send_captured_shrinks: "send_captured env ps b st = Some (rc, b', st') \<Longrightarrow> st_shrinks D st st'"
proof (induction ps arbitrary: b st)
  case (Cons p ps)
  obtain ods w where st: "st = (ods, w)" by (cases st)
  show ?case
  proof (cases "find_open p ods = None \<or> \<not> cras_iodev_is_open (aw_dev w p)")
    case True
    then show ?thesis using Cons st by (auto split: option.splits)
  next
    case False
    then obtain ad ss io rc1 ad1 b1 w2 where e: "each_stream (post_stream env) (io_streams (get_dev p w)) (aw_io w) = Some (ss, io)"
      and s: "set_input_dev_wake_ts env ad b ((put_dev p ((get_dev p w)\<lparr>io_streams := ss\<rparr>) w)\<lparr>aw_io := io\<rparr>) = Some (rc1, ad1, b1, w2)"
      and k: "st' = (set_open ad1 ods, w2) \<or> send_captured env ps b1 (set_open ad1 ods, w2) = Some (rc, b', st')"
      using Cons.prems by (auto simp: st Let_def bind_eq_Some_conv split: if_splits)
    have "dev_keeps (get_dev p w) ((get_dev p w)\<lparr>io_streams := ss\<rparr>)" by (rule each_stream_keeps [OF e]) (auto dest: small_stream_views)
    then have "shrinks D w ((put_dev p ((get_dev p w)\<lparr>io_streams := ss\<rparr>) w)\<lparr>aw_io := io\<rparr>)" by (simp add: shrinks_put_dev)
    then have "shrinks D w w2" by (rule shrinks_trans) (use set_wake_shrinks [OF s] in blast)
    then have "st_shrinks D st (set_open ad1 ods, w2)" by (simp add: st st_shrinksI)
    then show ?thesis using k Cons.IH st_shrinks_trans by blast
  qed
qed simp

lemma send_captured_samples_shrinks:
  assumes "dev_io_send_captured_samples env st = Some (rc, st')"
  shows "st_shrinks D st st'"
proof -
  obtain rc1 b ods w where s: "send_captured env (map od_dev (fst st)) False st = Some (rc1, b, ods, w)"
    and k: "st' = (ods, w) \<or> (\<exists>w2. dev_io_drop_samples env ods w = Some w2 \<and> st' = (ods, w2))"
    using assms unfolding dev_io_send_captured_samples_def by (auto simp: bind_eq_Some_conv split: if_splits)
  have "st_shrinks D (ods, w) st'" using k drop_samples_shrinks by (auto intro: st_shrinksI)
  then show ?thesis by (rule st_shrinks_trans [OF send_captured_shrinks [OF s]])
qed

lemma longest_wake_devs [simp]: "map od_dev (update_longest_wake w now ods) = map od_dev ods"
  by (simp add: update_longest_wake_def longest_wake_of_def Let_def)

section \<open>A run\<close>

lemma run_shrinks:
  assumes "dev_io_run env remix (odevs, idevs, w) = Some (odevs', idevs', w')"
  shows "\<exists>w3. st_shrinks D (idevs, w) (idevs', w3) \<and> st_shrinks D (odevs, w3) (odevs', w')"
proof -
  define w0 where "w0 = w\<lparr>aw_pic_now := te_now env (fst (aw_io w) + 1), aw_io := later 2 (aw_io w)\<rparr>"
  define ods ids where "ods = update_longest_wake w (te_now env (fst (aw_io w))) odevs" and "ids = update_longest_wake w (te_now env (fst (aw_io w))) idevs"
  obtain w1 idevs2 w2 rc w3 w4 where 1: "dev_io_playback_fetch env ods w0 = Some w1" and 2: "dev_io_capture env (ids, w1) = Some (idevs2, w2)"
    and 3: "dev_io_send_captured_samples env (idevs2, w2) = Some (rc, idevs', w3)" and 4: "dev_io_playback_write env remix (ods, w3) = Some (odevs', w4)"
    and w': "w' = check_non_empty_state_transition odevs' w4"
    using assms(1) unfolding dev_io_run_def Let_def case_prod_beta fst_conv snd_conv w0_def [symmetric] ods_def [symmetric] ids_def [symmetric]
    by (auto simp: bind_eq_Some_conv)
  have "shrinks D w w0" by (simp add: w0_def)
  then have "shrinks D w w1" by (rule shrinks_trans [OF _ playback_fetch_shrinks [OF 1]])
  then have "st_shrinks D (idevs, w) (ids, w1)" by (intro st_shrinksI) (simp_all add: ids_def)
  moreover have "st_shrinks D (ids, w1) (idevs2, w2)" using 2 unfolding dev_io_capture_def by (rule capture_devs_shrinks)
  moreover have "st_shrinks D (idevs2, w2) (idevs', w3)" by (rule send_captured_samples_shrinks [OF 3])
  ultimately have i: "st_shrinks D (idevs, w) (idevs', w3)" using st_shrinks_trans by blast
  have "st_shrinks D (odevs, w3) (ods, w3)" by (rule st_shrinksI) (simp_all add: ods_def)
  moreover have "st_shrinks D (ods, w3) (odevs', w4)" by (rule playback_write_shrinks [OF 4])
  moreover have "st_shrinks D (odevs', w4) (odevs', w')" by (rule st_shrinksI [OF shrinks_io]) (simp_all add: w')
  ultimately have "st_shrinks D (odevs, w3) (odevs', w')" using st_shrinks_trans by blast
  then show ?thesis using i by blast
qed

end

end
