(* ===== verification/Audio_Thread.thy ===== *)
theory Audio_Thread
  imports Thread_Run
begin

text \<open>
  \<^verbatim>\<open>server/audio_thread.c\<close>: the lists of open devices per direction, the messages of the main thread and their
  answers, the descriptors the thread polls and how long it sleeps.  A call of the main thread is synchronous, so it is the
  handling of its message; the bytes in the pipes are modelled apart, in \<open>read_until_finished\<close> and
  \<open>audio_thread_read_command\<close>.
\<close>

section \<open>State\<close>

record iodev_callback =
  icb_fd :: int
  icb_events :: u32
  icb_enabled :: bool
  icb_cb :: nat
  icb_data :: nat
  icb_pollfd :: "nat option"   \<comment> \<open>the index of the entry in the array of descriptors\<close>

record 'h audio_thread =
  at_started :: bool
  at_open_devs :: "u32 \<Rightarrow> open_dev list"
  at_pollfds :: "(int \<times> u32) list"
  at_num_pollfds :: nat
  at_remix :: "nat option"
  at_callbacks :: "iodev_callback list"
  at_world :: "'h audio_world"
  at_zero_sleeps :: int
  at_busyloops :: u32
  at_busy_since :: "timespec option"   \<comment> \<open>\<^verbatim>\<open>start_time\<close>, while \<^verbatim>\<open>started\<close>\<close>

datatype audio_thread_msg =
    ADD_STREAM u32 "nat list"
  | DISCONNECT_STREAM u32 "nat option"
  | ADD_OPEN_DEV nat
  | RM_OPEN_DEV u32 u32
  | IS_DEV_OPEN nat
  | STOP
  | DUMP_THREAD_INFO
  | DRAIN_STREAM u32
  | REMOVE_CALLBACK int
  | CONFIG_GLOBAL_REMIX "nat option"
  | DEV_START_RAMP u32 ramp_request
  | AEC_DUMP u32 u32 int
  | UNKNOWN_COMMAND

section \<open>Callbacks\<close>

definition audio_thread_add_events_callback :: "int \<Rightarrow> nat \<Rightarrow> nat \<Rightarrow> u32 \<Rightarrow> iodev_callback list \<Rightarrow> iodev_callback list" where
  "audio_thread_add_events_callback f cb d events cbs =
     (if \<exists>c \<in> set cbs. icb_fd c = f \<and> icb_data c = d then cbs
      else cbs @ [\<lparr>icb_fd = f, icb_events = events, icb_enabled = True, icb_cb = cb, icb_data = d, icb_pollfd = None\<rparr>])"

fun audio_thread_rm_callback :: "int \<Rightarrow> iodev_callback list \<Rightarrow> iodev_callback list" where
  "audio_thread_rm_callback f [] = []"
| "audio_thread_rm_callback f (c # cs) = (if icb_fd c = f then cs else c # audio_thread_rm_callback f cs)"

fun audio_thread_enable_callback :: "int \<Rightarrow> int \<Rightarrow> iodev_callback list \<Rightarrow> iodev_callback list" where
  "audio_thread_enable_callback f enabled [] = []"
| "audio_thread_enable_callback f enabled (c # cs) =
     (if icb_fd c = f then c\<lparr>icb_enabled := enabled \<noteq> 0\<rparr> # cs else c # audio_thread_enable_callback f enabled cs)"

section \<open>Reading a command\<close>

text \<open>What a \<^verbatim>\<open>read\<close> of the pipe does: it is interrupted, fails, or returns at most so many bytes, and none at the end.  A read
  that has no outcome blocks.\<close>

datatype pipe_read = Interrupted | Failed | Returns nat

fun read_loop :: "pipe_read list \<Rightarrow> u8 list \<Rightarrow> int \<Rightarrow> u8 list \<Rightarrow> ((int + u8 list) \<times> pipe_read list \<times> u8 list) option" where
  \<comment> \<open>the bytes read so far come last; an error or all bytes, the outcomes and bytes left\<close>
  "read_loop outs pipe count_left buf =
     (if count_left \<le> 0 then Some (Inr buf, outs, pipe)
      else case outs of [] \<Rightarrow> None
      | Interrupted # rest \<Rightarrow> read_loop rest pipe count_left buf
      | Failed # rest \<Rightarrow> Some (Inl (- 1), rest, pipe)
      | Returns n # rest \<Rightarrow>
          let k = min n (min (nat count_left) (length pipe)) in
          if k = 0 then Some (Inl (- EPIPE), rest, pipe)
          else read_loop rest (drop k pipe) (count_left - int k) (buf @ take k pipe))"

declare read_loop.simps [simp del]

definition read_until_finished :: "pipe_read list \<Rightarrow> u8 list \<Rightarrow> u64 \<Rightarrow> (int \<times> u8 list \<times> pipe_read list \<times> u8 list) option" where
  \<comment> \<open>the result, the bytes, the outcomes and the bytes left\<close>
  "read_until_finished outs pipe count =
     (let left = sint (ucast count :: u32) in
      map_option (\<lambda>(r, outs', pipe'). case r of Inl e \<Rightarrow> (e, [], outs', pipe') | Inr buf \<Rightarrow> (left, buf, outs', pipe'))
        (read_loop outs pipe left []))"

fun le_word :: "u8 list \<Rightarrow> u64" where
  "le_word [] = 0"
| "le_word (b # bs) = ucast b OR push_bit 8 (le_word bs)"

definition audio_thread_read_command :: "pipe_read list \<Rightarrow> u8 list \<Rightarrow> u64 \<Rightarrow> (int \<times> u8 list \<times> pipe_read list \<times> u8 list) option" where
  "audio_thread_read_command outs pipe max_len =
     do {
       (nread, hdr, outs1, pipe1) \<leftarrow> read_until_finished outs pipe 8;
       if nread < 0 then Some (nread, [], outs1, pipe1)
       else if le_word hdr > max_len then Some (- ENOMEM, hdr, outs1, pipe1)
       else do {
         let to_read = (ucast (le_word hdr - 8) :: u32);
         (rc, body, outs2, pipe2) \<leftarrow> read_until_finished outs1 pipe1 (scast to_read);
         Some (if rc < 0 then rc else 0, hdr @ body, outs2, pipe2) } }"

section \<open>Debug information\<close>

abbreviation devs_of :: "u32 \<Rightarrow> 'h audio_thread \<Rightarrow> open_dev list" where "devs_of dir th \<equiv> at_open_devs th dir"

text \<open>The names of the devices and the effects of the streams are left out.\<close>

record audio_dev_debug_info =
  di_buffer_size :: u32
  di_min_buffer_level :: u32
  di_min_cb_level :: u32
  di_max_cb_level :: u32
  di_frame_rate :: u32
  di_num_channels :: u32
  di_est_rate_ratio :: rat
  di_direction :: u8
  di_num_underruns :: u32
  di_num_severe_underruns :: u32
  di_highest_hw_level :: u32
  di_runtime :: "u32 \<times> u32"
  di_longest_wake :: "u32 \<times> u32"
  di_software_gain_scaler :: c_float

record audio_stream_debug_info =
  si_stream_id :: u64
  si_dev_idx :: u32
  si_direction :: u32
  si_stream_type :: u32
  si_client_type :: u32
  si_buffer_frames :: u32
  si_cb_threshold :: u32
  si_frame_rate :: u32
  si_num_channels :: u32
  si_longest_fetch :: "u32 \<times> u32"
  si_num_missed_cb :: u32
  si_num_overruns :: u32
  si_is_pinned :: bool
  si_pinned_dev_idx :: u32
  si_runtime :: "u32 \<times> u32"
  si_stream_volume :: c_float
  si_channel_layout :: "int list"

record audio_debug_info =
  ai_devs :: "audio_dev_debug_info list"
  ai_streams :: "audio_stream_debug_info list"

definition MAX_DEBUG_DEVS :: nat where "MAX_DEBUG_DEVS = 4"
definition MAX_DEBUG_STREAMS :: nat where "MAX_DEBUG_STREAMS = 8"

abbreviation ts_words :: "timespec \<Rightarrow> u32 \<times> u32" where "ts_words t \<equiv> (of_int (tv_sec t), of_int (tv_nsec t))"

definition append_dev_dump_info :: "('h, 'p, 's) thread_env \<Rightarrow> timespec \<Rightarrow> 'h iodev \<Rightarrow> open_dev \<Rightarrow> audio_dev_debug_info" where
  "append_dev_dump_info env now dev ad =
     \<lparr>di_buffer_size = ucast (io_buffer_size dev), di_min_buffer_level = io_min_buffer_level dev, di_min_cb_level = io_min_cb_level dev,
      di_max_cb_level = io_max_cb_level dev,
      di_frame_rate = (case io_format dev of None \<Rightarrow> 0 | Some fmt \<Rightarrow> ucast (frame_rate fmt)),
      di_num_channels = (case io_format dev of None \<Rightarrow> 0 | Some fmt \<Rightarrow> ucast (num_channels fmt)),
      di_est_rate_ratio = (case cras_iodev_get_est_rate_ratio (te_dbl env) (te_est_rate env) dev of None \<Rightarrow> 0 | Some r \<Rightarrow> r),
      di_direction = ucast (io_direction dev), di_num_underruns = io_num_underruns dev,
      di_num_severe_underruns = cras_iodev_get_num_severe_underruns (te_ops env (od_dev ad)) dev,
      di_highest_hw_level = io_highest_hw_level dev, di_runtime = ts_words (subtract_timespecs now (io_open_ts dev)),
      di_longest_wake = ts_words (od_longest_wake ad),
      di_software_gain_scaler = (if io_direction dev = CRAS_STREAM_INPUT then io_software_gain_scaler dev else Fin 0)\<rparr>"

definition append_stream_dump_info :: "timespec \<Rightarrow> u32 \<Rightarrow> 'd cras_rstream \<Rightarrow> audio_stream_debug_info" where
  "append_stream_dump_info now idx s =
     \<lparr>si_stream_id = ucast (stream_id s), si_dev_idx = idx, si_direction = direction s, si_stream_type = stream_type s,
      si_client_type = client_type s, si_buffer_frames = ucast (buffer_frames s), si_cb_threshold = ucast (cb_threshold s),
      si_frame_rate = ucast (frame_rate (rs_format s)), si_num_channels = ucast (num_channels (rs_format s)),
      si_longest_fetch = ts_words (longest_fetch_interval s), si_num_missed_cb = of_int (num_missed_cb s),
      si_num_overruns = cras_shm_num_overruns (shm s), si_is_pinned = is_pinned s, si_pinned_dev_idx = pinned_dev_idx s,
      si_runtime = ts_words (subtract_timespecs now (start_ts s)), si_stream_volume = cras_rstream_get_volume_scaler s,
      si_channel_layout = channel_layout (rs_format s)\<rparr>"

fun dump_streams :: "('h, 'p, 's) thread_env \<Rightarrow> u32 \<Rightarrow> 'd dev_stream list \<Rightarrow> audio_debug_info \<times> thread_io \<Rightarrow> audio_debug_info \<times> thread_io" where
  "dump_streams env idx [] st = st"
| "dump_streams env idx (ds # dss) st =
     (let (info, io) = st in
      if length (ai_streams info) = MAX_DEBUG_STREAMS then st
      else dump_streams env idx dss
        (info\<lparr>ai_streams := ai_streams info @ [append_stream_dump_info (te_now env (fst io)) idx (ds_stream ds)]\<rparr>, later 1 io))"

definition dump_dev :: "('h, 'p, 's) thread_env \<Rightarrow> 'h audio_world \<Rightarrow> open_dev \<Rightarrow> audio_debug_info \<times> thread_io \<Rightarrow> audio_debug_info \<times> thread_io" where
  "dump_dev env w ad st =
     (fst st\<lparr>ai_devs := ai_devs (fst st) @ [append_dev_dump_info env (te_now env (fst (snd st))) (get_dev (od_dev ad) w) ad]\<rparr>, later 1 (snd st))"

fun dump_outputs :: "('h, 'p, 's) thread_env \<Rightarrow> 'h audio_world \<Rightarrow> open_dev list \<Rightarrow> audio_debug_info \<times> thread_io \<Rightarrow>
    audio_debug_info \<times> thread_io" where
  \<comment> \<open>the loop ends before the streams of the last device that fits\<close>
  "dump_outputs env w [] st = st"
| "dump_outputs env w (ad # ads) st =
     (let st1 = dump_dev env w ad st; dev = get_dev (od_dev ad) w in
      if length (ai_devs (fst st1)) = MAX_DEBUG_DEVS then st1
      else dump_outputs env w ads (dump_streams env (io_idx dev) (io_streams dev) st1))"

fun dump_inputs :: "('h, 'p, 's) thread_env \<Rightarrow> 'h audio_world \<Rightarrow> open_dev list \<Rightarrow> audio_debug_info \<times> thread_io \<Rightarrow>
    audio_debug_info \<times> thread_io" where
  "dump_inputs env w [] st = st"
| "dump_inputs env w (ad # ads) st =
     (let dev = get_dev (od_dev ad) w in
      if length (ai_devs (fst st)) = MAX_DEBUG_DEVS then st
      else dump_inputs env w ads (dump_streams env (io_idx dev) (io_streams dev) (dump_dev env w ad st)))"

definition dump_thread_info :: "('h, 'p, 's) thread_env \<Rightarrow> 'h audio_thread \<Rightarrow> audio_debug_info \<times> thread_io" where
  "dump_thread_info env th =
     (let w = at_world th in
      dump_inputs env w (devs_of CRAS_STREAM_INPUT th)
        (dump_outputs env w (devs_of CRAS_STREAM_OUTPUT th) (\<lparr>ai_devs = [], ai_streams = []\<rparr>, aw_io w)))"

datatype thread_answer = Answer int | Old_remix "nat option" | Dumped audio_debug_info | Stopped

section \<open>Messages\<close>

definition with_devs :: "u32 \<Rightarrow> open_dev list \<times> 'h audio_world \<Rightarrow> 'h audio_thread \<Rightarrow> 'h audio_thread" where
  "with_devs dir st th = th\<lparr>at_open_devs := (at_open_devs th)(dir := fst st), at_world := snd st\<rparr>"

definition fill_odevs_zeros_min_level :: "('h, 'p, 's) thread_env \<Rightarrow> nat \<Rightarrow> 'h iodev \<Rightarrow> (int \<times> 'h iodev) option" where
  "fill_odevs_zeros_min_level env p dev = cras_iodev_fill_odev_zeros (te_iodev env) (te_sys env) (te_ops env p) (io_min_buffer_level dev) dev"

definition new_open_dev :: "nat \<Rightarrow> open_dev" where
  "new_open_dev p = \<lparr>od_dev = p, od_last_wake = Timespec 0 0, od_longest_wake = Timespec 0 0, od_wake_ts = Timespec 0 0,
     od_non_empty_check_pi = None, od_empty_pi = None, od_coarse_rate_adjust = 0\<rparr>"

definition thread_add_open_dev :: "('h, 'p, 's) thread_env \<Rightarrow> nat \<Rightarrow> 'h audio_thread \<Rightarrow> (int \<times> 'h audio_thread) option" where
  "thread_add_open_dev env p th =
     (let w = at_world th; dir = io_direction (aw_dev w p) in
      if find_open p (devs_of dir th) \<noteq> None then Some (- EEXIST, th)
      else map_option (\<lambda>(rc, d). (0, with_devs dir (devs_of dir th @ [new_open_dev p], put_dev p d w) th))
        (if dir = CRAS_STREAM_OUTPUT then fill_odevs_zeros_min_level env p (get_dev p w) else Some (0, get_dev p w)))"

definition thread_rm_open_dev :: "('h, 'p, 's) thread_env \<Rightarrow> u32 \<Rightarrow> u32 \<Rightarrow> 'h audio_thread \<Rightarrow> (int \<times> 'h audio_thread) option" where
  "thread_rm_open_dev env dir idx th =
     (case dev_io_find_open_dev (at_world th) idx (devs_of dir th) of None \<Rightarrow> Some (- EINVAL, th)
      | Some ad \<Rightarrow> map_option (\<lambda>st. (0, with_devs dir st th)) (dev_io_rm_open_dev env (od_dev ad) (devs_of dir th, at_world th)))"

definition thread_is_dev_open :: "nat \<Rightarrow> 'h audio_thread \<Rightarrow> int" where
  "thread_is_dev_open p th =
     (let dev = aw_dev (at_world th) p in
      if dev_io_find_open_dev (at_world th) (io_idx dev) (devs_of (io_direction dev) th) = None then 0 else 1)"

definition thread_dev_start_ramp :: "('h, 'p, 's) thread_env \<Rightarrow> u32 \<Rightarrow> ramp_request \<Rightarrow> 'h audio_thread \<Rightarrow> (int \<times> 'h audio_thread) option" where
  "thread_dev_start_ramp env idx request th =
     (let w = at_world th in
      case dev_io_find_open_dev w idx (devs_of CRAS_STREAM_OUTPUT th) of None \<Rightarrow> Some (- EINVAL, th)
      | Some ad \<Rightarrow>
          let p = od_dev ad; dev = get_dev p w in
          if io_ramp dev \<noteq> None \<and> io_state dev = CRAS_IODEV_STATE_NORMAL_RUN \<and> \<not> cras_iodev_is_zero_volume (te_sys env) dev
          then map_option (\<lambda>(rc, d). (rc, th\<lparr>at_world := put_dev p d w\<rparr>)) (cras_iodev_start_ramp (te_iodev env) request dev)
          else let rc = te_send env (fst (aw_io w)) in
            Some (if rc < 0 then rc else 0, th\<lparr>at_world := w\<lparr>aw_io := later 1 (emit (Set_mute_msg (io_idx dev)) (aw_io w))\<rparr>\<rparr>))"

definition thread_find_stream :: "u32 \<Rightarrow> 'h audio_thread \<Rightarrow> bool" where
  "thread_find_stream sid th =
     (let w = at_world th in
      list_ex (\<lambda>ad. sid \<in> set (dev_sids (aw_dev w (od_dev ad)))) (devs_of (direction (aw_stream w sid)) th))"

definition thread_disconnect_stream :: "('h, 'p, 's) thread_env \<Rightarrow> u32 \<Rightarrow> nat option \<Rightarrow> 'h audio_thread \<Rightarrow> (int \<times> 'h audio_thread) option" where
  "thread_disconnect_stream env sid dev th =
     (if \<not> thread_find_stream sid th then Some (0, th)
      else map_option (\<lambda>w. (0, th\<lparr>at_world := w\<rparr>))
        (dev_io_remove_stream env (devs_of (direction (aw_stream (at_world th) sid)) th) sid dev (at_world th)))"

definition thread_drain_stream_ms_remaining :: "'d cras_rstream \<Rightarrow> int \<times> 'd cras_rstream" where
  "thread_drain_stream_ms_remaining s =
     (if direction s \<noteq> CRAS_STREAM_OUTPUT then (0, s)
      else let fr = cras_shm_get_frames (shm s) in
        if fr \<le> 0 then (0, s)
        else (sint (1 + cras_frames_to_ms (of_int fr) (ucast (frame_rate (rs_format s)))), s\<lparr>is_draining := 1\<rparr>))"

definition thread_drain_stream :: "('h, 'p, 's) thread_env \<Rightarrow> u32 \<Rightarrow> 'h audio_thread \<Rightarrow> (int \<times> 'h audio_thread) option" where
  "thread_drain_stream env sid th =
     (if \<not> thread_find_stream sid th then Some (0, th)
      else
        let (ms_left, s) = thread_drain_stream_ms_remaining (aw_stream (at_world th) sid);
            w = put_stream s (at_world th)
        in if ms_left \<noteq> 0 then Some (ms_left, th\<lparr>at_world := w\<rparr>)
           else map_option (\<lambda>w1. (0, th\<lparr>at_world := w1\<rparr>)) (dev_io_remove_stream env (devs_of (direction s) th) sid None w))"

definition thread_add_stream :: "('h, 'p, 's) thread_env \<Rightarrow> u32 \<Rightarrow> nat list \<Rightarrow> 'h audio_thread \<Rightarrow> (int \<times> 'h audio_thread) option" where
  "thread_add_stream env sid devs th =
     (let dir = direction (aw_stream (at_world th) sid) in
      map_option (\<lambda>(rc, st). (if rc < 0 then rc else 0, with_devs dir st th))
        (dev_io_append_stream env sid devs (devs_of dir th, at_world th)))"

definition thread_set_aec_dump :: "('h, 'p, 's) thread_env \<Rightarrow> u32 \<Rightarrow> u32 \<Rightarrow> int \<Rightarrow> 'h audio_thread \<Rightarrow> 'h audio_thread" where
  \<comment> \<open>on the processing module of the stream for the device, where there is one\<close>
  "thread_set_aec_dump env sid start f th =
     (let w = at_world th;
          ps = filter (\<lambda>p. cras_iodev_is_open (aw_dev w p) \<and> sid \<in> set (dev_sids (aw_dev w p)) \<and> te_apm env p sid \<noteq> None)
            (map od_dev (devs_of CRAS_STREAM_INPUT th))
      in th\<lparr>at_world := w\<lparr>aw_io := fold (\<lambda>p. emit (Aec_dump sid p start f)) ps (aw_io w)\<rparr>\<rparr>)"

definition handle_playback_thread_message :: "('h, 'p, 's) thread_env \<Rightarrow> audio_thread_msg \<Rightarrow> 'h audio_thread \<Rightarrow>
    (thread_answer \<times> 'h audio_thread) option" where
  "handle_playback_thread_message env msg th =
     (case msg of
        ADD_STREAM sid devs \<Rightarrow> map_option (apfst Answer) (thread_add_stream env sid devs th)
      | DISCONNECT_STREAM sid dev \<Rightarrow> map_option (apfst Answer) (thread_disconnect_stream env sid dev th)
      | ADD_OPEN_DEV p \<Rightarrow> map_option (apfst Answer) (thread_add_open_dev env p th)
      | RM_OPEN_DEV dir idx \<Rightarrow> map_option (apfst Answer) (thread_rm_open_dev env dir idx th)
      | IS_DEV_OPEN p \<Rightarrow> Some (Answer (thread_is_dev_open p th), th)
      | STOP \<Rightarrow> Some (Stopped, th)
      | DUMP_THREAD_INFO \<Rightarrow> let (info, io) = dump_thread_info env th in Some (Dumped info, th\<lparr>at_world := (at_world th)\<lparr>aw_io := io\<rparr>\<rparr>)
      | DRAIN_STREAM sid \<Rightarrow> map_option (apfst Answer) (thread_drain_stream env sid th)
      | REMOVE_CALLBACK f \<Rightarrow> Some (Answer 0, th\<lparr>at_callbacks := audio_thread_rm_callback f (at_callbacks th)\<rparr>)
      | CONFIG_GLOBAL_REMIX conv \<Rightarrow> Some (Old_remix (at_remix th), th\<lparr>at_remix := conv\<rparr>)
      | DEV_START_RAMP idx request \<Rightarrow> map_option (apfst Answer) (thread_dev_start_ramp env idx request th)
      | AEC_DUMP sid start f \<Rightarrow> Some (Answer 0, thread_set_aec_dump env sid start f th)
      | UNKNOWN_COMMAND \<Rightarrow> Some (Answer (- EINVAL), th))"

section \<open>Sleeping\<close>

definition fill_next_sleep_interval :: "('h, 'p, 's) thread_env \<Rightarrow> 'h audio_thread \<Rightarrow> int \<times> timespec \<times> 'h audio_thread" where
  \<comment> \<open>the number of streams and devices to wait for, the time to sleep\<close>
  "fill_next_sleep_interval env th =
     (let w = at_world th; now = te_now env (fst (aw_io w));
          min_ts = add_timespecs (Timespec 20 0) now;
          (n, t1) = dev_io_next_output_wake env w (devs_of CRAS_STREAM_OUTPUT th) min_ts;
          (m, t2) = dev_io_next_input_wake w (devs_of CRAS_STREAM_INPUT th) t1
      in (n + m, if timespec_after t2 now then subtract_timespecs t2 now else Timespec 0 0,
          th\<lparr>at_world := w\<lparr>aw_io := later 1 (aw_io w)\<rparr>\<rparr>))"

definition log_busyloop :: "('h, 'p, 's) thread_env \<Rightarrow> timespec option \<Rightarrow> 'h audio_thread \<Rightarrow> 'h audio_thread" where
  "log_busyloop env wait_ts th =
     (let w = at_world th; now = te_now env (fst (aw_io w)) in
      case (wait_ts, at_busy_since th) of
        (Some _, None) \<Rightarrow> th\<lparr>at_busy_since := Some now, at_busyloops := 0, at_world := w\<lparr>aw_io := later 1 (aw_io w)\<rparr>\<rparr>
      | (None, Some t) \<Rightarrow> th\<lparr>at_busy_since := None,
          at_world := w\<lparr>aw_io := later 1 (emit (Busyloops (subtract_timespecs now t) (at_busyloops th)) (aw_io w))\<rparr>\<rparr>
      | _ \<Rightarrow> th)"

definition check_busyloop :: "timespec \<Rightarrow> 'h audio_thread \<Rightarrow> 'h audio_thread" where
  "check_busyloop wait_ts th =
     (if tv_sec wait_ts = 0 \<and> tv_nsec wait_ts = 0
      then let th1 = th\<lparr>at_zero_sleeps := at_zero_sleeps th + 1\<rparr> in
        if at_zero_sleeps th1 = 2
        then th1\<lparr>at_busyloops := at_busyloops th1 + 1, at_world := (at_world th1)\<lparr>aw_io := emit Busyloop (aw_io (at_world th1))\<rparr>\<rparr>
        else th1
      else th\<lparr>at_zero_sleeps := 0\<rparr>)"

section \<open>Polling\<close>

text \<open>Writing past the array is \<open>None\<close>; the memory that \<^verbatim>\<open>realloc\<close> adds has any contents.\<close>

type_synonym poll_set = "(int \<times> u32) list \<times> nat"

definition add_pollfd :: "(nat \<Rightarrow> int \<times> u32) \<Rightarrow> int \<Rightarrow> u32 \<Rightarrow> poll_set \<Rightarrow> (nat option \<times> poll_set) option" where
  "add_pollfd junk f events ps =
     (let (fds, n) = ps in
      if n \<ge> length fds then None
      else let fds1 = fds[n := (f, events)] in
        if n + 1 \<ge> length fds1 then Some (None, fds1 @ map junk [length fds1 ..< 2 * length fds1], n + 1)
        else Some (Some n, fds1, n + 1))"

fun add_callback_fds :: "(nat \<Rightarrow> int \<times> u32) \<Rightarrow> iodev_callback list \<Rightarrow> poll_set \<Rightarrow> (bool \<times> iodev_callback list \<times> poll_set) option" where
  \<comment> \<open>whether all were added\<close>
  "add_callback_fds junk [] ps = Some (True, [], ps)"
| "add_callback_fds junk (c # cs) ps =
     (if \<not> icb_enabled c then map_option (\<lambda>(ok, cs1, ps1). (ok, c\<lparr>icb_pollfd := None\<rparr> # cs1, ps1)) (add_callback_fds junk cs ps)
      else do {
        (i, ps1) \<leftarrow> add_pollfd junk (icb_fd c) (icb_events c) ps;
        if i = None then Some (False, c\<lparr>icb_pollfd := None\<rparr> # cs, ps1)
        else map_option (\<lambda>(ok, cs1, ps2). (ok, c\<lparr>icb_pollfd := i\<rparr> # cs1, ps2)) (add_callback_fds junk cs ps1) })"

definition POLLIN :: u32 where "POLLIN = 1"

fun add_stream_fds :: "(nat \<Rightarrow> int \<times> u32) \<Rightarrow> 'd cras_rstream list \<Rightarrow> poll_set \<Rightarrow> (bool \<times> poll_set) option" where
  "add_stream_fds junk [] ps = Some (True, ps)"
| "add_stream_fds junk (s # ss) ps =
     (let f = dev_stream_poll_stream_fd s in
      if f < 0 then add_stream_fds junk ss ps
      else do { (i, ps1) \<leftarrow> add_pollfd junk f POLLIN ps; if i = None then Some (False, ps1) else add_stream_fds junk ss ps1 })"

definition open_streams :: "'h audio_world \<Rightarrow> open_dev list \<Rightarrow> nat cras_rstream list" where
  "open_streams w ods = concat (map (\<lambda>ad. map ds_stream (io_streams (get_dev (od_dev ad) w))) ods)"

partial_function (option) poll_loop :: "(nat \<Rightarrow> int \<times> u32) \<Rightarrow> nat cras_rstream list \<Rightarrow> nat cras_rstream list \<Rightarrow> iodev_callback list \<Rightarrow>
    (int \<times> u32) list \<Rightarrow> (iodev_callback list \<times> poll_set) option" where
  \<comment> \<open>from \<^verbatim>\<open>restart_poll_loop\<close> to the call of \<^verbatim>\<open>ppoll\<close>\<close>
  "poll_loop junk outs ins cbs fds =
     do {
       (ok, cbs1, ps1) \<leftarrow> add_callback_fds junk cbs (fds, 1);
       if \<not> ok then poll_loop junk outs ins cbs1 (fst ps1)
       else do {
         (ok2, ps2) \<leftarrow> add_stream_fds junk outs ps1;
         if \<not> ok2 then poll_loop junk outs ins cbs1 (fst ps2)
         else do {
           (ok3, ps3) \<leftarrow> add_stream_fds junk ins ps2;
           if \<not> ok3 then poll_loop junk outs ins cbs1 (fst ps3) else Some (cbs1, ps3) } } }"

declare poll_loop.simps [code]

definition setup_poll :: "(nat \<Rightarrow> int \<times> u32) \<Rightarrow> 'h audio_thread \<Rightarrow> 'h audio_thread option" where
  "setup_poll junk th =
     (let w = at_world th in
      map_option (\<lambda>(cbs, fds, n). th\<lparr>at_callbacks := cbs, at_pollfds := fds, at_num_pollfds := n\<rparr>)
        (poll_loop junk (open_streams w (devs_of CRAS_STREAM_OUTPUT th)) (open_streams w (devs_of CRAS_STREAM_INPUT th)) (at_callbacks th) (at_pollfds th)))"

definition due_callbacks :: "(nat \<Rightarrow> u32) \<Rightarrow> iodev_callback list \<Rightarrow> (nat \<times> nat \<times> u32) list" where
  \<comment> \<open>the calls after \<^verbatim>\<open>ppoll\<close> returned these events: function, data, events\<close>
  "due_callbacks revents cbs =
     List.map_filter (\<lambda>c. case icb_pollfd c of None \<Rightarrow> None
       | Some i \<Rightarrow> if revents i AND icb_events c \<noteq> 0 then Some (icb_cb c, icb_data c, revents i) else None) cbs"

section \<open>One round of the thread\<close>

definition io_thread_run :: "('h, 'p, 's) thread_env \<Rightarrow> (nat \<Rightarrow> int \<times> u32) \<Rightarrow> 'h audio_thread \<Rightarrow> (timespec option \<times> 'h audio_thread) option" where
  \<comment> \<open>up to the call of \<^verbatim>\<open>ppoll\<close>: how long it may wait\<close>
  "io_thread_run env junk th =
     do {
       (ods, ids, w) \<leftarrow> dev_io_run env (at_remix th \<noteq> None) (devs_of CRAS_STREAM_OUTPUT th, devs_of CRAS_STREAM_INPUT th, at_world th);
       let th1 = th\<lparr>at_open_devs := (at_open_devs th)(CRAS_STREAM_OUTPUT := ods, CRAS_STREAM_INPUT := ids), at_world := w\<rparr>;
       let (n, ts0, th2) = fill_next_sleep_interval env th1;
       let wait_ts = (if n \<noteq> 0 then Some ts0 else None);
       th3 \<leftarrow> setup_poll junk th2;
       let th4 = log_busyloop env wait_ts th3;
       Some (wait_ts, case wait_ts of None \<Rightarrow> th4 | Some t \<Rightarrow> check_busyloop t th4) }"

definition io_thread_wake :: "('h, 'p, 's) thread_env \<Rightarrow> int \<Rightarrow> (nat \<Rightarrow> u32) \<Rightarrow> audio_thread_msg \<Rightarrow> 'h audio_thread \<Rightarrow>
    (thread_answer option \<times> (nat \<times> nat \<times> u32) list \<times> 'h audio_thread) option" where
  \<comment> \<open>the result and the events of \<^verbatim>\<open>ppoll\<close>, the message in the pipe: the answer and the calls of the callbacks\<close>
  "io_thread_wake env rc revents msg th =
     (if rc \<le> 0 then Some (None, [], th)
      else do {
        (ans, th1) \<leftarrow> (if revents 0 AND POLLIN \<noteq> 0 then map_option (apfst Some) (handle_playback_thread_message env msg th) else Some (None, th));
        Some (ans, due_callbacks revents (at_callbacks th1), th1) })"

section \<open>Calls of the main thread\<close>

text \<open>The results of writing the message and of reading the answer are parameters.\<close>

definition audio_thread_post_message :: "('h, 'p, 's) thread_env \<Rightarrow> int \<times> int \<Rightarrow> audio_thread_msg \<Rightarrow> 'h audio_thread \<Rightarrow>
    (int \<times> 'h audio_thread) option" where
  "audio_thread_post_message env io msg th =
     (if fst io < 0 then Some (fst io, th)
      else do {
        (ans, th1) \<leftarrow> handle_playback_thread_message env msg th;
        Some (if snd io < 0 then snd io else case ans of Answer rc \<Rightarrow> rc | _ \<Rightarrow> 0, th1) })"

definition audio_thread_add_stream :: "('h, 'p, 's) thread_env \<Rightarrow> int \<times> int \<Rightarrow> u32 \<Rightarrow> nat list \<Rightarrow> 'h audio_thread \<Rightarrow> (int \<times> 'h audio_thread) option" where
  "audio_thread_add_stream env io sid devs th =
     (if \<not> at_started th then Some (- EINVAL, th) else audio_thread_post_message env io (ADD_STREAM sid devs) th)"

definition audio_thread_disconnect_stream :: "('h, 'p, 's) thread_env \<Rightarrow> int \<times> int \<Rightarrow> u32 \<Rightarrow> nat option \<Rightarrow> 'h audio_thread \<Rightarrow> (int \<times> 'h audio_thread) option" where
  "audio_thread_disconnect_stream env io sid dev th = audio_thread_post_message env io (DISCONNECT_STREAM sid dev) th"

definition audio_thread_drain_stream :: "('h, 'p, 's) thread_env \<Rightarrow> int \<times> int \<Rightarrow> u32 \<Rightarrow> 'h audio_thread \<Rightarrow> (int \<times> 'h audio_thread) option" where
  "audio_thread_drain_stream env io sid th = audio_thread_post_message env io (DRAIN_STREAM sid) th"

definition audio_thread_add_open_dev :: "('h, 'p, 's) thread_env \<Rightarrow> int \<times> int \<Rightarrow> nat \<Rightarrow> 'h audio_thread \<Rightarrow> (int \<times> 'h audio_thread) option" where
  "audio_thread_add_open_dev env io p th =
     (if \<not> at_started th then Some (- EINVAL, th) else audio_thread_post_message env io (ADD_OPEN_DEV p) th)"

definition audio_thread_rm_open_dev :: "('h, 'p, 's) thread_env \<Rightarrow> int \<times> int \<Rightarrow> u32 \<Rightarrow> u32 \<Rightarrow> 'h audio_thread \<Rightarrow> (int \<times> 'h audio_thread) option" where
  "audio_thread_rm_open_dev env io dir idx th =
     (if \<not> at_started th then Some (- EINVAL, th) else audio_thread_post_message env io (RM_OPEN_DEV dir idx) th)"

definition audio_thread_is_dev_open :: "('h, 'p, 's) thread_env \<Rightarrow> int \<times> int \<Rightarrow> nat option \<Rightarrow> 'h audio_thread \<Rightarrow> (int \<times> 'h audio_thread) option" where
  "audio_thread_is_dev_open env io dev th =
     (case dev of None \<Rightarrow> Some (0, th) | Some p \<Rightarrow> audio_thread_post_message env io (IS_DEV_OPEN p) th)"

definition audio_thread_dev_start_ramp :: "('h, 'p, 's) thread_env \<Rightarrow> int \<times> int \<Rightarrow> u32 \<Rightarrow> ramp_request \<Rightarrow> 'h audio_thread \<Rightarrow> (int \<times> 'h audio_thread) option" where
  "audio_thread_dev_start_ramp env io idx request th =
     (if \<not> at_started th then Some (- EINVAL, th) else audio_thread_post_message env io (DEV_START_RAMP idx request) th)"

definition audio_thread_set_aec_dump :: "('h, 'p, 's) thread_env \<Rightarrow> int \<times> int \<Rightarrow> u32 \<Rightarrow> u32 \<Rightarrow> int \<Rightarrow> 'h audio_thread \<Rightarrow> (int \<times> 'h audio_thread) option" where
  "audio_thread_set_aec_dump env io sid start f th = audio_thread_post_message env io (AEC_DUMP sid start f) th"

definition audio_thread_rm_callback_sync :: "('h, 'p, 's) thread_env \<Rightarrow> int \<times> int \<Rightarrow> int \<Rightarrow> 'h audio_thread \<Rightarrow> (int \<times> 'h audio_thread) option" where
  "audio_thread_rm_callback_sync env io f th = audio_thread_post_message env io (REMOVE_CALLBACK f) th"

text \<open>A remix that is the identity needs no converter.  The coefficients are a list of rows.\<close>

definition coef_at :: "c_float list \<Rightarrow> u32 \<Rightarrow> nat \<Rightarrow> nat \<Rightarrow> c_float" where
  \<comment> \<open>the index is an unsigned number\<close>
  "coef_at cs n i j = cs ! unat (of_nat i * n + of_nat j)"

fun row_is_zero :: "c_float list \<Rightarrow> u32 \<Rightarrow> nat \<Rightarrow> nat list \<Rightarrow> bool" where
  \<comment> \<open>the inner loop\<close>
  "row_is_zero cs n i [] = True"
| "row_is_zero cs n i (j # js) = (if coef_at cs n i j \<noteq> Fin 0 \<or> coef_at cs n j i \<noteq> Fin 0 then False else row_is_zero cs n i js)"

fun identity_remix :: "c_float list \<Rightarrow> u32 \<Rightarrow> nat list \<Rightarrow> bool \<Rightarrow> bool" where
  \<comment> \<open>the outer loop, which only the diagonal ends\<close>
  "identity_remix cs n [] ident = ident"
| "identity_remix cs n (i # is) ident =
     (if coef_at cs n i i \<noteq> Fin 1 then False else identity_remix cs n is (ident \<and> row_is_zero cs n i [i + 1 ..< unat n]))"

definition audio_thread_config_global_remix :: "(u32 \<Rightarrow> c_float list \<Rightarrow> nat option) \<Rightarrow> int \<times> int \<Rightarrow> u32 \<Rightarrow> c_float list \<Rightarrow> 'h audio_thread \<Rightarrow>
    int \<times> nat option \<times> 'h audio_thread" where
  \<comment> \<open>the first argument makes a converter; the second component of the result is the converter that is freed\<close>
  "audio_thread_config_global_remix create io num_ch cs th =
     (let ident = identity_remix cs num_ch [0 ..< unat num_ch] True;
          conv = (if ident then None else create num_ch cs)
      in if \<not> ident \<and> conv = None then (- ENOMEM, None, th)
         else if fst io < 0 then (fst io, None, th)
         else if snd io < 0 then (snd io, None, th\<lparr>at_remix := conv\<rparr>)
         else (0, at_remix th, th\<lparr>at_remix := conv\<rparr>))"

definition audio_thread_create :: "(int \<times> u32) list \<Rightarrow> 'h audio_world \<Rightarrow> 'h audio_thread" where
  \<comment> \<open>the contents of the new array of descriptors is an argument, with the state of the server\<close>
  "audio_thread_create mem w = \<lparr>at_started = False, at_open_devs = (\<lambda>_. []), at_pollfds = take 32 mem, at_num_pollfds = 0, at_remix = None,
     at_callbacks = [], at_world = w, at_zero_sleeps = 0, at_busyloops = 0, at_busy_since = None\<rparr>"

definition audio_thread_start :: "int \<Rightarrow> int \<Rightarrow> 'h audio_thread \<Rightarrow> int \<times> 'h audio_thread" where
  \<comment> \<open>the result of \<^verbatim>\<open>pthread_create\<close> and the descriptor of messages, the first one to poll\<close>
  "audio_thread_start rc msg_fd th =
     (if rc \<noteq> 0 then (rc, th) else (0, th\<lparr>at_started := True, at_pollfds := (at_pollfds th)[0 := (msg_fd, POLLIN)]\<rparr>))"

definition audio_thread_destroy :: "('h, 'p, 's) thread_env \<Rightarrow> int \<times> int \<Rightarrow> 'h audio_thread \<Rightarrow> nat option option" where
  \<comment> \<open>the converter that is freed; waiting for a thread that does not get the message does not return\<close>
  "audio_thread_destroy env io th =
     (if at_started th
      then (if fst io < 0 then None else map_option (\<lambda>(rc, th1). at_remix th1) (audio_thread_post_message env io STOP th))
      else Some (at_remix th))"

end
