(* ===== verification/Thread_Inv.thy ===== *)
theory Thread_Inv
  imports Audio_Thread
begin

text \<open>
  What holds of the audio thread whatever messages it gets and however often it runs: the lists of open devices are
  consistent, and streams are attached only to open devices.  For the thread alone: the array of polled descriptors, the time
  it sleeps, the commands it reads.
\<close>

section \<open>Directions\<close>

definition dirs_same :: "'h audio_world \<Rightarrow> 'h audio_world \<Rightarrow> bool" where
  "dirs_same w w' \<longleftrightarrow> (\<forall>p. io_direction (aw_dev w' p) = io_direction (aw_dev w p) \<and> io_idx (aw_dev w' p) = io_idx (aw_dev w p))"

lemma dirs_same_refl [simp]: "dirs_same w w"
  by (simp add: dirs_same_def)

lemma dirs_same_trans: "dirs_same a b \<Longrightarrow> dirs_same b c \<Longrightarrow> dirs_same a c"
  by (simp add: dirs_same_def)

lemma get_dev_direction [simp]: "io_direction (get_dev p w) = io_direction (aw_dev w p)"
  by (simp add: get_dev_def)

lemma dirs_put_dev: "io_direction d = io_direction (aw_dev w p) \<Longrightarrow> io_idx d = io_idx (aw_dev w p) \<Longrightarrow> dirs_same w (put_dev p d w)"
  by (simp add: dirs_same_def)

lemma dirs_put_stream [simp]: "dirs_same w (put_stream s w') \<longleftrightarrow> dirs_same w w'"
  by (simp add: dirs_same_def)

lemma align_dirs: "align_input_offset sid p w = Some w' \<Longrightarrow> dirs_same w w'"
  by (auto simp: align_input_offset_def Let_def bind_eq_Some_conv split: if_splits dest!: stream_written_keeps
      simp: dev_keeps_def intro!: dirs_put_dev)

lemma create_dirs:
  assumes "create_and_add env sid p d t w = Some (rc, w')" and dir: "io_direction d = io_direction (aw_dev w p)" "io_idx d = io_idx (aw_dev w p)"
  shows "dirs_same w w'"
proof -
  have "w' = put_dev p d w \<or> (\<exists>ds d1. cras_iodev_add_stream (te_iodev env) (te_junk env) ds d = Some d1 \<and> align_input_offset sid p (put_dev p d1 w) = Some w')"
    using assms(1) by (auto simp: create_and_add_def bind_eq_Some_conv split: option.splits)
  then show ?thesis
  proof (elim disjE exE conjE)
    fix ds d1 assume a: "cras_iodev_add_stream (te_iodev env) (te_junk env) ds d = Some d1" "align_input_offset sid p (put_dev p d1 w) = Some w'"
    have "dirs_same w (put_dev p d1 w)" using add_stream_mode [OF a(1)] add_stream_views [OF a(1)] dir by (intro dirs_put_dev) simp_all
    then show ?thesis using align_dirs [OF a(2)] by (rule dirs_same_trans)
  qed (simp add: dirs_put_dev dir)
qed

lemma append_to_dev_dirs:
  assumes drv: "thread_driver (te_ops env p)" and app: "append_to_dev env sid p cb w = Some (rc, cb', w')"
  shows "dirs_same w w'"
proof -
  obtain rc0 d0 where f: "(if direction (aw_stream w sid) = CRAS_STREAM_INPUT \<and> io_streams (get_dev p w) = []
      then op_flush_buffer (te_ops env p) (get_dev p w) else (0, get_dev p w)) = (rc0, d0)" by (metis prod.exhaust)
  have c0: "dev_core d0 = dev_core (get_dev p w)"
    using f driver_only_core [OF thread_driver.flush_driver [OF drv]] by (auto split: if_splits)
  have "w' = put_dev p d0 w \<or> (\<exists>r cb1 d1. init_cb_ts (te_ops env p) cb (aw_stream w sid) d0 = Some (r, cb1, d1) \<and>
      (w' = put_dev p d1 w \<or> (\<exists>t. create_and_add env sid p d1 t w = Some (rc, w'))))"
    using app f unfolding append_to_dev_def Let_def by (auto simp: bind_eq_Some_conv split: if_splits sum.splits)
  moreover have "io_direction d1 = io_direction (aw_dev w p) \<and> io_idx d1 = io_idx (aw_dev w p)" if "init_cb_ts (te_ops env p) cb (aw_stream w sid) d0 = Some (r, cb1, d1)" for r cb1 d1
    using thread_driver.init_cb_core [OF drv that] c0 by (simp add: dev_core_def)
  moreover have "io_direction d0 = io_direction (aw_dev w p) \<and> io_idx d0 = io_idx (aw_dev w p)" using c0 by (simp add: dev_core_def)
  ultimately show ?thesis using create_dirs dirs_put_dev by metis
qed

lemma append_loop_dirs:
  assumes "\<And>p. thread_driver (te_ops env p)" and "append_loop env sid ps cb (ods, w) = Some (rc, ods', w')"
  shows "dirs_same w w'"
  using assms(2)
proof (induction ps arbitrary: cb ods w)
  case (Cons p ps)
  show ?case
  proof (cases "find_open p ods = None \<or> sid \<in> set (dev_sids (aw_dev w p))")
    case True
    then show ?thesis using Cons by (auto split: option.splits)
  next
    case False
    then obtain rc1 cb1 w1 ods1 where a: "append_to_dev env sid p cb w = Some (rc1, cb1, w1)"
      and k: "w' = w1 \<or> append_loop env sid ps cb1 (ods1, w1) = Some (rc, ods', w')"
      using Cons.prems by (auto simp: Let_def bind_eq_Some_conv split: if_splits) blast+
    then show ?thesis using append_to_dev_dirs [OF assms(1) a] Cons.IH dirs_same_trans by blast
  qed
qed simp

lemma shrinks_dirs: "shrinks D w w' \<Longrightarrow> attach_inv D w \<Longrightarrow> dirs_same w w'"
  by (simp add: shrinks_def dirs_same_def)

lemma append_stream_dirs:
  assumes drv: "\<And>p. thread_driver (te_ops env p)" and inv: "attach_inv D w" and D: "set (map od_dev ods) \<subseteq> D"
    and app: "dev_io_append_stream env sid ps (ods, w) = Some (rc, ods', w')"
  shows "dirs_same w w'"
proof -
  obtain rc1 ods1 w1 where l: "append_loop env sid ps None (ods, w) = Some (rc1, ods1, w1)"
    and k: "w' = w1 \<or> delete_from_devs env sid (filter (\<lambda>p. sid \<in> set (dev_sids (aw_dev w1 p))) (map od_dev ods1)) w1 = Some w'"
    using app by (auto simp: dev_io_append_stream_def bind_eq_Some_conv split: if_splits)
  note a = append_loop_attached [OF drv inv D l]
  have "set (map od_dev ods1) \<subseteq> D" using a D by presburger
  then have "set (filter (\<lambda>p. sid \<in> set (dev_sids (aw_dev w1 p))) (map od_dev ods1)) \<subseteq> D" using filter_is_subset by fast
  then have del: "dirs_same w1 w'" if "delete_from_devs env sid (filter (\<lambda>p. sid \<in> set (dev_sids (aw_dev w1 p))) (map od_dev ods1)) w1 = Some w'"
    using shrinks_dirs [OF delete_from_devs_shrinks [OF thread_driver.axioms(1) [OF drv] _ that]] a by blast
  have "dirs_same w1 w'" using k del by auto
  then show ?thesis using append_loop_dirs [OF drv l] dirs_same_trans by blast
qed

section \<open>The invariant\<close>

abbreviation open_set :: "u32 \<Rightarrow> 'h audio_thread \<Rightarrow> nat set" where "open_set dir th \<equiv> set (map od_dev (devs_of dir th))"

definition thread_inv :: "(nat \<Rightarrow> u32 \<times> u32) \<Rightarrow> nat set \<Rightarrow> 'h audio_thread \<Rightarrow> bool" where
  \<comment> \<open>\<open>I\<close>: the index and the direction of each device\<close>
  "thread_inv I D th \<longleftrightarrow> attach_inv D (at_world th) \<and> (\<forall>p. I p = (io_idx (aw_dev (at_world th) p), io_direction (aw_dev (at_world th) p))) \<and>
     (\<forall>dir. open_set dir th \<subseteq> D \<and> distinct (map od_dev (devs_of dir th)) \<and> (\<forall>p \<in> open_set dir th. io_direction (aw_dev (at_world th) p) = dir)) \<and>
     (\<forall>p sid. (p, sid) \<in> attached (at_world th) \<longrightarrow> p \<in> open_set (io_direction (aw_dev (at_world th) p)) th)"

text \<open>A change of the list of one direction.\<close>

lemma thread_inv_devs:
  assumes inv: "thread_inv I D th" and w: "attach_inv D w'" "dirs_same (at_world th) w'"
    and ods: "set (map od_dev ods') \<subseteq> D" "distinct (map od_dev ods')" "\<forall>p \<in> set (map od_dev ods'). io_direction (aw_dev w' p) = dir"
    and att: "\<And>p sid. (p, sid) \<in> attached w' \<Longrightarrow> (p, sid) \<in> attached (at_world th) \<and> (p \<in> open_set dir th \<longrightarrow> p \<in> set (map od_dev ods')) \<or> p \<in> set (map od_dev ods')"
  shows "thread_inv I D (with_devs dir (ods', w') th)"
  unfolding thread_inv_def
proof (intro conjI allI impI)
  show "attach_inv D (at_world (with_devs dir (ods', w') th))" using w by (simp add: with_devs_def)
  show "I p = (io_idx (aw_dev (at_world (with_devs dir (ods', w') th)) p), io_direction (aw_dev (at_world (with_devs dir (ods', w') th)) p))" for p
    using inv w(2) unfolding thread_inv_def dirs_same_def by (simp add: with_devs_def)
  fix e
  show "open_set e (with_devs dir (ods', w') th) \<subseteq> D" "distinct (map od_dev (devs_of e (with_devs dir (ods', w') th)))"
    "\<forall>p \<in> open_set e (with_devs dir (ods', w') th). io_direction (aw_dev (at_world (with_devs dir (ods', w') th)) p) = e"
    using inv ods w(2) unfolding thread_inv_def dirs_same_def by (auto simp: with_devs_def)
next
  fix p sid assume "(p, sid) \<in> attached (at_world (with_devs dir (ods', w') th))"
  then have a: "(p, sid) \<in> attached w'" by (simp add: with_devs_def)
  have d: "io_direction (aw_dev w' p) = io_direction (aw_dev (at_world th) p)" using w(2) by (simp add: dirs_same_def)
  have "p \<in> open_set (io_direction (aw_dev w' p)) (with_devs dir (ods', w') th)"
  proof (cases "p \<in> set (map od_dev ods')")
    case True
    then show ?thesis using ods(3) by (auto simp: with_devs_def)
  next
    case False
    then have "(p, sid) \<in> attached (at_world th)" "p \<notin> open_set dir th" using att [OF a] by blast+
    then show ?thesis using inv d unfolding thread_inv_def by (auto simp: with_devs_def)
  qed
  then show "p \<in> open_set (io_direction (aw_dev (at_world (with_devs dir (ods', w') th)) p)) (with_devs dir (ods', w') th)" by (simp add: with_devs_def)
qed

lemma thread_inv_shrinks:
  assumes inv: "thread_inv I D th" and s: "st_shrinks D (devs_of dir th, at_world th) (ods', w')"
  shows "thread_inv I D (with_devs dir (ods', w') th)"
proof (rule thread_inv_devs [OF inv])
  have D: "open_set dir th \<subseteq> D" and ai: "attach_inv D (at_world th)" using inv unfolding thread_inv_def by blast+
  note k = s [unfolded st_shrinks_def fst_conv snd_conv, rule_format, OF D]
  show "attach_inv D w'" "dirs_same (at_world th) w'" using k ai shrinks_dirs unfolding shrinks_def by blast+
  show "set (map od_dev ods') \<subseteq> D" "distinct (map od_dev ods')" using k D inv unfolding thread_inv_def by blast+
  show "\<forall>p \<in> set (map od_dev ods'). io_direction (aw_dev w' p) = dir"
    using k inv \<open>dirs_same (at_world th) w'\<close> unfolding thread_inv_def dirs_same_def by (metis subsetD)
  fix p sid assume "(p, sid) \<in> attached w'"
  then show "(p, sid) \<in> attached (at_world th) \<and> (p \<in> open_set dir th \<longrightarrow> p \<in> set (map od_dev ods')) \<or> p \<in> set (map od_dev ods')"
    using k ai unfolding shrinks_def by blast
qed

lemma with_devs_same: "with_devs dir (devs_of dir th, w) th = th\<lparr>at_world := w\<rparr>"
  by (simp add: with_devs_def)

lemma thread_inv_world:
  assumes "thread_inv I D th" and "shrinks D (at_world th) w'"
  shows "thread_inv I D (th\<lparr>at_world := w'\<rparr>)"
  using thread_inv_shrinks [OF assms(1) st_shrinksI [of "devs_of 0 th" D "at_world th" w' "devs_of 0 th"]] assms(2) by (simp add: with_devs_same)

lemma thread_inv_other [simp]:
  "thread_inv I D (th\<lparr>at_callbacks := cbs\<rparr>) \<longleftrightarrow> thread_inv I D th" "thread_inv I D (th\<lparr>at_remix := r\<rparr>) \<longleftrightarrow> thread_inv I D th"
  by (simp_all add: thread_inv_def)

lemma thread_inv_cong:
  "at_open_devs th' = at_open_devs th \<Longrightarrow> at_world th' = at_world th \<Longrightarrow> thread_inv I D th' \<longleftrightarrow> thread_inv I D th"
  by (simp add: thread_inv_def)

section \<open>Messages\<close>

fun msg_devices :: "audio_thread_msg \<Rightarrow> nat set" where
  "msg_devices (ADD_OPEN_DEV p) = {p}"
| "msg_devices (DISCONNECT_STREAM sid (Some p)) = {p}"
| "msg_devices _ = {}"

context audio_drivers
begin

lemma add_stream_inv:
  assumes inv: "thread_inv I D th" and m: "thread_add_stream env sid devs th = Some (rc, th')"
  shows "thread_inv I D th'"
proof -
  define dir where "dir = direction (aw_stream (at_world th) sid)"
  obtain rc1 ods' w' where a: "dev_io_append_stream env sid devs (devs_of dir th, at_world th) = Some (rc1, ods', w')" and th': "th' = with_devs dir (ods', w') th"
    using m by (auto simp: thread_add_stream_def Let_def dir_def)
  have D: "open_set dir th \<subseteq> D" and ai: "attach_inv D (at_world th)" using inv unfolding thread_inv_def by blast+
  note k = append_stream_attached [OF drv ai D a] and d = append_stream_dirs [OF drv ai D a]
  show ?thesis unfolding th'
  proof (rule thread_inv_devs [OF inv _ d])
    show "attach_inv D w'" "set (map od_dev ods') \<subseteq> D" "distinct (map od_dev ods')"
      using k inv unfolding thread_inv_def by (blast, metis, metis)
    show "\<forall>p \<in> set (map od_dev ods'). io_direction (aw_dev w' p) = dir" using k inv d unfolding thread_inv_def dirs_same_def by metis
    fix p s assume "(p, s) \<in> attached w'"
    then show "(p, s) \<in> attached (at_world th) \<and> (p \<in> open_set dir th \<longrightarrow> p \<in> set (map od_dev ods')) \<or> p \<in> set (map od_dev ods')"
      using k by (auto simp del: set_map split: if_splits)
  qed
qed

lemma remove_one_shrinks:
  assumes "p \<in> D" and r: "dev_io_remove_stream env ods sid (Some p) w = Some w'"
  shows "shrinks D w w'"
proof -
  have "shrinks D w (log_fetch_delay sid w)" by (simp add: log_fetch_delay_def Let_def)
  moreover have "shrinks D (log_fetch_delay sid w) w'"
    by (rule delete_from_devs_shrinks [OF srv _ r [unfolded dev_io_remove_stream_def option.case]]) (simp add: assms(1))
  ultimately show ?thesis by (rule shrinks_trans)
qed

lemma disconnect_inv:
  assumes inv: "thread_inv I D th" and dev: "\<And>p. dev = Some p \<Longrightarrow> p \<in> D" and m: "thread_disconnect_stream env sid dev th = Some (rc, th')"
  shows "thread_inv I D th'"
proof -
  have D: "open_set dir th \<subseteq> D" for dir using inv unfolding thread_inv_def by blast
  consider "th' = th" | w' dir where "th' = th\<lparr>at_world := w'\<rparr>" "dev_io_remove_stream env (devs_of dir th) sid dev (at_world th) = Some w'"
    using m by (auto simp: thread_disconnect_stream_def split: if_splits)
  then show ?thesis
  proof cases
    case 2
    have "shrinks D (at_world th) w'" using 2(2) remove_all_shrinks [OF D] remove_one_shrinks [OF dev] by (cases dev) auto
    then show ?thesis using thread_inv_world [OF inv] 2(1) by simp
  qed (simp add: inv)
qed

lemma add_open_dev_inv:
  assumes inv: "thread_inv I D th" and p: "p \<in> D" and m: "thread_add_open_dev env p th = Some (rc, th')"
  shows "thread_inv I D th'"
proof -
  define dir where "dir = io_direction (aw_dev (at_world th) p)"
  consider "th' = th" | d where "find_open p (devs_of dir th) = None" "th' = with_devs dir (devs_of dir th @ [new_open_dev p], put_dev p d (at_world th)) th"
    "dev_core d = dev_core (get_dev p (at_world th))"
    using m iodev_driver.fill_odev_zeros_core [OF iod]
    by (fastforce simp: thread_add_open_dev_def Let_def dir_def [symmetric] fill_odevs_zeros_min_level_def split: if_splits)
  then show ?thesis
  proof cases
    case 2
    have ai: "attach_inv D (at_world th)" using inv unfolding thread_inv_def by blast
    have s: "shrinks D (at_world th) (put_dev p d (at_world th))" by (rule shrinks_put_dev [OF dev_core_keeps [OF 2(3)]])
    have new: "od_dev (new_open_dev p) = p" "p \<notin> open_set dir th" using 2(1) find_open_mem [of p "devs_of dir th"] by (simp_all add: new_open_dev_def)
    show ?thesis unfolding 2(2)
    proof (rule thread_inv_devs [OF inv])
      show "attach_inv D (put_dev p d (at_world th))" using s ai by (simp add: shrinks_def)
      show d: "dirs_same (at_world th) (put_dev p d (at_world th))" by (rule shrinks_dirs [OF s ai])
      show "set (map od_dev (devs_of dir th @ [new_open_dev p])) \<subseteq> D" "distinct (map od_dev (devs_of dir th @ [new_open_dev p]))"
        using inv p new unfolding thread_inv_def by auto
      have "io_direction (aw_dev (at_world th) q) = dir" if "q \<in> open_set dir th \<or> q = p" for q
        using that inv unfolding thread_inv_def by (auto simp: dir_def)
      then show "\<forall>q \<in> set (map od_dev (devs_of dir th @ [new_open_dev p])). io_direction (aw_dev (put_dev p d (at_world th)) q) = dir"
        using d new unfolding dirs_same_def by auto
      fix q sid assume "(q, sid) \<in> attached (put_dev p d (at_world th))"
      then show "(q, sid) \<in> attached (at_world th) \<and> (q \<in> open_set dir th \<longrightarrow> q \<in> set (map od_dev (devs_of dir th @ [new_open_dev p]))) \<or>
          q \<in> set (map od_dev (devs_of dir th @ [new_open_dev p]))"
        using s ai by (auto simp: shrinks_def)
    qed
  qed (simp add: inv)
qed

lemma rm_open_dev_inv:
  assumes inv: "thread_inv I D th" and m: "thread_rm_open_dev env dir idx th = Some (rc, th')"
  shows "thread_inv I D th'"
proof -
  consider "th' = th" | p ods' w' where "th' = with_devs dir (ods', w') th" "dev_io_rm_open_dev env p (devs_of dir th, at_world th) = Some (ods', w')"
    using m by (auto simp: thread_rm_open_dev_def split: option.splits)
  then show ?thesis using inv thread_inv_shrinks [OF inv rm_open_dev_shrinks [OF srv]] by cases auto
qed

lemma drain_inv:
  assumes inv: "thread_inv I D th" and m: "thread_drain_stream env sid th = Some (rc, th')"
  shows "thread_inv I D th'"
proof -
  obtain ms s where r: "thread_drain_stream_ms_remaining (aw_stream (at_world th) sid) = (ms, s)" by (metis prod.exhaust)
  have v: "stream_view s = stream_view (aw_stream (at_world th) sid)"
    using r by (auto simp: thread_drain_stream_ms_remaining_def Let_def split: if_splits)
  have D: "open_set dir th \<subseteq> D" for dir using inv unfolding thread_inv_def by blast
  have ai: "attach_inv D (at_world th)" using inv unfolding thread_inv_def by blast
  have s1: "shrinks D (at_world th) (put_stream s (at_world th))"
    using attach_put_stream [OF ai, of s] v stream_view_eq [of s] attach_invD(1) [OF ai] by (auto simp: shrinks_def)
  consider "th' = th" | w' where "th' = th\<lparr>at_world := w'\<rparr>" "shrinks D (put_stream s (at_world th)) w'"
  proof (cases "ms = 0")
    case True
    then show ?thesis using m r that remove_all_shrinks [OF D] by (auto simp: thread_drain_stream_def split: if_splits)
  next
    case False
    then show ?thesis using m r that by (auto simp: thread_drain_stream_def split: if_splits)
  qed
  then show ?thesis using inv thread_inv_world [OF inv shrinks_trans [OF s1]] by cases auto
qed

lemma start_ramp_inv:
  assumes inv: "thread_inv I D th" and m: "thread_dev_start_ramp env idx request th = Some (rc, th')"
  shows "thread_inv I D th'"
proof -
  consider "th' = th" | io where "th' = th\<lparr>at_world := (at_world th)\<lparr>aw_io := io\<rparr>\<rparr>"
    | p d where "th' = th\<lparr>at_world := put_dev p d (at_world th)\<rparr>" "cras_iodev_start_ramp (te_iodev env) request (get_dev p (at_world th)) = Some (rc, d)"
    using m by (auto simp: thread_dev_start_ramp_def Let_def simp del: split_paired_Ex split_paired_All split: option.splits if_splits)
  then show ?thesis
  proof cases
    case 2
    then show ?thesis using thread_inv_world [OF inv] by simp
  next
    case 3
    have "dev_core d = dev_core (get_dev p (at_world th))" by (rule server_driver.start_ramp_mode [OF srv 3(2)])
    then show ?thesis using thread_inv_world [OF inv shrinks_put_dev [OF dev_core_keeps]] 3(1) by simp
  qed (simp add: inv)
qed

lemma message_inv:
  assumes inv: "thread_inv I D th" and D: "msg_devices msg \<subseteq> D" and m: "handle_playback_thread_message env msg th = Some (ans, th')"
  shows "thread_inv I D th'"
proof (cases msg)
  case (DISCONNECT_STREAM sid dev)
  then have p: "p \<in> D" if "dev = Some p" for p using D that by auto
  obtain rc where "thread_disconnect_stream env sid dev th = Some (rc, th')" using m DISCONNECT_STREAM by (auto simp: handle_playback_thread_message_def)
  with inv p show ?thesis by (rule disconnect_inv)
next
  case DUMP_THREAD_INFO
  then obtain io where "th' = th\<lparr>at_world := (at_world th)\<lparr>aw_io := io\<rparr>\<rparr>" using m by (auto simp: handle_playback_thread_message_def split: prod.splits)
  then show ?thesis using thread_inv_world [OF inv] by simp
next
  case (AEC_DUMP sid start f)
  then have "\<exists>io. th' = th\<lparr>at_world := (at_world th)\<lparr>aw_io := io\<rparr>\<rparr>"
    using m by (auto simp: handle_playback_thread_message_def thread_set_aec_dump_def Let_def simp del: split_paired_Ex)
  then obtain io where "th' = th\<lparr>at_world := (at_world th)\<lparr>aw_io := io\<rparr>\<rparr>" by blast
  then show ?thesis using thread_inv_world [OF inv] by simp
qed (use m inv D add_stream_inv [OF inv] add_open_dev_inv [OF inv] rm_open_dev_inv [OF inv] drain_inv [OF inv] start_ramp_inv [OF inv]
  in \<open>auto simp: handle_playback_thread_message_def\<close>)

lemma sleep_same:
  assumes "fill_next_sleep_interval env th = (n, t, th')"
  shows "at_open_devs th' = at_open_devs th \<and> (\<exists>io. at_world th' = (at_world th)\<lparr>aw_io := io\<rparr>)"
  using assms by (auto simp: fill_next_sleep_interval_def Let_def simp del: split_paired_Ex split: prod.splits)

lemma setup_poll_same: "setup_poll junk th = Some th' \<Longrightarrow> at_open_devs th' = at_open_devs th \<and> at_world th' = at_world th"
  by (auto simp: setup_poll_def Let_def)

lemma busy_same:
  "at_open_devs (log_busyloop env t th) = at_open_devs th \<and> (\<exists>io. at_world (log_busyloop env t th) = (at_world th)\<lparr>aw_io := io\<rparr>)"
  "at_open_devs (check_busyloop u th) = at_open_devs th \<and> (\<exists>io. at_world (check_busyloop u th) = (at_world th)\<lparr>aw_io := io\<rparr>)"
proof -
  have s: "\<exists>io. w = w\<lparr>aw_io := io\<rparr>" for w :: "'h audio_world" by (rule exI [of _ "aw_io w"]) simp
  show "at_open_devs (log_busyloop env t th) = at_open_devs th \<and> (\<exists>io. at_world (log_busyloop env t th) = (at_world th)\<lparr>aw_io := io\<rparr>)"
    using s [of "at_world th"] by (auto simp: log_busyloop_def Let_def simp del: split_paired_Ex split: option.splits)
  show "at_open_devs (check_busyloop u th) = at_open_devs th \<and> (\<exists>io. at_world (check_busyloop u th) = (at_world th)\<lparr>aw_io := io\<rparr>)"
    using s [of "at_world th"] by (auto simp: check_busyloop_def Let_def simp del: split_paired_Ex)
qed

lemma thread_inv_io:
  assumes "at_open_devs th' = at_open_devs th" "at_world th' = (at_world th)\<lparr>aw_io := io\<rparr>" "thread_inv I D th"
  shows "thread_inv I D th'"
proof -
  have "thread_inv I D (th\<lparr>at_world := (at_world th)\<lparr>aw_io := io\<rparr>\<rparr>)" by (rule thread_inv_world [OF assms(3)]) simp
  then show ?thesis using thread_inv_cong [of th' "th\<lparr>at_world := (at_world th)\<lparr>aw_io := io\<rparr>\<rparr>"] assms by simp
qed

lemma dev_run_inv:
  assumes inv: "thread_inv I D th"
    and r: "dev_io_run env remix (devs_of CRAS_STREAM_OUTPUT th, devs_of CRAS_STREAM_INPUT th, at_world th) = Some (ods, ids, w)"
  shows "thread_inv I D (th\<lparr>at_open_devs := (at_open_devs th)(CRAS_STREAM_OUTPUT := ods, CRAS_STREAM_INPUT := ids), at_world := w\<rparr>)"
proof -
  obtain w3 where i: "st_shrinks D (devs_of CRAS_STREAM_INPUT th, at_world th) (ids, w3)" and o: "st_shrinks D (devs_of CRAS_STREAM_OUTPUT th, w3) (ods, w)"
    using run_shrinks [OF r] by blast
  let ?th1 = "with_devs CRAS_STREAM_INPUT (ids, w3) th"
  have "thread_inv I D ?th1" by (rule thread_inv_shrinks [OF inv i])
  moreover have "st_shrinks D (devs_of CRAS_STREAM_OUTPUT ?th1, at_world ?th1) (ods, w)" using o by (simp add: with_devs_def)
  ultimately have "thread_inv I D (with_devs CRAS_STREAM_OUTPUT (ods, w) ?th1)" by (rule thread_inv_shrinks)
  then show ?thesis by (simp add: with_devs_def fun_upd_twist)
qed

lemma round_inv:
  assumes inv: "thread_inv I D th" and r: "io_thread_run env junk th = Some (t, th')"
  shows "thread_inv I D th'"
proof -
  obtain ods ids w where d: "dev_io_run env (at_remix th \<noteq> None) (devs_of CRAS_STREAM_OUTPUT th, devs_of CRAS_STREAM_INPUT th, at_world th) = Some (ods, ids, w)"
    using r by (auto simp: io_thread_run_def bind_eq_Some_conv)
  define th1 where "th1 = th\<lparr>at_open_devs := (at_open_devs th)(CRAS_STREAM_OUTPUT := ods, CRAS_STREAM_INPUT := ids), at_world := w\<rparr>"
  obtain n ts0 th2 where f: "fill_next_sleep_interval env th1 = (n, ts0, th2)" by (metis prod_cases3)
  obtain th3 where s: "setup_poll junk th2 = Some th3"
    and k: "th' = (case t of None \<Rightarrow> log_busyloop env t th3 | Some u \<Rightarrow> check_busyloop u (log_busyloop env t th3))"
    using r d f by (auto simp: io_thread_run_def th1_def [symmetric] bind_eq_Some_conv Let_def)
  obtain io2 where 2: "at_open_devs th2 = at_open_devs th1" "at_world th2 = (at_world th1)\<lparr>aw_io := io2\<rparr>" using sleep_same [OF f] by blast
  obtain io4 where 4: "at_open_devs (log_busyloop env t th3) = at_open_devs th3" "at_world (log_busyloop env t th3) = (at_world th3)\<lparr>aw_io := io4\<rparr>"
    using busy_same(1) by blast
  have c: "thread_inv I D (check_busyloop u th4)" if i: "thread_inv I D th4" for u and th4 :: "'h audio_thread"
  proof -
    obtain io where "at_open_devs (check_busyloop u th4) = at_open_devs th4" "at_world (check_busyloop u th4) = (at_world th4)\<lparr>aw_io := io\<rparr>"
      using busy_same(2) by blast
    then show ?thesis using i by (rule thread_inv_io)
  qed
  have "thread_inv I D th1" unfolding th1_def by (rule dev_run_inv [OF inv d])
  with 2 have "thread_inv I D th2" by (rule thread_inv_io)
  then have "thread_inv I D th3" using setup_poll_same [OF s] thread_inv_cong [of th3 th2] by blast
  with 4 have "thread_inv I D (log_busyloop env t th3)" by (rule thread_inv_io)
  then show ?thesis unfolding k using c by (cases t) auto
qed

end

section \<open>All histories\<close>

text \<open>What can happen to the thread: a message of the main thread, a round of its loop, a callback that is added or enabled.\<close>

inductive thread_step :: "('h, 'p, 's) thread_env \<Rightarrow> (nat \<Rightarrow> int \<times> u32) \<Rightarrow> nat set \<Rightarrow> 'h audio_thread \<Rightarrow> 'h audio_thread \<Rightarrow> bool" for env junk D where
  Message: "msg_devices msg \<subseteq> D \<Longrightarrow> handle_playback_thread_message env msg th = Some (ans, th') \<Longrightarrow> thread_step env junk D th th'"
| Round: "io_thread_run env junk th = Some (t, th') \<Longrightarrow> thread_step env junk D th th'"
| Start: "thread_step env junk D th (snd (audio_thread_start rc f th))"
| Callback: "thread_step env junk D th (th\<lparr>at_callbacks := cbs\<rparr>)"

lemma thread_inv_create:
  assumes "attach_inv D w" "attached w = {}"
  shows "thread_inv (\<lambda>p. (io_idx (aw_dev w p), io_direction (aw_dev w p))) D (audio_thread_create mem w)"
  using assms by (simp add: thread_inv_def audio_thread_create_def)

context audio_drivers
begin

lemma step_inv:
  assumes "thread_step env junk D th th'" "thread_inv I D th"
  shows "thread_inv I D th'"
  using assms
proof cases
  case (Message msg ans)
  then show ?thesis using message_inv [OF assms(2)] by blast
next
  case (Round t)
  then show ?thesis using round_inv [OF assms(2)] by blast
qed (use assms(2) in \<open>auto simp: audio_thread_start_def thread_inv_def\<close>)

end

text \<open>Claim C9.  Whatever messages the audio thread gets, whether it accepts or refuses them, and however its rounds of
  playing and capturing go, device errors included: a device is in the list of its direction at most once, streams are attached only to
  devices that are in the list of their direction, and the list of streams of each device agrees with the table each stream keeps of
  its devices.  No device changes its index or its direction.\<close>

theorem audio_thread_inv:
  assumes drv: "audio_drivers env" and w: "attach_inv D w" "attached w = {}"
    and steps: "(thread_step env junk D)\<^sup>*\<^sup>* (audio_thread_create mem w) th"
  shows "thread_inv (\<lambda>p. (io_idx (aw_dev w p), io_direction (aw_dev w p))) D th"
  using steps
proof (induction rule: rtranclp_induct)
  case base
  show ?case by (rule thread_inv_create [OF w])
next
  case (step th1 th2)
  then show ?case using audio_drivers.step_inv [OF drv] by blast
qed

text \<open>A silent microphone that is open and has captured nothing yet.\<close>

interpretation idle_thread: audio_drivers idle_thread_env
  by (rule audio_drivers.intro) (simp add: idle_thread_env_def empty_thread.thread_driver_axioms)

definition mic_world :: "empty_iodev audio_world" where
  "mic_world = idle_world\<lparr>aw_dev := (\<lambda>p. (the (empty_iodev_create (\<lambda>_. Timespec 0 0) CRAS_STREAM_INPUT CRAS_NODE_TYPE_MIC))
     \<lparr>io_format := Some stereo_16, io_area := Some (cras_audio_area_create 2), io_state := CRAS_IODEV_STATE_NORMAL_RUN,
      io_input_data := Some input_data_create\<rparr>)\<rparr>"

lemma mic_world_inv: "attach_inv {0} mic_world" "attached mic_world = {}"
proof -
  have "rs_inv (idle_stream sid)" "dev_table (idle_stream sid) = (\<lambda>_. None)" for sid
    by (simp_all add: rs_inv_def idle_stream_def dev_table_def [abs_def] bs_inv_create bs_lookup_create)
  then show "attach_inv {0} mic_world" "attached mic_world = {}"
    by (auto simp: attach_inv_def mic_world_def idle_world_def idle_stream_def attached_def empty_iodev_create_def cras_iodev_set_active_node_def
        cras_iodev_add_node_def log_event_def)
qed

abbreviation mic_thread :: "empty_iodev audio_thread" where "mic_thread \<equiv> audio_thread_create (replicate 4 (0, 0)) mic_world"

lemma mic_thread_runs:
  "do { (a1, th1) \<leftarrow> handle_playback_thread_message idle_thread_env (ADD_OPEN_DEV 0) mic_thread;
        (a2, th2) \<leftarrow> handle_playback_thread_message idle_thread_env (ADD_STREAM 7 [0]) th1;
        (t, th3) \<leftarrow> io_thread_run idle_thread_env (\<lambda>_. (0, 0)) th2;
        Some (a1, a2, dev_sids (aw_dev (at_world th3) 0)) } = Some (Answer 0, Answer 0, [7])"
  by code_simp

theorem audio_thread_inv_witness:
  "\<exists>th. (thread_step idle_thread_env (\<lambda>_. (0, 0)) {0})\<^sup>*\<^sup>* mic_thread th \<and> dev_sids (aw_dev (at_world th) 0) = [7] \<and> thread_inv (\<lambda>_. (1, 1)) {0} th"
proof -
  obtain th1 th2 t th3 where 1: "handle_playback_thread_message idle_thread_env (ADD_OPEN_DEV 0) mic_thread = Some (Answer 0, th1)"
    and 2: "handle_playback_thread_message idle_thread_env (ADD_STREAM 7 [0]) th1 = Some (Answer 0, th2)"
    and 3: "io_thread_run idle_thread_env (\<lambda>_. (0, 0)) th2 = Some (t, th3)" and s: "dev_sids (aw_dev (at_world th3) 0) = [7]"
    using mic_thread_runs by (auto simp: bind_eq_Some_conv)
  let ?step = "thread_step idle_thread_env (\<lambda>_. (0, 0)) {0}"
  have s1: "?step mic_thread th1" by (rule thread_step.Message [OF _ 1]) simp
  have s2: "?step th1 th2" by (rule thread_step.Message [OF _ 2]) simp
  have s3: "?step th2 th3" by (rule thread_step.Round [OF 3])
  have r: "?step\<^sup>*\<^sup>* mic_thread th3"
    by (rule converse_rtranclp_into_rtranclp, rule s1, rule converse_rtranclp_into_rtranclp, rule s2, rule r_into_rtranclp, rule s3)
  have "(\<lambda>p. (io_idx (aw_dev mic_world p), io_direction (aw_dev mic_world p))) = (\<lambda>_. (1, 1))"
    by (simp add: mic_world_def empty_iodev_create_def cras_iodev_set_active_node_def cras_iodev_add_node_def log_event_def)
  from audio_thread_inv [OF idle_thread.audio_drivers_axioms mic_world_inv r, unfolded this]
  show ?thesis by (intro exI [of _ th3] conjI r s)
qed

end
