(* ===== verification/Thread_Props.thy ===== *)
theory Thread_Props
  imports Thread_Inv
begin

text \<open>
  The audio thread for itself: the array of polled descriptors is complete and large enough, the thread sleeps until the
  first thing it has to do, it reads commands whole, and it drops a remix that does nothing.
\<close>

section \<open>Polling\<close>

definition callback_fds :: "iodev_callback list \<Rightarrow> (int \<times> u32) list" where
  "callback_fds cbs = map (\<lambda>c. (icb_fd c, icb_events c)) (filter icb_enabled cbs)"

definition stream_fds :: "'d cras_rstream list \<Rightarrow> (int \<times> u32) list" where
  "stream_fds ss = map (\<lambda>f. (f, POLLIN)) (filter (\<lambda>f. \<not> f < 0) (map dev_stream_poll_stream_fd ss))"

abbreviation unpolled :: "iodev_callback \<Rightarrow> iodev_callback" where "unpolled c \<equiv> c\<lparr>icb_pollfd := None\<rparr>"

definition polls :: "(int \<times> u32) list \<Rightarrow> nat \<Rightarrow> iodev_callback \<Rightarrow> bool" where
  \<comment> \<open>the entry of a callback among the first descriptors\<close>
  "polls fds n c \<longleftrightarrow> (case icb_pollfd c of None \<Rightarrow> \<not> icb_enabled c | Some i \<Rightarrow> icb_enabled c \<and> i < n \<and> fds ! i = (icb_fd c, icb_events c))"

lemma add_pollfd_cases:
  assumes "n < length fds"
  shows "if n + 1 < length fds then add_pollfd junk f e (fds, n) = Some (Some n, fds[n := (f, e)], n + 1)
    else \<exists>fds'. add_pollfd junk f e (fds, n) = Some (None, fds', n + 1) \<and> length fds' = 2 * length fds \<and> take n fds' = take n fds"
  using assms by (auto simp: add_pollfd_def Let_def)

lemma polls_mono: "polls fds n c \<Longrightarrow> n \<le> m \<Longrightarrow> take n fds' = take n fds \<Longrightarrow> polls fds' m c"
  unfolding polls_def by (auto split: option.splits) (metis nth_take)

lemma take_update_snoc: "n < length fds \<Longrightarrow> take (n + 1) (fds[n := x]) = take n fds @ [x]"
  by (simp add: take_Suc_conv_app_nth)

lemma take_prefix: "take (m + k) xs = take m ys @ zs \<Longrightarrow> length zs = k \<Longrightarrow> m \<le> length ys \<Longrightarrow> take m xs = take m ys"
  by (metis append_eq_conv_conj le_add1 length_take min.absorb2 min.absorb1 take_take)

definition callbacks_added :: "(nat \<Rightarrow> int \<times> u32) \<Rightarrow> iodev_callback list \<Rightarrow> (int \<times> u32) list \<Rightarrow> nat \<Rightarrow> bool" where
  \<comment> \<open>every enabled callback has its entry, or the array was full and is twice as long\<close>
  "callbacks_added junk cbs fds n \<longleftrightarrow> (let m = n + length (callback_fds cbs) in
     if m < length fds
     then \<exists>cbs' fds'. add_callback_fds junk cbs (fds, n) = Some (True, cbs', fds', m) \<and> length fds' = length fds \<and>
       take m fds' = take n fds @ callback_fds cbs \<and> map unpolled cbs' = map unpolled cbs \<and> (\<forall>c \<in> set cbs'. polls fds' m c)
     else \<exists>cbs' fds' k. add_callback_fds junk cbs (fds, n) = Some (False, cbs', fds', k) \<and> length fds' = 2 * length fds \<and>
       take n fds' = take n fds \<and> map unpolled cbs' = map unpolled cbs)"

lemma callbacks_added_skip:
  assumes c: "\<not> icb_enabled c" and rest: "callbacks_added junk cbs fds n"
  shows "callbacks_added junk (c # cbs) fds n"
proof -
  have e: "callback_fds (c # cbs) = callback_fds cbs" using c by (simp add: callback_fds_def)
  have p: "polls fds' m (unpolled c)" for fds' m using c by (simp add: polls_def)
  show ?thesis
  proof (cases "n + length (callback_fds cbs) < length fds")
    case True
    then obtain cbs' fds' where "add_callback_fds junk cbs (fds, n) = Some (True, cbs', fds', n + length (callback_fds cbs))" "length fds' = length fds"
      "take (n + length (callback_fds cbs)) fds' = take n fds @ callback_fds cbs" "map unpolled cbs' = map unpolled cbs"
      "\<forall>c \<in> set cbs'. polls fds' (n + length (callback_fds cbs)) c" using rest by (auto simp: callbacks_added_def Let_def)
    then show ?thesis using True c p unfolding callbacks_added_def Let_def e by simp
  next
    case False
    then obtain cbs' fds' m where "add_callback_fds junk cbs (fds, n) = Some (False, cbs', fds', m)" "length fds' = 2 * length fds"
      "take n fds' = take n fds" "map unpolled cbs' = map unpolled cbs" using rest by (auto simp: callbacks_added_def Let_def)
    then show ?thesis using False c unfolding callbacks_added_def Let_def e by simp
  qed
qed

lemma callbacks_added_one:
  assumes c: "icb_enabled c" and n: "n + 1 < length fds" and rest: "callbacks_added junk cbs (fds[n := (icb_fd c, icb_events c)]) (n + 1)"
  shows "callbacks_added junk (c # cbs) fds n"
proof -
  have e: "callback_fds (c # cbs) = (icb_fd c, icb_events c) # callback_fds cbs" using c by (simp add: callback_fds_def)
  define fds1 where "fds1 = fds[n := (icb_fd c, icb_events c)]"
  have a: "add_pollfd junk (icb_fd c) (icb_events c) (fds, n) = Some (Some n, fds1, n + 1)"
    using add_pollfd_cases [of n fds junk "icb_fd c" "icb_events c"] n by (simp add: fds1_def)
  have l: "length fds1 = length fds" "take (n + 1) fds1 = take n fds @ [(icb_fd c, icb_events c)]"
    using take_update_snoc [of n fds] n by (simp_all add: fds1_def)
  show ?thesis
  proof (cases "n + 1 + length (callback_fds cbs) < length fds")
    case True
    then obtain cbs' fds' where k: "add_callback_fds junk cbs (fds1, n + 1) = Some (True, cbs', fds', n + 1 + length (callback_fds cbs))"
      "length fds' = length fds" "take (n + 1 + length (callback_fds cbs)) fds' = (take n fds @ [(icb_fd c, icb_events c)]) @ callback_fds cbs"
      "map unpolled cbs' = map unpolled cbs" "\<forall>c \<in> set cbs'. polls fds' (n + 1 + length (callback_fds cbs)) c"
      using rest l unfolding fds1_def [symmetric] callbacks_added_def Let_def by auto
    have "fds' ! n = (icb_fd c, icb_events c)"
      using k(3) n by (metis (no_types, lifting) add_lessD1 append.assoc append_Cons length_take less_add_one min.absorb4 nth_append_length nth_take trans_less_add1)
    then show ?thesis using a k True c unfolding callbacks_added_def Let_def e by (auto simp: polls_def)
  next
    case False
    then obtain cbs' fds' m where k: "add_callback_fds junk cbs (fds1, n + 1) = Some (False, cbs', fds', m)" "length fds' = 2 * length fds"
      "take (n + 1) fds' = take n fds @ [(icb_fd c, icb_events c)]" "map unpolled cbs' = map unpolled cbs"
      using rest l unfolding fds1_def [symmetric] callbacks_added_def Let_def by auto
    have "take n fds' = take n fds" using take_prefix [OF k(3)] n by simp
    then show ?thesis using a k False c unfolding callbacks_added_def Let_def e by auto
  qed
qed

lemma add_callback_fds_spec: "n < length fds \<Longrightarrow> callbacks_added junk cbs fds n"
proof (induction cbs arbitrary: fds n)
  case (Cons c cbs)
  consider "\<not> icb_enabled c" | "icb_enabled c" "n + 1 < length fds" | "icb_enabled c" "n + 1 = length fds" using Cons.prems by linarith
  then show ?case
  proof cases
    case 3
    then show ?thesis using add_pollfd_cases [OF Cons.prems, of junk "icb_fd c" "icb_events c"] unfolding callbacks_added_def Let_def
      by (auto simp: callback_fds_def)
  qed (use Cons callbacks_added_skip callbacks_added_one in auto)
qed (simp add: callbacks_added_def callback_fds_def)

lemma add_stream_fds_spec:
  assumes "n < length fds"
  shows "if n + length (stream_fds ss) < length fds
    then \<exists>fds'. add_stream_fds junk ss (fds, n) = Some (True, fds', n + length (stream_fds ss)) \<and> length fds' = length fds \<and>
      take (n + length (stream_fds ss)) fds' = take n fds @ stream_fds ss
    else \<exists>fds' m. add_stream_fds junk ss (fds, n) = Some (False, fds', m) \<and> length fds' = 2 * length fds \<and> take n fds' = take n fds"
  using assms
proof (induction ss arbitrary: fds n)
  case (Cons s ss)
  define f where "f = dev_stream_poll_stream_fd s"
  show ?case
  proof (cases "f < 0")
    case True
    then have "stream_fds (s # ss) = stream_fds ss" by (simp add: stream_fds_def f_def)
    then show ?thesis using Cons.IH [OF Cons.prems] True by (auto simp: f_def Let_def split: if_splits)
  next
    case f: False
    then have e: "stream_fds (s # ss) = (f, POLLIN) # stream_fds ss" by (simp add: stream_fds_def f_def)
    show ?thesis
    proof (cases "n + 1 < length fds")
      case False
      then show ?thesis using add_pollfd_cases [OF Cons.prems, of junk f POLLIN] Cons.prems f unfolding e by (auto simp: f_def [symmetric] Let_def)
    next
      case True
      have a: "add_pollfd junk f POLLIN (fds, n) = Some (Some n, fds[n := (f, POLLIN)], n + 1)"
        using add_pollfd_cases [OF Cons.prems, of junk f POLLIN] True by simp
      note ih = Cons.IH [of "n + 1" "fds[n := (f, POLLIN)]", unfolded take_update_snoc [OF Cons.prems]]
      have t: "take n xs = take n fds" if "take (n + 1) xs = take n fds @ [(f, POLLIN)]" for xs using take_prefix [OF that] Cons.prems by simp
      show ?thesis using ih a f True t unfolding e by (auto simp: f_def [symmetric] Let_def split: if_splits)
    qed
  qed
qed (simp add: stream_fds_def)

lemma unpolled_fds: "map unpolled cbs' = map unpolled cbs \<Longrightarrow> callback_fds cbs' = callback_fds cbs"
proof (induction cbs' arbitrary: cbs)
  case (Cons c cs)
  then obtain d ds where cbs: "cbs = d # ds" and u: "unpolled c = unpolled d" "map unpolled cs = map unpolled ds" by auto
  have "icb_enabled (unpolled c) = icb_enabled (unpolled d)" "icb_fd (unpolled c) = icb_fd (unpolled d)" "icb_events (unpolled c) = icb_events (unpolled d)"
    using u(1) by simp_all
  then show ?case using Cons.IH [OF u(2)] by (auto simp: cbs callback_fds_def)
qed simp

abbreviation poll_wanted :: "nat cras_rstream list \<Rightarrow> nat cras_rstream list \<Rightarrow> iodev_callback list \<Rightarrow> (int \<times> u32) list" where
  "poll_wanted outs ins cbs \<equiv> callback_fds cbs @ stream_fds outs @ stream_fds ins"

text \<open>One round: when the array is long enough all descriptors are in it, otherwise it is doubled.\<close>

lemma poll_round_fits:
  assumes "1 + length (poll_wanted outs ins cbs) < length fds"
  shows "\<exists>cbs' fds'. poll_loop junk outs ins cbs fds = Some (cbs', fds', 1 + length (poll_wanted outs ins cbs)) \<and> length fds' = length fds \<and>
    take (1 + length (poll_wanted outs ins cbs)) fds' = hd fds # poll_wanted outs ins cbs \<and> map unpolled cbs' = map unpolled cbs \<and>
    (\<forall>c \<in> set cbs'. polls fds' (1 + length (callback_fds cbs)) c)"
proof -
  obtain cbs' f1 where 1: "add_callback_fds junk cbs (fds, 1) = Some (True, cbs', f1, 1 + length (callback_fds cbs))" "length f1 = length fds"
    "take (1 + length (callback_fds cbs)) f1 = take 1 fds @ callback_fds cbs" "map unpolled cbs' = map unpolled cbs" "\<forall>c \<in> set cbs'. polls f1 (1 + length (callback_fds cbs)) c"
    using add_callback_fds_spec [of 1 fds junk cbs] assms by (auto simp: callbacks_added_def Let_def)
  let ?n1 = "1 + length (callback_fds cbs)"
  obtain f2 where 2: "add_stream_fds junk outs (f1, ?n1) = Some (True, f2, ?n1 + length (stream_fds outs))" "length f2 = length fds"
    "take (?n1 + length (stream_fds outs)) f2 = take ?n1 f1 @ stream_fds outs"
    using add_stream_fds_spec [of ?n1 f1 outs junk] assms 1(2) by auto
  let ?n2 = "?n1 + length (stream_fds outs)"
  obtain f3 where 3: "add_stream_fds junk ins (f2, ?n2) = Some (True, f3, ?n2 + length (stream_fds ins))" "length f3 = length fds"
    "take (?n2 + length (stream_fds ins)) f3 = take ?n2 f2 @ stream_fds ins"
    using add_stream_fds_spec [of ?n2 f2 ins junk] assms 2(2) by auto
  have t: "take ?n1 f2 = take ?n1 f1" "take ?n2 f3 = take ?n2 f2" using take_prefix [OF 2(3)] take_prefix [OF 3(3)] assms 1(2) 2(2) by auto
  have "take ?n1 f3 = take ?n1 (take ?n2 f3)" by simp
  also have "\<dots> = take ?n1 f1" unfolding t(2) using t(1) by simp
  finally have p: "\<forall>c \<in> set cbs'. polls f3 ?n1 c" using 1(5) polls_mono by blast
  have "take 1 fds = [hd fds]" using assms by (cases fds) auto
  then show ?thesis using 1 2 3 p by (subst poll_loop.simps) (simp add: add.assoc)
qed

lemma hd_same: "take n xs = take n ys \<Longrightarrow> 0 < n \<Longrightarrow> hd xs = hd ys"
  by (metis hd_take)

lemma poll_round_full:
  assumes "\<not> 1 + length (poll_wanted outs ins cbs) < length fds" "2 \<le> length fds"
  shows "\<exists>cbs' fds'. poll_loop junk outs ins cbs fds = poll_loop junk outs ins cbs' fds' \<and> length fds' = 2 * length fds \<and> hd fds' = hd fds \<and>
    map unpolled cbs' = map unpolled cbs"
proof -
  let ?n1 = "1 + length (callback_fds cbs)"
  show ?thesis
  proof (cases "?n1 < length fds")
    case False
    then obtain cbs' f1 m where "add_callback_fds junk cbs (fds, 1) = Some (False, cbs', f1, m)" "length f1 = 2 * length fds" "take 1 f1 = take 1 fds"
      "map unpolled cbs' = map unpolled cbs"
      using add_callback_fds_spec [of 1 fds junk cbs] assms by (auto simp: callbacks_added_def Let_def)
    then show ?thesis using hd_same [of 1 f1 fds] by (subst poll_loop.simps) auto
  next
    case True
    then obtain cbs' f1 where 1: "add_callback_fds junk cbs (fds, 1) = Some (True, cbs', f1, ?n1)" "length f1 = length fds"
      "take ?n1 f1 = take 1 fds @ callback_fds cbs" "map unpolled cbs' = map unpolled cbs"
      using add_callback_fds_spec [of 1 fds junk cbs] assms by (auto simp: callbacks_added_def Let_def)
    have h1: "hd f1 = hd fds" using take_prefix [OF 1(3)] assms(2) by (auto intro: hd_same [of 1])
    let ?n2 = "?n1 + length (stream_fds outs)"
    show ?thesis
    proof (cases "?n2 < length fds")
      case False
      then obtain f2 m where 2: "add_stream_fds junk outs (f1, ?n1) = Some (False, f2, m)" "length f2 = 2 * length fds" "take ?n1 f2 = take ?n1 f1"
        using add_stream_fds_spec [of ?n1 f1 outs junk] True 1(2) by auto
      have "poll_loop junk outs ins cbs fds = poll_loop junk outs ins cbs' f2" using 1(1) 2(1) by (subst poll_loop.simps) simp
      then show ?thesis using 2(2) hd_same [OF 2(3)] h1 1(4) by fastforce
    next
      case n2: True
      then obtain f2 where 2: "add_stream_fds junk outs (f1, ?n1) = Some (True, f2, ?n2)" "length f2 = length fds" "take ?n2 f2 = take ?n1 f1 @ stream_fds outs"
        using add_stream_fds_spec [of ?n1 f1 outs junk] True 1(2) by auto
      have h2: "hd f2 = hd f1" using take_prefix [OF 2(3)] True 1(2) by (auto intro: hd_same [of ?n1])
      obtain f3 m where 3: "add_stream_fds junk ins (f2, ?n2) = Some (False, f3, m)" "length f3 = 2 * length fds" "take ?n2 f3 = take ?n2 f2"
        using add_stream_fds_spec [of ?n2 f2 ins junk] 2 n2 assms(1) by auto
      have "poll_loop junk outs ins cbs fds = poll_loop junk outs ins cbs' f3" using 1(1) 2(1) 3(1) by (subst poll_loop.simps) simp
      then show ?thesis using 3(2) hd_same [OF 3(3)] h1 h2 1(4) by fastforce
    qed
  qed
qed

lemma poll_loop_complete:
  assumes "2 \<le> length fds"
  shows "\<exists>cbs' fds'. poll_loop junk outs ins cbs fds = Some (cbs', fds', 1 + length (poll_wanted outs ins cbs)) \<and>
    1 + length (poll_wanted outs ins cbs) < length fds' \<and> length fds \<le> length fds' \<and>
    take (1 + length (poll_wanted outs ins cbs)) fds' = hd fds # poll_wanted outs ins cbs \<and> map unpolled cbs' = map unpolled cbs \<and>
    (\<forall>c \<in> set cbs'. polls fds' (1 + length (callback_fds cbs)) c)"
  using assms
proof (induction "length (poll_wanted outs ins cbs) + 2 - length fds" arbitrary: cbs fds rule: less_induct)
  case less
  show ?case
  proof (cases "1 + length (poll_wanted outs ins cbs) < length fds")
    case True
    then show ?thesis using poll_round_fits [OF True, of junk] by fastforce
  next
    case False
    obtain cbs1 fds1 where r: "poll_loop junk outs ins cbs fds = poll_loop junk outs ins cbs1 fds1" "length fds1 = 2 * length fds" "hd fds1 = hd fds"
      "map unpolled cbs1 = map unpolled cbs" using poll_round_full [OF False less.prems, of junk] by blast
    have c: "callback_fds cbs1 = callback_fds cbs" by (rule unpolled_fds [OF r(4)])
    have "length (poll_wanted outs ins cbs1) + 2 - length fds1 < length (poll_wanted outs ins cbs) + 2 - length fds" "2 \<le> length fds1"
      using False less.prems r(2) c by auto
    from less.hyps [OF this] show ?thesis using r c less.prems by auto
  qed
qed

text \<open>Claim C11.  Building the array of descriptors ends, never writes outside the array and leaves in it the descriptor for
  messages, those of the enabled callbacks and those of the streams whose clients owe an answer, in order and nothing else; every enabled callback
  knows the entry with its descriptor and its events, every disabled one has none.\<close>

theorem poll_setup_complete:
  assumes "2 \<le> length (at_pollfds th)"
  shows "\<exists>th'. setup_poll junk th = Some th' \<and> at_num_pollfds th' < length (at_pollfds th') \<and>
    take (at_num_pollfds th') (at_pollfds th') = hd (at_pollfds th) # callback_fds (at_callbacks th) @
      stream_fds (open_streams (at_world th) (at_open_devs th CRAS_STREAM_OUTPUT)) @ stream_fds (open_streams (at_world th) (at_open_devs th CRAS_STREAM_INPUT)) \<and>
    map unpolled (at_callbacks th') = map unpolled (at_callbacks th) \<and> (\<forall>c \<in> set (at_callbacks th'). polls (at_pollfds th') (at_num_pollfds th') c)"
proof -
  let ?outs = "open_streams (at_world th) (at_open_devs th CRAS_STREAM_OUTPUT)" and ?ins = "open_streams (at_world th) (at_open_devs th CRAS_STREAM_INPUT)"
  let ?n = "1 + length (poll_wanted ?outs ?ins (at_callbacks th))"
  obtain cbs' fds' where r: "poll_loop junk ?outs ?ins (at_callbacks th) (at_pollfds th) = Some (cbs', fds', ?n)" "?n < length fds'"
    "take ?n fds' = hd (at_pollfds th) # poll_wanted ?outs ?ins (at_callbacks th)" "map unpolled cbs' = map unpolled (at_callbacks th)"
    "\<forall>c \<in> set cbs'. polls fds' (1 + length (callback_fds (at_callbacks th))) c"
    using poll_loop_complete [OF assms] by blast
  have "\<forall>c \<in> set cbs'. polls fds' ?n c" using r(5) by (auto intro: polls_mono)
  then show ?thesis using r by (simp add: setup_poll_def Let_def)
qed

definition small_thread :: "empty_iodev audio_thread" where
  "small_thread = (audio_thread_create [(9, POLLIN), (0, 0)] idle_world)
     \<lparr>at_callbacks := audio_thread_enable_callback 4 0 (audio_thread_add_events_callback 5 1 1 POLLIN (audio_thread_add_events_callback 4 1 1 POLLIN
        (audio_thread_add_events_callback 3 1 1 POLLIN [])))\<rparr>"

theorem poll_setup_complete_witness:
  "\<exists>th'. setup_poll (\<lambda>_. (0, 0)) small_thread = Some th' \<and> at_num_pollfds th' < length (at_pollfds th') \<and>
     take (at_num_pollfds th') (at_pollfds th') = [(9, POLLIN), (3, POLLIN), (5, POLLIN)]"
proof -
  have s: "at_pollfds small_thread = [(9, POLLIN), (0, 0)]" "at_callbacks small_thread = [\<lparr>icb_fd = 3, icb_events = POLLIN, icb_enabled = True, icb_cb = 1, icb_data = 1, icb_pollfd = None\<rparr>,
      \<lparr>icb_fd = 4, icb_events = POLLIN, icb_enabled = False, icb_cb = 1, icb_data = 1, icb_pollfd = None\<rparr>,
      \<lparr>icb_fd = 5, icb_events = POLLIN, icb_enabled = True, icb_cb = 1, icb_data = 1, icb_pollfd = None\<rparr>]" "at_open_devs small_thread = (\<lambda>_. [])"
    by (simp_all add: small_thread_def audio_thread_create_def audio_thread_add_events_callback_def)
  then show ?thesis using poll_setup_complete [of small_thread "\<lambda>_. (0, 0)"]
    by (auto simp: callback_fds_def stream_fds_def open_streams_def)
qed

section \<open>Sleeping\<close>

definition stream_wakes :: "'d cras_rstream list \<Rightarrow> timespec list" where
  \<comment> \<open>the streams to ask for samples\<close>
  "stream_wakes ss = map next_cb_ts (filter (\<lambda>s. is_draining s = 0 \<and> \<not> cras_rstream_is_pending_reply s \<and> flags s AND USE_DEV_TIMING = 0) ss)"

definition wake_times :: "('h, 'p, 's) thread_env \<Rightarrow> 'h audio_thread \<Rightarrow> timespec list" where
  "wake_times env th = (let w = at_world th in
     stream_wakes (open_streams w (at_open_devs th CRAS_STREAM_OUTPUT)) @
     map od_wake_ts (filter (\<lambda>ad. cras_iodev_odev_should_wake (te_ops env (od_dev ad)) (get_dev (od_dev ad) w)) (at_open_devs th CRAS_STREAM_OUTPUT)) @
     map od_wake_ts (filter (\<lambda>ad. \<not> input_adev_ignore_wake w ad) (at_open_devs th CRAS_STREAM_INPUT)))"

abbreviation wake_fold :: "timespec list \<Rightarrow> int \<times> timespec \<Rightarrow> int \<times> timespec" where
  "wake_fold us st \<equiv> (fst st + int (length us), fold min us (snd st))"

lemma earlier_min: "(if timespec_after a b then b else a) = min b a"
  by (auto simp: timespec_after_less min_def)

lemma stream_wake_list: "get_next_stream_wake_from_list ss st = wake_fold (stream_wakes ss) st"
  by (induction ss st rule: get_next_stream_wake_from_list.induct) (auto simp: stream_wakes_def dev_stream_next_cb_ts_def earlier_min)

lemma dev_wake_list:
  "next_dev_wake env w ads st = wake_fold (map od_wake_ts (filter (\<lambda>ad. cras_iodev_odev_should_wake (te_ops env (od_dev ad)) (get_dev (od_dev ad) w)) ads)) st"
  by (induction env w ads st rule: next_dev_wake.induct) (auto simp: earlier_min)

lemma input_wake_list: "next_input_wake w ads st = wake_fold (map od_wake_ts (filter (\<lambda>ad. \<not> input_adev_ignore_wake w ad) ads)) st"
  by (induction w ads st rule: next_input_wake.induct) (auto simp: earlier_min)

lemma stream_wakes_fold:
  "fold (\<lambda>ad. get_next_stream_wake_from_list (map ds_stream (io_streams (get_dev (od_dev ad) w)))) ods st = wake_fold (stream_wakes (open_streams w ods)) st"
  by (induction ods arbitrary: st) (simp_all add: stream_wake_list open_streams_def stream_wakes_def)

lemma fold_min_Min: "fold min us a = Min (insert a (set us))" for a :: "'a :: linorder"
  by (simp add: Min.set_eq_fold [symmetric])

text \<open>Claim C12.  The thread sleeps exactly until the earliest of: the next callback of a stream that plays, owes no
  answer and does not follow the timing of a device; the wake time of a device that has to be served; twenty seconds from now.  It does not sleep when
  that time has passed, and it reports how many streams and devices it waits for.\<close>

theorem next_sleep_earliest:
  assumes "fill_next_sleep_interval env th = (n, t, th')" and now: "now = te_now env (fst (aw_io (at_world th)))"
    and wf: "ts_wf now" "\<forall>u \<in> set (wake_times env th). ts_wf u"
  shows "n = int (length (wake_times env th)) \<and>
    ts_ns t = max 0 (Min (insert (ts_ns now + 20 * 1000000000) (ts_ns ` set (wake_times env th))) - ts_ns now)"
proof -
  let ?cap = "add_timespecs (Timespec 20 0) now"
  have cap: "ts_wf ?cap" "ts_ns ?cap = 20 * 1000000000 + ts_ns now" using add_timespecs_ns [of "Timespec 20 0" now] wf(1) by (simp_all add: ts_wf_def ts_ns_def)
  define m where "m = Min (insert ?cap (set (wake_times env th)))"
  have r: "n = int (length (wake_times env th))" "t = (if timespec_after m now then subtract_timespecs m now else Timespec 0 0)"
    using assms(1) unfolding m_def fold_min_Min [symmetric] fill_next_sleep_interval_def dev_io_next_output_wake_def dev_io_next_input_wake_def
      stream_wakes_fold dev_wake_list input_wake_list now wake_times_def Let_def by (auto simp: Let_def)
  have m: "m \<in> insert ?cap (set (wake_times env th))" "u \<in> insert ?cap (set (wake_times env th)) \<Longrightarrow> m \<le> u" for u
    unfolding m_def by (rule Min_in, simp_all)
  have wfs: "ts_wf u" if "u \<in> insert ?cap (set (wake_times env th))" for u using that wf cap by auto
  have "Min (ts_ns ` insert ?cap (set (wake_times env th))) = ts_ns m"
    using m wfs ts_less_ns(2) by (intro Min_eqI) auto
  then have "Min (insert (ts_ns now + 20 * 1000000000) (ts_ns ` set (wake_times env th))) = ts_ns m" using cap by (simp add: add.commute)
  moreover have "now < m \<longleftrightarrow> ts_ns now < ts_ns m" by (rule ts_less_ns(1) [OF wf(1) wfs [OF m(1)]])
  ultimately show ?thesis using r subtract_timespecs_ns [of m now] by (auto simp: timespec_after_less ts_ns_def)
qed

definition waiting_thread :: "empty_iodev audio_thread" where
  "waiting_thread = mic_thread\<lparr>at_open_devs := (\<lambda>_. [])(CRAS_STREAM_INPUT := [(new_open_dev 0)\<lparr>od_wake_ts := Timespec 3 500\<rparr>])\<rparr>"

lemma waiting_wakes: "wake_times idle_thread_env waiting_thread = [Timespec 3 500]"
  by code_simp

theorem next_sleep_earliest_witness:
  "\<exists>t th'. fill_next_sleep_interval idle_thread_env waiting_thread = (1, t, th') \<and> ts_ns t = 2000000500"
proof -
  obtain n t th' where r: "fill_next_sleep_interval idle_thread_env waiting_thread = (n, t, th')" by (metis prod_cases3)
  have now: "te_now idle_thread_env (fst (aw_io (at_world waiting_thread))) = Timespec 1 0"
    by (simp add: waiting_thread_def audio_thread_create_def mic_world_def idle_world_def idle_thread_env_def mic_clock_def)
  show ?thesis using next_sleep_earliest [OF r refl] r unfolding now waiting_wakes by (simp add: ts_wf_def ts_ns_def)
qed

section \<open>Commands\<close>

definition le_bytes :: "u64 \<Rightarrow> u8 list" where
  "le_bytes x = map (\<lambda>i. ucast (drop_bit (8 * i) x)) [0 ..< 8]"

lemma le_word_bit:
  assumes "n < 64"
  shows "bit (le_word bs) n \<longleftrightarrow> n div 8 < length bs \<and> bit (bs ! (n div 8)) (n mod 8)"
  using assms
proof (induction bs arbitrary: n)
  case (Cons b bs)
  show ?case
  proof (cases "n < 8")
    case True
    then show ?thesis by (simp add: bit_simps)
  next
    case False
    then have "n div 8 = Suc ((n - 8) div 8)" "n mod 8 = (n - 8) mod 8" by (auto simp: le_div_geq le_mod_geq)
    moreover have "\<not> bit b n" using False bit_imp_le_length [of b n] by auto
    ultimately show ?thesis using Cons False by (simp add: bit_simps)
  qed
qed simp

lemma le_word_bytes: "le_word (le_bytes x) = x"
proof (rule bit_word_eqI)
  fix n assume "n < LENGTH(64)"
  then have n: "n < 64" by simp
  have d: "n div 8 < length (le_bytes x)" "n mod 8 < LENGTH(8)" using n by (simp_all add: le_bytes_def)
  then have "bit (le_bytes x ! (n div 8)) (n mod 8) \<longleftrightarrow> bit x (8 * (n div 8) + n mod 8)"
    unfolding le_bytes_def by (subst nth_map) (simp_all only: bit_ucast_iff bit_drop_bit_eq comp_apply length_map length_upt nth_upt, simp)
  then show "bit (le_word (le_bytes x)) n = bit x n" using le_word_bit [OF n, of "le_bytes x"] d by simp
qed

lemma le_bytes_length [simp]: "length (le_bytes x) = 8"
  by (simp add: le_bytes_def)

fun progress :: "pipe_read list \<Rightarrow> nat" where
  \<comment> \<open>the number of reads that return bytes\<close>
  "progress [] = 0"
| "progress (Returns n # outs) = (if n = 0 then 0 else Suc (progress outs))"
| "progress (Interrupted # outs) = progress outs"
| "progress (Failed # outs) = 0"

lemma read_loop_done [simp]: "read_loop outs pipe 0 buf = Some (Inr buf, outs, pipe)"
  by (subst read_loop.simps) simp

lemma read_loop_interrupted: "0 < count \<Longrightarrow> read_loop (Interrupted # outs) pipe count buf = read_loop outs pipe count buf"
  by (subst read_loop.simps) simp

lemma read_loop_returns:
  assumes "0 < count" "min n (min (nat count) (length pipe)) = k" "0 < k"
  shows "read_loop (Returns n # outs) pipe count buf = read_loop outs (drop k pipe) (count - int k) (buf @ take k pipe)"
  by (subst read_loop.simps) (use assms in \<open>simp add: Let_def\<close>)

lemma read_loop_whole:
  assumes "count = int (length bs)" "length bs \<le> progress outs"
  shows "\<exists>outs'. read_loop outs (bs @ rest) count buf = Some (Inr (buf @ bs), outs', rest) \<and> progress outs \<le> progress outs' + length bs"
  using assms
proof (induction outs arbitrary: bs count buf)
  case (Cons x outs)
  show ?case
  proof (cases "bs = []")
    case False
    then have pos: "0 < count" using Cons.prems by simp
    show ?thesis
    proof (cases x)
      case Interrupted
      then show ?thesis using Cons.IH [of count bs buf] Cons.prems read_loop_interrupted [OF pos] by simp
    next
      case (Returns n)
      define k where "k = min n (length bs)"
      have k: "0 < k" "k \<le> length bs" using False Returns Cons.prems by (auto simp: k_def split: if_splits)
      have m: "min n (min (nat count) (length (bs @ rest))) = k" using Cons.prems by (simp add: k_def)
      have "length (drop k bs) \<le> progress outs" using Cons.prems k Returns by (auto split: if_splits)
      moreover have "count - int k = int (length (drop k bs))" using Cons.prems k by (simp add: of_nat_diff)
      ultimately obtain outs' where o: "read_loop outs (drop k bs @ rest) (count - int k) (buf @ take k bs) = Some (Inr ((buf @ take k bs) @ drop k bs), outs', rest)"
        "progress outs \<le> progress outs' + length (drop k bs)" using Cons.IH by blast
      then show ?thesis using read_loop_returns [OF pos m k(1), of outs buf] k Returns Cons.prems by (auto split: if_splits)
    qed (use False Cons.prems in auto)
  qed (use Cons.prems in auto)
qed simp

lemma scast_small_u32:
  fixes x :: u32
  assumes "unat x < 2 ^ 31"
  shows "unat (scast x :: u64) = unat x"
proof -
  have "(scast x :: u64) = of_nat (unat x)" using sint_small_u32 [of x] assms by (simp add: scast_eq)
  moreover have "unat x < 2 ^ 64" using assms by simp
  ultimately show ?thesis by (simp add: unat_of_nat take_bit_nat_eq_self)
qed

lemma read_until_finished_whole:
  assumes "unat count = length bs" "length bs < 2 ^ 31" "length bs \<le> progress outs"
  shows "\<exists>outs'. read_until_finished outs (bs @ rest) count = Some (int (length bs), bs, outs', rest) \<and> progress outs \<le> progress outs' + length bs"
proof -
  have "unat (ucast count :: u32) = length bs" using assms(1,2) by (simp add: unsigned_ucast_eq take_bit_nat_eq_self)
  then have "sint (ucast count :: u32) = int (length bs)" using sint_small_u32 [of "ucast count"] assms(2) by simp
  then show ?thesis using read_loop_whole [OF refl assms(3), of rest "[]"] by (auto simp: read_until_finished_def Let_def)
qed

text \<open>Claim C35.  A command is read whole and exactly, however the pipe splits it and however often reading is
  interrupted, as long as its length is right and it fits; what follows it stays in the pipe.\<close>

theorem read_command_whole:
  assumes hdr: "take 8 msg = le_bytes (of_nat (length msg))" and len: "8 \<le> length msg" "length msg \<le> unat max_len" "unat max_len < 2 ^ 31"
    and outs: "length msg \<le> progress outs"
  shows "\<exists>outs'. audio_thread_read_command outs (msg @ rest) max_len = Some (0, msg, outs', rest)"
proof -
  define body where "body = drop 8 msg"
  have msg: "msg = le_bytes (of_nat (length msg)) @ body" using hdr by (metis append_take_drop_id body_def)
  have n: "unat (of_nat (length msg) :: u64) = length msg" using len by (simp add: unat_of_nat take_bit_nat_eq_self)
  obtain outs1 where 1: "read_until_finished outs (le_bytes (of_nat (length msg)) @ body @ rest) 8 = Some (8, le_bytes (of_nat (length msg)), outs1, body @ rest)"
    "progress outs \<le> progress outs1 + 8"
    using read_until_finished_whole [of 8 "le_bytes (of_nat (length msg))" outs "body @ rest"] outs len by auto
  have sub: "unat (of_nat (length msg) - 8 :: u64) = length body" using n len(1) by (simp add: unat_sub_if' body_def)
  have lb: "length body < 2 ^ 31" "length body \<le> progress outs1" using len outs 1(2) by (simp_all add: body_def)
  have u: "unat (ucast (of_nat (length msg) - 8 :: u64) :: u32) = length body"
    using sub lb(1) by (simp add: unsigned_ucast_eq take_bit_nat_eq_self)
  then have b: "unat (scast (ucast (of_nat (length msg) - 8 :: u64) :: u32) :: u64) = length body" using scast_small_u32 lb by metis
  obtain outs2 where 2: "read_until_finished outs1 (body @ rest) (scast (ucast (of_nat (length msg) - 8 :: u64) :: u32)) = Some (int (length body), body, outs2, rest)"
    using read_until_finished_whole [OF b lb] by blast
  have fits: "\<not> of_nat (length msg) > max_len" using n len(2) by (simp add: word_less_nat_alt)
  have "audio_thread_read_command outs (msg @ rest) max_len = Some (0, le_bytes (of_nat (length msg)) @ body, outs2, rest)"
    by (subst msg) (use 1(1) 2 fits in \<open>simp add: audio_thread_read_command_def le_word_bytes Let_def\<close>)
  then show ?thesis using msg by auto
qed

lemma progress_replicate [simp]: "0 < n \<Longrightarrow> progress (replicate k (Returns n)) = k"
  by (induction k) auto

theorem read_command_whole_witness:
  "\<exists>outs'. audio_thread_read_command (Returns 3 # Interrupted # replicate 16 (Returns 5)) ([16, 0, 0, 0, 0, 0, 0, 0, 1, 2, 3, 4, 5, 6, 7, 8] @ [9]) 256
     = Some (0, [16, 0, 0, 0, 0, 0, 0, 0, 1, 2, 3, 4, 5, 6, 7, 8], outs', [9])"
proof (rule read_command_whole)
  show "take 8 [16, 0, 0, 0, 0, 0, 0, 0, 1, 2, 3, 4, 5, 6, 7, 8] = le_bytes (of_nat (length [16 :: u8, 0, 0, 0, 0, 0, 0, 0, 1, 2, 3, 4, 5, 6, 7, 8]))"
    by code_simp
qed (simp_all del: replicate.simps)

section \<open>The remix\<close>

lemma row_is_zero_iff: "row_is_zero cs n i js \<longleftrightarrow> (\<forall>j \<in> set js. coef_at cs n i j = Fin 0 \<and> coef_at cs n j i = Fin 0)"
  by (induction js) auto

lemma identity_remix_iff:
  "identity_remix cs n is ident \<longleftrightarrow> ident \<and> (\<forall>i \<in> set is. coef_at cs n i i = Fin 1 \<and> row_is_zero cs n i [i + 1 ..< unat n])"
proof (induction "is" arbitrary: ident)
  case (Cons i js)
  show ?case unfolding identity_remix.simps Cons.IH list.set ball_simps by (cases "coef_at cs n i i = Fin 1") simp_all
qed simp

lemma remix_pairs:
  "(\<forall>i<n. P i \<and> (\<forall>j \<in> set [i + 1 ..< n]. Q i j \<and> Q j i)) \<longleftrightarrow> (\<forall>i<n. \<forall>j<n. if i = j then P i else Q i j)" for n :: nat
proof
  assume l: "\<forall>i<n. P i \<and> (\<forall>j \<in> set [i + 1 ..< n]. Q i j \<and> Q j i)"
  show "\<forall>i<n. \<forall>j<n. if i = j then P i else Q i j"
  proof (intro allI impI)
    fix i j assume "i < n" "j < n"
    then show "if i = j then P i else Q i j" using l by (cases i j rule: linorder_cases) auto
  qed
qed auto

lemma coef_at_eq:
  assumes "unat n < 65536" "i < unat n" "j < unat n"
  shows "coef_at cs n i j = cs ! (i * unat n + j)"
proof -
  have "i * unat n \<le> 65535 * 65535" using assms by (intro mult_mono) simp_all
  then have small: "i * unat n + j < 2 ^ 32" using assms by simp
  have "of_nat i * n + of_nat j = (of_nat (i * unat n + j) :: u32)" by simp
  then show ?thesis unfolding coef_at_def using small by (simp only: unat_of_nat) (simp add: take_bit_nat_eq_self)
qed

text \<open>Claim C36.  Setting the remix of all output turns remixing off exactly when the coefficients are those of the identity
  matrix: the two loops look at every one of them.  Otherwise the new converter is the one made from the coefficients, and without
  memory for one the old one stays.  The main thread gets the old converter back, to free it.\<close>

theorem global_remix_identity:
  assumes "unat num_ch < 65536"
  shows "let n = unat num_ch; r = audio_thread_config_global_remix create (0, 0) num_ch cs th in
     if \<forall>i<n. \<forall>j<n. cs ! (i * n + j) = (if i = j then Fin 1 else Fin 0) then r = (0, at_remix th, th\<lparr>at_remix := None\<rparr>)
     else case create num_ch cs of None \<Rightarrow> r = (- ENOMEM, None, th) | Some conv \<Rightarrow> r = (0, at_remix th, th\<lparr>at_remix := Some conv\<rparr>)"
proof -
  define n where "n = unat num_ch"
  have "(\<forall>i<n. \<forall>j<n. cs ! (i * n + j) = (if i = j then Fin 1 else Fin 0)) \<longleftrightarrow>
      (\<forall>i<n. \<forall>j<n. if i = j then coef_at cs num_ch i i = Fin 1 else coef_at cs num_ch i j = Fin 0)"
    using coef_at_eq [OF assms, of _ _ cs] unfolding n_def by (auto split: if_splits)
  also have "\<dots> \<longleftrightarrow> identity_remix cs num_ch [0 ..< n] True"
    using remix_pairs [of n "\<lambda>i. coef_at cs num_ch i i = Fin 1" "\<lambda>i j. coef_at cs num_ch i j = Fin 0"]
    unfolding identity_remix_iff row_is_zero_iff set_upt n_def by (simp add: Ball_def)
  finally have ident: "(\<forall>i<n. \<forall>j<n. cs ! (i * n + j) = (if i = j then Fin 1 else Fin 0)) \<longleftrightarrow> identity_remix cs num_ch [0 ..< n] True" .
  show ?thesis unfolding Let_def n_def [symmetric] ident audio_thread_config_global_remix_def by (simp split: option.split del: upt_Suc)
qed

theorem global_remix_identity_witness:
  "let th = audio_thread_create [] undefined in
     audio_thread_config_global_remix (\<lambda>_ _. Some 5) (0, 0) 2 [Fin 0, Fin 1, Fin 1, Fin 0] th = (0, None, th\<lparr>at_remix := Some 5\<rparr>)"
proof -
  let ?cs = "[Fin 0, Fin 1, Fin 1, Fin 0]"
  have no: "\<not> (\<forall>i<unat (2 :: u32). \<forall>j<unat (2 :: u32). ?cs ! (i * unat (2 :: u32) + j) = (if i = j then Fin 1 else Fin 0))"
    by (rule notI, drule spec [of _ 0], simp, drule spec [of _ 0], simp)
  have "unat (2 :: u32) < 65536" by simp
  from global_remix_identity [OF this, of "\<lambda>_ _. Some 5" ?cs "audio_thread_create [] undefined", unfolded Let_def if_not_P [OF no] option.case]
  show ?thesis by (simp add: audio_thread_create_def)
qed

end
