(* ===== verification/Spec2Isabelle.thy ===== *)
theory Spec2Isabelle
  imports Rclient Alert Input_Device Thread_Props
begin

text \<open>
  A verification library for CRAS, the audio server of ChromeOS (sources under \<^verbatim>\<open>src/cras/src\<close>).

  \<^bold>\<open>The program.\<close>  Clients connect over a socket and ask for streams; samples go through a double buffer in
  memory that client and server share.  The main thread keeps the streams, the system state (volume, mutes,
  counts), timers and alerts.  The audio thread moves frames between the streams and the devices: it reads the
  double buffer of each output stream, converts the format, mixes into the buffer of the device, and commits
  what all streams have written; for input the other way round.  A device is a state machine on top of a
  driver, which is a structure of function pointers.

  \<^bold>\<open>Theories and sources.\<close>

  \<^item> \<open>CRAS_Prelude\<close>: C integers as words, error numbers, shared lemmas, the collection \<open>cras_inv\<close>.
    \<open>Fifo\<close>: the locale \<open>fifo\<close>, the contract of a queue with runs of requests.
  \<^item> \<open>Byte_Buffer\<close>: \<^verbatim>\<open>common/byte_buffer.h\<close>.  \<open>Audio_Shm\<close>: \<^verbatim>\<open>common/cras_shm.h\<close>, whose header lies in memory
    that the client writes.  Both interpret \<open>fifo\<close>: what is delivered is what was written, in order.
  \<^item> \<open>Buffer_Share\<close>: \<^verbatim>\<open>server/buffer_share.c\<close>, the offsets of the devices (or streams) that share one buffer;
    locale \<open>offset_table\<close>.
  \<^item> \<open>Timespec\<close>: times and frame counts of \<^verbatim>\<open>common/cras_util.h\<close>, \<^verbatim>\<open>server/polled_interval_checker.c\<close>.
    \<open>Timer\<close>: \<^verbatim>\<open>server/cras_tm.c\<close>.
  \<^item> \<open>Audio_Format\<close>: \<^verbatim>\<open>common/cras_audio_format.c\<close>.  \<open>Cras_Types\<close>: \<^verbatim>\<open>common/cras_types.h\<close>.
    \<open>System_State\<close>: \<^verbatim>\<open>server/cras_system_state.c\<close>.  \<open>Alert\<close>: \<^verbatim>\<open>server/cras_alert.c\<close>.
  \<^item> \<open>Rstream\<close>: \<^verbatim>\<open>server/cras_rstream.c\<close>, \<^verbatim>\<open>cras_rstream_config.c\<close>, a stream with its double buffer, requests,
    replies and devices.  \<open>Stream_List\<close>: \<^verbatim>\<open>server/stream_list.c\<close>, with the callbacks of
    \<^verbatim>\<open>cras_iodev_list.c\<close> and \<^verbatim>\<open>cras_system_state.c\<close>; locale \<open>stream_owner\<close>.  \<open>Rclient\<close>:
    \<^verbatim>\<open>server/cras_rclient_util.c\<close>, messages of clients and the descriptors they carry.
  \<^item> \<open>Fmt_Conv_Ops\<close>, \<open>Linear_Resampler\<close>, \<open>Fmt_Conv\<close>: \<^verbatim>\<open>server/cras_fmt_conv_ops.c\<close>, \<^verbatim>\<open>linear_resampler.c\<close>,
    \<^verbatim>\<open>cras_fmt_conv.c\<close>.  \<open>Audio_Area\<close>: \<^verbatim>\<open>server/cras_audio_area.c\<close>.
  \<^item> \<open>Dev_Stream\<close>: \<^verbatim>\<open>server/dev_stream.c\<close>, a stream attached to a device: mixing, capturing, wake times.
  \<^item> \<open>Ramp\<close>: \<^verbatim>\<open>server/cras_ramp.c\<close>.  \<open>Input_Data\<close>: \<^verbatim>\<open>server/float_buffer.h\<close>, \<^verbatim>\<open>input_data.c\<close>.
  \<^item> \<open>Iodev\<close>: \<^verbatim>\<open>server/cras_iodev.c\<close>, an audio device; the function pointers of a driver are the record
    \<open>iodev_ops\<close>, and the locale \<open>iodev_driver\<close> says what a driver may change.  \<open>Empty_Iodev\<close>:
    \<^verbatim>\<open>server/cras_empty_iodev.c\<close>, a driver that interprets it.  \<open>Input_Device\<close> and \<open>Output_Device\<close> prove what
    happens over whole runs; \<open>server_driver\<close> extends the contract by opening, starting and closing.
  \<^item> \<open>Dev_Io\<close>, \<open>Dev_Playback\<close>, \<open>Dev_Capture\<close>: \<^verbatim>\<open>server/dev_io.c\<close>.  The state \<open>audio_world\<close> has a store of streams and a
    store of devices, since a stream is attached to several devices; each use of the clock, of a socket or of a queue takes the
    next element of a sequence in \<open>thread_env\<close>, and what is sent, mixed and captured is a list of events.  \<open>Stream_Attach\<close>
    shows that attaching and detaching refine the operations of a relation between streams and devices.
  \<^item> \<open>Thread_Frame\<close>, \<open>Thread_Run\<close>: what one call of \<^verbatim>\<open>dev_io_run\<close> leaves alone; the locale \<open>audio_drivers\<close> says what the
    drivers of the open devices may do.
  \<^item> \<open>Audio_Thread\<close>: \<^verbatim>\<open>server/audio_thread.c\<close>, the messages of the main thread, the descriptors that are polled, sleeping and
    one round of the loop.  \<open>Thread_Inv\<close>: the invariant of the thread over all messages and rounds, as a step relation.
    \<open>Thread_Props\<close>: polling, sleeping, reading commands and the remix.

  \<^bold>\<open>How the code is modelled.\<close>  A structure is a record, an enumeration that is only compared a datatype, a
  C integer a word of its width (\<open>int\<close> where only the sign and size matter).  An operation takes the
  structures it changes and returns them; an error number is an \<open>int\<close> result.  \<open>None\<close> stands for what C does not
  define: a failed assertion, a null pointer, an access outside an object, or no return.  Loops are recursive
  functions with a measure; those that depend on a driver or on callbacks and may run forever are partial
  functions into \<open>option\<close>, and where the development claims that such a loop returns, this is proved as
  such.  Fuel occurs in \<open>Timer\<close>, where the theorem states that some fuel is enough, and in \<open>Rstream\<close>, where
  \<open>Suc (length msgs)\<close> rounds are enough to read \<open>msgs\<close>.  A \<^verbatim>\<open>float\<close> is a rational number, and the rounding of
  each operation a parameter; theorems name what they need of it.  Clocks, allocation, sockets, the speex
  resampler, signal processing pipelines and the libraries of the system are parameters.

  \<^bold>\<open>What is shown.\<close>  Queues deliver in order and never reach outside their memory, whatever a client writes
  into the shared header.  Counts, tables, timers, alerts, drains and mutes keep their invariants over all
  sequences of operations, and the loops over timers and alerts return.  A stream that is accepted has
  buffers whose sizes do not overflow; descriptors of a client are closed once.  Conversions stay inside
  their buffers and are inverse to each other where they should be.  Mixing a stream plays its queue.  A
  device follows its state diagram, and captured frames are processed exactly once.  The audio
  thread attaches streams only to open devices, polls what it has to, and sleeps until the first time it is needed.  Some theorems show
  faults of the code: they state what it does on an input on which it goes wrong.

  \<^bold>\<open>Not modelled.\<close>  The values of mixed samples and of filters (floating point sums), ALSA, Bluetooth, D-Bus
  and udev, which are sequences of calls to other systems; the tools and the client library, which run in
  other processes and whose writes to shared memory are arbitrary here.
\<close>

end
